theory Spec2Isabelle
  imports Main
begin

section \<open>The browser session as an explicit world\<close>

text \<open>
  \<^verbatim>\<open>booking_scraper_refactor.py\<close> drives a Selenium \<^verbatim>\<open>webdriver.Chrome\<close> and reads the
  pages it loads with BeautifulSoup. Neither library is part of the repository, so both
  are taken as capabilities: a record of operations over an arbitrary world state \<open>'d\<close>
  (the browser and the site behind it), each returning either the exception it raises
  (\<open>Inl\<close>) or its value (\<open>Inr\<close>), together with the next world state. Whatever the site
  does, including misbehaving, is some such record. Handles of Selenium web elements are
  an arbitrary type \<open>'w\<close>, BeautifulSoup tags an arbitrary type \<open>'t\<close>.

  Only subclasses of Python's \<^verbatim>\<open>Exception\<close> are modelled: these are what a driver or
  parser call can raise, and what \<^verbatim>\<open>except Exception\<close> catches.
\<close>

datatype exn =
    TimeoutException
  | ElementClickInterceptedException
  | NoSuchElementException
  | OSError
  | ValueError
  | IndexError
  | OtherException

text \<open>What \<^verbatim>\<open>execute_script\<close> hands back: the scripts of this program return a number
  (a scroll height) or nothing.\<close>

datatype jsval = JNull | JNum int | JStr string

text \<open>The arguments given to \<^verbatim>\<open>send_keys\<close>.\<close>

datatype keys = KeysControlA | KeysDelete | KeysReturn | KeysText string

text \<open>Every call made on the driver, as it appears in the log of a session.\<close>

datatype 'w call =
    CGet string
  | CUntilClickable nat string
  | CUntilPresent nat string
  | CFindElement string
  | CElemFindElement 'w string
  | CExecuteScript string "'w list"
  | CClick 'w
  | CClear 'w
  | CSendKeys 'w keys
  | CIsEnabled 'w
  | CCurrentUrl
  | CPageSource
  | CQuit
  | CWriteFile string

record ('d, 'w) driver =
  wd_get :: "string \<Rightarrow> 'd \<Rightarrow> (exn + unit) \<times> 'd"
  wd_until_clickable :: "nat \<Rightarrow> string \<Rightarrow> 'd \<Rightarrow> (exn + 'w) \<times> 'd"
  wd_until_present :: "nat \<Rightarrow> string \<Rightarrow> 'd \<Rightarrow> (exn + 'w) \<times> 'd"
  wd_find_element :: "string \<Rightarrow> 'd \<Rightarrow> (exn + 'w) \<times> 'd"
  wd_elem_find_element :: "'w \<Rightarrow> string \<Rightarrow> 'd \<Rightarrow> (exn + 'w) \<times> 'd"
  wd_execute_script :: "string \<Rightarrow> 'w list \<Rightarrow> 'd \<Rightarrow> (exn + jsval) \<times> 'd"
  wd_click :: "'w \<Rightarrow> 'd \<Rightarrow> (exn + unit) \<times> 'd"
  wd_clear :: "'w \<Rightarrow> 'd \<Rightarrow> (exn + unit) \<times> 'd"
  wd_send_keys :: "'w \<Rightarrow> keys \<Rightarrow> 'd \<Rightarrow> (exn + unit) \<times> 'd"
  wd_is_enabled :: "'w \<Rightarrow> 'd \<Rightarrow> (exn + bool) \<times> 'd"
  wd_current_url :: "'d \<Rightarrow> (exn + string) \<times> 'd"
  wd_page_source :: "'d \<Rightarrow> (exn + string) \<times> 'd"
  wd_quit :: "'d \<Rightarrow> (exn + unit) \<times> 'd"
  wd_write_file :: "string \<Rightarrow> 'd \<Rightarrow> (exn + unit) \<times> 'd"
  wd_sleep :: "nat \<Rightarrow> 'd \<Rightarrow> 'd"
  wd_sleep_uniform :: "nat \<Rightarrow> nat \<Rightarrow> 'd \<Rightarrow> 'd"
  wd_now_isoformat :: "'d \<Rightarrow> string"

text \<open>
  A session is the world together with the log of the driver calls made so far, each
  with whether it returned (\<open>True\<close>) or raised (\<open>False\<close>). The log is what an observer of
  the browser sees; the program never reads it.
\<close>

type_synonym 'w log = "('w call \<times> bool) list"
type_synonym ('d, 'w) session = "'d \<times> 'w log"

fun returned :: "exn + 'a \<Rightarrow> bool" where
  "returned (Inl e) = False"
| "returned (Inr v) = True"

definition invoke ::
  "'w call \<Rightarrow> ('d \<Rightarrow> (exn + 'a) \<times> 'd) \<Rightarrow> ('d, 'w) session \<Rightarrow> (exn + 'a) \<times> ('d, 'w) session" where
  "invoke c f s = (case f (fst s) of (r, d') \<Rightarrow> (r, (d', snd s @ [(c, returned r)])))"

definition get :: "('d, 'w) driver \<Rightarrow> string \<Rightarrow> ('d, 'w) session \<Rightarrow> (exn + unit) \<times> ('d, 'w) session" where
  "get drv url = invoke (CGet url) (wd_get drv url)"

definition until_clickable ::
  "('d, 'w) driver \<Rightarrow> nat \<Rightarrow> string \<Rightarrow> ('d, 'w) session \<Rightarrow> (exn + 'w) \<times> ('d, 'w) session" where
  "until_clickable drv timeout css = invoke (CUntilClickable timeout css) (wd_until_clickable drv timeout css)"

definition until_present ::
  "('d, 'w) driver \<Rightarrow> nat \<Rightarrow> string \<Rightarrow> ('d, 'w) session \<Rightarrow> (exn + 'w) \<times> ('d, 'w) session" where
  "until_present drv timeout css = invoke (CUntilPresent timeout css) (wd_until_present drv timeout css)"

definition find_element ::
  "('d, 'w) driver \<Rightarrow> string \<Rightarrow> ('d, 'w) session \<Rightarrow> (exn + 'w) \<times> ('d, 'w) session" where
  "find_element drv css = invoke (CFindElement css) (wd_find_element drv css)"

definition elem_find_element ::
  "('d, 'w) driver \<Rightarrow> 'w \<Rightarrow> string \<Rightarrow> ('d, 'w) session \<Rightarrow> (exn + 'w) \<times> ('d, 'w) session" where
  "elem_find_element drv w css = invoke (CElemFindElement w css) (wd_elem_find_element drv w css)"

definition execute_script ::
  "('d, 'w) driver \<Rightarrow> string \<Rightarrow> 'w list \<Rightarrow> ('d, 'w) session \<Rightarrow> (exn + jsval) \<times> ('d, 'w) session" where
  "execute_script drv js args = invoke (CExecuteScript js args) (wd_execute_script drv js args)"

definition click :: "('d, 'w) driver \<Rightarrow> 'w \<Rightarrow> ('d, 'w) session \<Rightarrow> (exn + unit) \<times> ('d, 'w) session" where
  "click drv w = invoke (CClick w) (wd_click drv w)"

definition clear :: "('d, 'w) driver \<Rightarrow> 'w \<Rightarrow> ('d, 'w) session \<Rightarrow> (exn + unit) \<times> ('d, 'w) session" where
  "clear drv w = invoke (CClear w) (wd_clear drv w)"

definition send_keys ::
  "('d, 'w) driver \<Rightarrow> 'w \<Rightarrow> keys \<Rightarrow> ('d, 'w) session \<Rightarrow> (exn + unit) \<times> ('d, 'w) session" where
  "send_keys drv w k = invoke (CSendKeys w k) (wd_send_keys drv w k)"

definition is_enabled ::
  "('d, 'w) driver \<Rightarrow> 'w \<Rightarrow> ('d, 'w) session \<Rightarrow> (exn + bool) \<times> ('d, 'w) session" where
  "is_enabled drv w = invoke (CIsEnabled w) (wd_is_enabled drv w)"

definition current_url :: "('d, 'w) driver \<Rightarrow> ('d, 'w) session \<Rightarrow> (exn + string) \<times> ('d, 'w) session" where
  "current_url drv = invoke CCurrentUrl (wd_current_url drv)"

definition page_source :: "('d, 'w) driver \<Rightarrow> ('d, 'w) session \<Rightarrow> (exn + string) \<times> ('d, 'w) session" where
  "page_source drv = invoke CPageSource (wd_page_source drv)"

definition quit :: "('d, 'w) driver \<Rightarrow> ('d, 'w) session \<Rightarrow> (exn + unit) \<times> ('d, 'w) session" where
  "quit drv = invoke CQuit (wd_quit drv)"

text \<open>Opening a file for writing and dumping JSON into it; the content is kept by the
  model, the world only says whether the write went through.\<close>

definition write_file ::
  "('d, 'w) driver \<Rightarrow> string \<Rightarrow> ('d, 'w) session \<Rightarrow> (exn + unit) \<times> ('d, 'w) session" where
  "write_file drv filename = invoke (CWriteFile filename) (wd_write_file drv filename)"

text \<open>\<^verbatim>\<open>time.sleep\<close>, in milliseconds: the world moves on, nothing is logged.
  \<open>sleep_uniform\<close> is \<^verbatim>\<open>time.sleep(random.uniform(lo, hi))\<close>, the world choosing the
  duration; \<open>wd_now_isoformat\<close> is \<^verbatim>\<open>datetime.now().isoformat()\<close>.\<close>

definition sleep :: "('d, 'w) driver \<Rightarrow> nat \<Rightarrow> ('d, 'w) session \<Rightarrow> ('d, 'w) session" where
  "sleep drv ms s = (wd_sleep drv ms (fst s), snd s)"

definition sleep_uniform :: "('d, 'w) driver \<Rightarrow> nat \<Rightarrow> nat \<Rightarrow> ('d, 'w) session \<Rightarrow> ('d, 'w) session" where
  "sleep_uniform drv lo hi s = (wd_sleep_uniform drv lo hi (fst s), snd s)"

text \<open>A sleep as a step of a sequence.\<close>

definition pause :: "('d, 'w) driver \<Rightarrow> nat \<Rightarrow> ('d, 'w) session \<Rightarrow> (exn + unit) \<times> ('d, 'w) session" where
  "pause drv ms s = (Inr (), sleep drv ms s)"

text \<open>Sequencing: an exception stops the rest, as in Python.\<close>

definition bind ::
  "('s \<Rightarrow> (exn + 'a) \<times> 's) \<Rightarrow> ('a \<Rightarrow> 's \<Rightarrow> (exn + 'b) \<times> 's) \<Rightarrow> 's \<Rightarrow> (exn + 'b) \<times> 's" where
  "bind m f s = (case m s of (Inl e, s') \<Rightarrow> (Inl e, s') | (Inr x, s') \<Rightarrow> f x s')"

definition thenE :: "exn + 'a \<Rightarrow> ('a \<Rightarrow> exn + 'b) \<Rightarrow> exn + 'b" where
  "thenE r f = (case r of Inl e \<Rightarrow> Inl e | Inr x \<Rightarrow> f x)"

text \<open>The script every click of the program goes through.\<close>

definition JS_CLICK :: string where
  "JS_CLICK = ''arguments[0].click();''"

subsection \<open>The document-query capability (BeautifulSoup)\<close>

text \<open>
  \<open>bs_parse\<close> is \<^verbatim>\<open>BeautifulSoup(html, 'html.parser')\<close>; \<open>bs_find t name attr value\<close> is
  \<^verbatim>\<open>t.find(name, {attr: value})\<close> and \<open>bs_find_all\<close> likewise; \<open>bs_find_all_named t name\<close>
  is \<^verbatim>\<open>t.find_all(name)\<close>; \<open>bs_find_by\<close> is
  \<^verbatim>\<open>t.find(function)\<close>; \<open>bs_select\<close> and \<open>bs_select_one\<close> take a CSS selector;
  \<open>bs_get_text t sep strip\<close> is \<^verbatim>\<open>t.get_text(sep, strip=strip)\<close>; \<open>bs_get t a\<close> is
  \<^verbatim>\<open>t.get(a)\<close>; \<open>bs_name t\<close> is \<^verbatim>\<open>t.name\<close>. A tag is always truthy in Python, so
  \<^verbatim>\<open>x if elem else y\<close> and \<^verbatim>\<open>a or b\<close> on the result of a find test only for \<^verbatim>\<open>None\<close>.
\<close>

record 't soup =
  bs_parse :: "string \<Rightarrow> exn + 't"
  bs_find :: "'t \<Rightarrow> string \<Rightarrow> string \<Rightarrow> string \<Rightarrow> exn + 't option"
  bs_find_all :: "'t \<Rightarrow> string \<Rightarrow> string \<Rightarrow> string \<Rightarrow> exn + 't list"
  bs_find_all_named :: "'t \<Rightarrow> string \<Rightarrow> exn + 't list"
  bs_find_by :: "'t \<Rightarrow> ('t \<Rightarrow> exn + bool) \<Rightarrow> exn + 't option"
  bs_select :: "'t \<Rightarrow> string \<Rightarrow> exn + 't list"
  bs_select_one :: "'t \<Rightarrow> string \<Rightarrow> exn + 't option"
  bs_get_text :: "'t \<Rightarrow> string \<Rightarrow> bool \<Rightarrow> exn + string"
  bs_get :: "'t \<Rightarrow> string \<Rightarrow> exn + string option"
  bs_name :: "'t \<Rightarrow> string"

text \<open>\<^verbatim>\<open>elem.get_text(strip=True) if elem else default\<close>.\<close>

fun text_or :: "'t soup \<Rightarrow> 't option \<Rightarrow> string \<Rightarrow> exn + string" where
  "text_or bs None fallback = Inr fallback"
| "text_or bs (Some elem) fallback = bs_get_text bs elem '''' True"

section \<open>The review paginator: \<^verbatim>\<open>scrape_reviews_from_modal\<close>\<close>

definition ESPERA_MODAL_RESENAS :: nat where
  "ESPERA_MODAL_RESENAS = 10"

definition MAX_PAGINAS_RESENAS :: int where
  "MAX_PAGINAS_RESENAS = 5"

record review =
  title :: string
  date :: string
  negative_feedback :: string
  positive_feedback :: string

definition SEL_READ_ALL_REVIEWS :: string where
  \<open>SEL_READ_ALL_REVIEWS = ''[data-testid="fr-read-all-reviews"]''\<close>

definition SEL_REVIEWS_MODAL :: string where
  \<open>SEL_REVIEWS_MODAL = ''[data-testid="fr-reviews-modal"], div[role="dialog"]''\<close>

definition SEL_REVIEW_CARDS :: string where
  \<open>SEL_REVIEW_CARDS =
     ''div[data-testid="fr-reviews-modal"] div[data-testid="review-card"], '' @
     ''div[role="dialog"] div[data-testid="review-card"]''\<close>

definition SEL_NEXT_PAGE :: string where
  \<open>SEL_NEXT_PAGE = ''button[aria-label="P'' @ [CHR 0xC3, CHR 0xA1] @ ''gina siguiente"]''\<close>

definition SEL_CLOSE :: string where
  \<open>SEL_CLOSE = ''button[aria-label="Cerrar"]''\<close>

definition JS_SCROLL_HEIGHT :: string where
  "JS_SCROLL_HEIGHT = ''return arguments[0].scrollHeight;''"

definition JS_SCROLL_TO_END :: string where
  "JS_SCROLL_TO_END = ''arguments[0].scrollTop = arguments[0].scrollHeight;''"

text \<open>One review card of \<^verbatim>\<open>parse_visible_reviews\<close>: the four finds, then the dictionary,
  whose values are evaluated in the order title, date, negative, positive.\<close>

definition parse_review_card :: "'t soup \<Rightarrow> 't \<Rightarrow> exn + review" where
  "parse_review_card bs rcard =
     thenE (bs_find bs rcard ''h4'' ''data-testid'' ''review-title'') (\<lambda>title_elem.
     thenE (bs_find bs rcard ''span'' ''data-testid'' ''review-date'') (\<lambda>date_elem.
     thenE (bs_find bs rcard ''div'' ''data-testid'' ''review-positive-text'') (\<lambda>review_pos_elem.
     thenE (bs_find bs rcard ''div'' ''data-testid'' ''review-negative-text'') (\<lambda>review_neg_elem.
     thenE (text_or bs title_elem '''') (\<lambda>t.
     thenE (text_or bs date_elem '''') (\<lambda>d.
     thenE (text_or bs review_neg_elem '''') (\<lambda>n.
     thenE (text_or bs review_pos_elem '''') (\<lambda>p.
       Inr \<lparr>title = t, date = d, negative_feedback = n, positive_feedback = p\<rparr>))))))))"

fun parse_review_cards :: "'t soup \<Rightarrow> 't list \<Rightarrow> review list \<Rightarrow> exn + review list" where
  "parse_review_cards bs [] parsed_list = Inr parsed_list"
| "parse_review_cards bs (rcard # containers) parsed_list =
     (case parse_review_card bs rcard of
        Inl e \<Rightarrow> Inl e
      | Inr r \<Rightarrow> parse_review_cards bs containers (parsed_list @ [r]))"

definition parse_visible_reviews ::
  "('d, 'w) driver \<Rightarrow> 't soup \<Rightarrow> ('d, 'w) session \<Rightarrow> (exn + review list) \<times> ('d, 'w) session" where
  "parse_visible_reviews drv bs =
     bind (page_source drv) (\<lambda>html s.
       (thenE (bs_parse bs html) (\<lambda>soup.
        thenE (bs_select bs soup SEL_REVIEW_CARDS) (\<lambda>containers.
        parse_review_cards bs containers [])), s))"

text \<open>\<^verbatim>\<open>scroll_modal_completely\<close>: \<^verbatim>\<open>for _ in range(15)\<close> with the attempts left as the
  counter; any exception inside the body breaks out of the loop.\<close>

fun scroll_modal_loop ::
  "('d, 'w) driver \<Rightarrow> 'w \<Rightarrow> nat \<Rightarrow> jsval \<Rightarrow> ('d, 'w) session \<Rightarrow> ('d, 'w) session" where
  "scroll_modal_loop drv modal 0 last_height s = s"
| "scroll_modal_loop drv modal (Suc n) last_height s =
     (case execute_script drv JS_SCROLL_HEIGHT [modal] s of
        (Inl e, s1) \<Rightarrow> s1
      | (Inr current_height, s1) \<Rightarrow>
          (case execute_script drv JS_SCROLL_TO_END [modal] s1 of
             (Inl e, s2) \<Rightarrow> s2
           | (Inr u, s2) \<Rightarrow>
               (case execute_script drv JS_SCROLL_HEIGHT [modal] (sleep drv 1500 s2) of
                  (Inl e, s3) \<Rightarrow> s3
                | (Inr new_height, s3) \<Rightarrow>
                    if new_height = last_height \<or> new_height = current_height then s3
                    else scroll_modal_loop drv modal n new_height s3)))"

definition scroll_modal_completely ::
  "('d, 'w) driver \<Rightarrow> 'w \<Rightarrow> ('d, 'w) session \<Rightarrow> ('d, 'w) session" where
  "scroll_modal_completely drv modal s = scroll_modal_loop drv modal 15 (JNum (- 1)) s"

text \<open>\<^verbatim>\<open>click_next_page\<close>. Both handlers return \<^verbatim>\<open>False\<close>; a disabled button falls off
  the end of the function, which in Python returns \<^verbatim>\<open>None\<close> (here \<open>None\<close>).\<close>

fun next_page_except :: "exn \<Rightarrow> bool option" where
  "next_page_except NoSuchElementException = Some False"
| "next_page_except e = Some False"

definition click_next_page ::
  "('d, 'w) driver \<Rightarrow> ('d, 'w) session \<Rightarrow> bool option \<times> ('d, 'w) session" where
  "click_next_page drv s =
     (case find_element drv SEL_NEXT_PAGE s of
        (Inl e, s1) \<Rightarrow> (next_page_except e, s1)
      | (Inr next_button, s1) \<Rightarrow>
          (case is_enabled drv next_button s1 of
             (Inl e, s2) \<Rightarrow> (next_page_except e, s2)
           | (Inr enabled, s2) \<Rightarrow>
               if enabled then
                 (case execute_script drv JS_CLICK [next_button] s2 of
                    (Inl e, s3) \<Rightarrow> (next_page_except e, s3)
                  | (Inr u, s3) \<Rightarrow> (Some True, sleep drv 1500 s3))
               else (None, s2)))"

text \<open>The inner \<^verbatim>\<open>for review in current_page_reviews\<close>, on the pair
  (\<^verbatim>\<open>reviews\<close>, \<^verbatim>\<open>collected_titles\<close>).\<close>

fun admit :: "review list \<Rightarrow> review list \<times> string set \<Rightarrow> review list \<times> string set" where
  "admit [] acc = acc"
| "admit (r # rest) (reviews, collected_titles) =
     (if review.title r \<notin> collected_titles
      then admit rest (reviews @ [r], insert (review.title r) collected_titles)
      else admit rest (reviews, collected_titles))"

text \<open>\<^verbatim>\<open>not click_next_page()\<close>: \<^verbatim>\<open>None\<close> and \<^verbatim>\<open>False\<close> are both falsy.\<close>

fun truthy :: "bool option \<Rightarrow> bool" where
  "truthy (Some b) = b"
| "truthy None = False"

text \<open>\<^verbatim>\<open>for page in range(1, max_pages + 1)\<close>, over the pages still to do.\<close>

fun paginate ::
  "('d, 'w) driver \<Rightarrow> 't soup \<Rightarrow> 'w \<Rightarrow> int list \<Rightarrow> review list \<times> string set \<Rightarrow>
     ('d, 'w) session \<Rightarrow> (exn + review list \<times> string set) \<times> ('d, 'w) session" where
  "paginate drv bs modal [] acc s = (Inr acc, s)"
| "paginate drv bs modal (page # pages) acc s =
     (case parse_visible_reviews drv bs (scroll_modal_completely drv modal s) of
        (Inl e, s2) \<Rightarrow> (Inl e, s2)
      | (Inr current_page_reviews, s2) \<Rightarrow>
          (case click_next_page drv s2 of
             (advanced, s3) \<Rightarrow>
               if \<not> truthy advanced then (Inr (admit current_page_reviews acc), s3)
               else paginate drv bs modal pages (admit current_page_reviews acc) s3))"

text \<open>The best-effort click on the close button; every exception is passed over.\<close>

definition close_modal :: "('d, 'w) driver \<Rightarrow> 'w \<Rightarrow> ('d, 'w) session \<Rightarrow> ('d, 'w) session" where
  "close_modal drv modal s =
     (case elem_find_element drv modal SEL_CLOSE s of
        (Inl e, s1) \<Rightarrow> s1
      | (Inr close_btn, s1) \<Rightarrow> snd (execute_script drv JS_CLICK [close_btn] s1))"

definition scrape_reviews_from_modal ::
  "('d, 'w) driver \<Rightarrow> 't soup \<Rightarrow> int \<Rightarrow> ('d, 'w) session \<Rightarrow> (exn + review list) \<times> ('d, 'w) session" where
  "scrape_reviews_from_modal drv bs max_pages s =
     (case bind (until_clickable drv ESPERA_MODAL_RESENAS SEL_READ_ALL_REVIEWS)
                (\<lambda>btn_read_reviews. execute_script drv JS_CLICK [btn_read_reviews]) s of
        (Inl e, s1) \<Rightarrow>
          if e = TimeoutException \<or> e = ElementClickInterceptedException then (Inr [], s1)
          else (Inl e, s1)
      | (Inr u, s1) \<Rightarrow>
          (case until_present drv ESPERA_MODAL_RESENAS SEL_REVIEWS_MODAL s1 of
             (Inl e, s2) \<Rightarrow> if e = TimeoutException then (Inr [], s2) else (Inl e, s2)
           | (Inr modal, s2) \<Rightarrow>
               (case paginate drv bs modal [1..max_pages] ([], {}) s2 of
                  (Inl e, s3) \<Rightarrow> (Inl e, s3)
                | (Inr (reviews, collected_titles), s3) \<Rightarrow>
                    (Inr reviews, close_modal drv modal s3))))"

section \<open>The location resolver: \<^verbatim>\<open>buscar_dest_id\<close>\<close>

subsection \<open>\<^verbatim>\<open>urllib.parse\<close>: the query of a URL and its parameters\<close>

text \<open>
  A Python string is modelled by its UTF-8 bytes. Three functions of the standard library
  rest on tables that are no part of the repository (the Unicode normalisation forms, the
  grammar of IP literals, the UTF-8 decoder), so they are parameters of the model:
  \<open>py_normalize_nfkc\<close> is \<^verbatim>\<open>unicodedata.normalize('NFKC', s)\<close>,
  \<open>py_check_bracketed_netloc\<close> says whether \<^verbatim>\<open>_check_bracketed_netloc\<close> raises on a network
  location that has both square brackets (in a Python without that check it is constantly
  \<open>False\<close>), and \<open>py_decode_utf8_replace\<close> is \<^verbatim>\<open>bytes.decode('utf-8', 'replace')\<close>.
\<close>

record pylib =
  py_normalize_nfkc :: "string \<Rightarrow> string"
  py_check_bracketed_netloc :: "string \<Rightarrow> bool"
  py_decode_utf8_replace :: "string \<Rightarrow> string"

text \<open>
  \<^verbatim>\<open>urlparse(current_url).query\<close>, following \<^verbatim>\<open>urlsplit\<close>: leading control characters
  and spaces are stripped, tabs and line breaks removed, the scheme and the network
  location are split off, the fragment is cut at the first \<^verbatim>\<open>#\<close>, and the query is what
  follows the first \<^verbatim>\<open>?\<close>. \<^verbatim>\<open>ValueError\<close> is raised for a network location with an
  unmatched square bracket, for one with both brackets that \<^verbatim>\<open>_check_bracketed_netloc\<close>
  refuses, and for one that \<^verbatim>\<open>_checknetloc\<close> refuses.
\<close>

definition is_ascii_alpha :: "char \<Rightarrow> bool" where
  "is_ascii_alpha c =
     (let n = (of_char c :: nat) in (65 \<le> n \<and> n \<le> 90) \<or> (97 \<le> n \<and> n \<le> 122))"

definition is_ascii_digit :: "char \<Rightarrow> bool" where
  "is_ascii_digit c = (let n = (of_char c :: nat) in 48 \<le> n \<and> n \<le> 57)"

definition is_scheme_char :: "char \<Rightarrow> bool" where
  "is_scheme_char c =
     (is_ascii_alpha c \<or> is_ascii_digit c \<or> c = CHR ''+'' \<or> c = CHR ''-'' \<or> c = CHR ''.'')"

definition strip_scheme :: "string \<Rightarrow> string" where
  "strip_scheme u =
     (let pre = takeWhile (\<lambda>c. c \<noteq> CHR '':'') u in
      if pre \<noteq> [] \<and> length pre < length u \<and> is_ascii_alpha (hd pre) \<and> list_all is_scheme_char pre
      then drop (Suc (length pre)) u
      else u)"

definition ends_netloc :: "char \<Rightarrow> bool" where
  "ends_netloc c = (c = CHR ''/'' \<or> c = CHR ''?'' \<or> c = CHR ''#'')"

definition split_netloc :: "string \<Rightarrow> string \<times> string" where
  "split_netloc u =
     (if take 2 u = ''//''
      then (takeWhile (\<lambda>c. \<not> ends_netloc c) (drop 2 u), dropWhile (\<lambda>c. \<not> ends_netloc c) (drop 2 u))
      else ([], u))"

definition is_ascii :: "char \<Rightarrow> bool" where
  "is_ascii c = ((of_char c :: nat) < 128)"

text \<open>\<^verbatim>\<open>_checknetloc\<close>, \<open>True\<close> when it raises: an empty or ASCII location passes; otherwise
  the location without \<^verbatim>\<open>@ : # ?\<close> is normalised, and when that changes it, none of
  \<^verbatim>\<open>/ ? # @ :\<close> may appear in the normal form.\<close>

definition checknetloc :: "pylib \<Rightarrow> string \<Rightarrow> bool" where
  "checknetloc lib netloc =
     (if netloc = [] \<or> list_all is_ascii netloc then False
      else
        (let n = filter (\<lambda>c. c \<noteq> CHR ''@'' \<and> c \<noteq> CHR '':'' \<and> c \<noteq> CHR ''#'' \<and> c \<noteq> CHR ''?'') netloc;
             netloc2 = py_normalize_nfkc lib n
         in if n = netloc2 then False
            else list_ex (\<lambda>c. c = CHR ''/'' \<or> c = CHR ''?'' \<or> c = CHR ''#'' \<or> c = CHR ''@'' \<or> c = CHR '':'')
                   netloc2))"

definition urlparse_query :: "pylib \<Rightarrow> string \<Rightarrow> exn + string" where
  "urlparse_query lib u0 =
     (let u1 = dropWhile (\<lambda>c. (of_char c :: nat) \<le> 32) u0;
          u2 = filter (\<lambda>c. c \<noteq> CHR 0x09 \<and> c \<noteq> CHR 0x0A \<and> c \<noteq> CHR 0x0D) u1;
          (netloc, rest) = split_netloc (strip_scheme u2)
      in if (CHR ''['' \<in> set netloc \<and> CHR '']'' \<notin> set netloc) \<or>
            (CHR '']'' \<in> set netloc \<and> CHR ''['' \<notin> set netloc)
         then Inl ValueError
         else if CHR ''['' \<in> set netloc \<and> CHR '']'' \<in> set netloc \<and> py_check_bracketed_netloc lib netloc
         then Inl ValueError
         else if checknetloc lib netloc then Inl ValueError
         else Inr (drop 1 (dropWhile (\<lambda>c. c \<noteq> CHR ''?'') (takeWhile (\<lambda>c. c \<noteq> CHR ''#'') rest))))"

text \<open>\<^verbatim>\<open>str.split(sep)\<close>: the empty string splits into one empty piece.\<close>

fun split_on :: "char \<Rightarrow> string \<Rightarrow> string list" where
  "split_on sep [] = [[]]"
| "split_on sep (c # cs) =
     (if c = sep then [] # split_on sep cs
      else (case split_on sep cs of [] \<Rightarrow> [[c]] | w # ws \<Rightarrow> (c # w) # ws))"

definition hex_value :: "char \<Rightarrow> nat option" where
  "hex_value c =
     (let n = (of_char c :: nat) in
      if 48 \<le> n \<and> n \<le> 57 then Some (n - 48)
      else if 65 \<le> n \<and> n \<le> 70 then Some (n - 55)
      else if 97 \<le> n \<and> n \<le> 102 then Some (n - 87)
      else None)"

text \<open>\<^verbatim>\<open>unquote_to_bytes\<close>: \<^verbatim>\<open>%XX\<close> with two hexadecimal digits becomes the byte
  \<^verbatim>\<open>XX\<close>, any other \<^verbatim>\<open>%\<close> stays.\<close>

fun unquote_to_bytes :: "string \<Rightarrow> string" where
  "unquote_to_bytes (c # h1 # h2 # rest) =
     (if c = CHR ''%'' then
        (case (hex_value h1, hex_value h2) of
           (Some a, Some b) \<Rightarrow> char_of (16 * a + b) # unquote_to_bytes rest
         | _ \<Rightarrow> c # unquote_to_bytes (h1 # h2 # rest))
      else c # unquote_to_bytes (h1 # h2 # rest))"
| "unquote_to_bytes cs = cs"

text \<open>\<^verbatim>\<open>unquote\<close>: a string without \<^verbatim>\<open>%\<close> is returned as it is. Otherwise every
  maximal run of ASCII characters is percent-decoded and then decoded as UTF-8 with
  replacement, and the characters between the runs are kept. \<open>run\<close> is the ASCII run
  read so far.\<close>

definition unquoted_run :: "pylib \<Rightarrow> string \<Rightarrow> string" where
  "unquoted_run lib run =
     (if run = [] then [] else py_decode_utf8_replace lib (unquote_to_bytes run))"

fun unquoted_parts :: "pylib \<Rightarrow> string \<Rightarrow> string \<Rightarrow> string" where
  "unquoted_parts lib run [] = unquoted_run lib run"
| "unquoted_parts lib run (c # cs) =
     (if is_ascii c then unquoted_parts lib (run @ [c]) cs
      else unquoted_run lib run @ c # unquoted_parts lib [] cs)"

definition unquote :: "pylib \<Rightarrow> string \<Rightarrow> string" where
  "unquote lib str = (if CHR ''%'' \<notin> set str then str else unquoted_parts lib [] str)"

definition plus_to_space :: "string \<Rightarrow> string" where
  "plus_to_space = map (\<lambda>c. if c = CHR ''+'' then CHR '' '' else c)"

text \<open>\<^verbatim>\<open>parse_qsl\<close> with its defaults: pieces that are empty, have no \<^verbatim>\<open>=\<close>, or have
  an empty value are dropped.\<close>

fun parse_qsl_pairs :: "pylib \<Rightarrow> string list \<Rightarrow> (string \<times> string) list" where
  "parse_qsl_pairs lib [] = []"
| "parse_qsl_pairs lib (name_value # others) =
     (if name_value = [] then parse_qsl_pairs lib others
      else if CHR ''='' \<notin> set name_value then parse_qsl_pairs lib others
      else
        (let nv0 = takeWhile (\<lambda>c. c \<noteq> CHR ''='') name_value;
             nv1 = drop 1 (dropWhile (\<lambda>c. c \<noteq> CHR ''='') name_value)
         in if nv1 \<noteq> []
            then (unquote lib (plus_to_space nv0), unquote lib (plus_to_space nv1)) #
                 parse_qsl_pairs lib others
            else parse_qsl_pairs lib others))"

definition parse_qsl :: "pylib \<Rightarrow> string \<Rightarrow> (string \<times> string) list" where
  "parse_qsl lib qs = parse_qsl_pairs lib (split_on CHR ''&'' qs)"

fun parse_qs_collect ::
  "(string \<times> string) list \<Rightarrow> (string \<rightharpoonup> string list) \<Rightarrow> (string \<rightharpoonup> string list)" where
  "parse_qs_collect [] parsed_result = parsed_result"
| "parse_qs_collect ((name, v) # pairs) parsed_result =
     parse_qs_collect pairs
       (case parsed_result name of
          Some vs \<Rightarrow> parsed_result(name \<mapsto> vs @ [v])
        | None \<Rightarrow> parsed_result(name \<mapsto> [v]))"

definition parse_qs :: "pylib \<Rightarrow> string \<Rightarrow> (string \<rightharpoonup> string list)" where
  "parse_qs lib qs = parse_qs_collect (parse_qsl lib qs) Map.empty"

text \<open>\<^verbatim>\<open>xs[0]\<close>.\<close>

fun first_item :: "'a list \<Rightarrow> exn + 'a" where
  "first_item [] = Inl IndexError"
| "first_item (x # xs) = Inr x"

text \<open>Lines 145 to 156: from the URL to the returned pair. The function returns either
  \<^verbatim>\<open>dest_id, dest_type\<close>, two strings (\<open>Some (dest_id, dest_type)\<close>), or
  \<^verbatim>\<open>None, None\<close> (\<open>None\<close>); \<^verbatim>\<open>if dest_id\<close> is false for \<^verbatim>\<open>None\<close> and for the empty
  string.\<close>

definition dest_from_url :: "pylib \<Rightarrow> string \<Rightarrow> exn + (string \<times> string) option" where
  "dest_from_url lib current =
     thenE (urlparse_query lib current) (\<lambda>query.
       (let params = parse_qs lib query in
        thenE (case params ''dest_id'' of
                 None \<Rightarrow> Inr None
               | Some vs \<Rightarrow> thenE (first_item vs) (\<lambda>v. Inr (Some v))) (\<lambda>dest_id.
        thenE (case params ''dest_type'' of
                 None \<Rightarrow> Inr ''city''
               | Some vs \<Rightarrow> first_item vs) (\<lambda>dest_type.
          (case dest_id of
             None \<Rightarrow> Inr None
           | Some i \<Rightarrow> if i \<noteq> [] then Inr (Some (i, dest_type)) else Inr None)))))"

subsection \<open>The interaction with the site\<close>

definition COOKIE_SELECTORS :: "string list" where
  \<open>COOKIE_SELECTORS =
     [''button[aria-label="Aceptar"]'',
      ''button[aria-label*="Aceptar"]'',
      ''button[data-testid="accept-button"]'',
      ''button[id*="onetrust-accept-btn"]'',
      ''button[aria-label*="Accept"]'']\<close>

definition SEL_SEARCH_BOX :: string where
  \<open>SEL_SEARCH_BOX = ''input[name="ss"]''\<close>

definition SEL_FIRST_SUGGESTION :: string where
  \<open>SEL_FIRST_SUGGESTION = ''li[data-i="0"]''\<close>

definition SEL_SUBMIT :: string where
  \<open>SEL_SUBMIT = ''button[type="submit"]''\<close>

text \<open>The loop over the cookie selectors: the first one that can be clicked ends it
  (\<^verbatim>\<open>break\<close>), an exception moves on to the next (\<^verbatim>\<open>pass\<close>).\<close>

fun accept_cookies :: "('d, 'w) driver \<Rightarrow> string list \<Rightarrow> ('d, 'w) session \<Rightarrow> ('d, 'w) session" where
  "accept_cookies drv [] s = s"
| "accept_cookies drv (sel # sels) s =
     (case bind (until_clickable drv 3 sel) (\<lambda>btn. execute_script drv JS_CLICK [btn]) s of
        (Inl e, s1) \<Rightarrow> accept_cookies drv sels s1
      | (Inr u, s1) \<Rightarrow> s1)"

text \<open>The suggestion list: click the first suggestion, or on any exception press
  Return in the search box (which may itself raise).\<close>

definition choose_suggestion ::
  "('d, 'w) driver \<Rightarrow> 'w \<Rightarrow> ('d, 'w) session \<Rightarrow> (exn + unit) \<times> ('d, 'w) session" where
  "choose_suggestion drv search_box s =
     (case bind (until_clickable drv 5 SEL_FIRST_SUGGESTION) (\<lambda>first_suggestion.
           bind (execute_script drv JS_CLICK [first_suggestion]) (\<lambda>u.
           pause drv 1000)) s of
        (Inl e, s1) \<Rightarrow>
          bind (send_keys drv search_box KeysReturn) (\<lambda>u. pause drv 2000) s1
      | (Inr u, s1) \<Rightarrow> (Inr (), s1))"

text \<open>The click on the search button; every exception is passed over.\<close>

definition click_search ::
  "('d, 'w) driver \<Rightarrow> ('d, 'w) session \<Rightarrow> (exn + unit) \<times> ('d, 'w) session" where
  "click_search drv s =
     (case bind (find_element drv SEL_SUBMIT) (\<lambda>search_btn.
           execute_script drv JS_CLICK [search_btn]) s of
        (r, s1) \<Rightarrow> (Inr (), s1))"

text \<open>Lines 89 to 141: everything up to the reading of the URL.\<close>

definition search_destination ::
  "('d, 'w) driver \<Rightarrow> string \<Rightarrow> string \<Rightarrow> ('d, 'w) session \<Rightarrow> (exn + unit) \<times> ('d, 'w) session" where
  "search_destination drv ciudad pais =
     bind (get drv ''https://www.booking.com'') (\<lambda>u0.
     bind (pause drv 3000) (\<lambda>u1.
     bind (\<lambda>s. (Inr (), accept_cookies drv COOKIE_SELECTORS s)) (\<lambda>u2.
     bind (until_present drv 10 SEL_SEARCH_BOX) (\<lambda>search_box.
     bind (click drv search_box) (\<lambda>u3.
     bind (clear drv search_box) (\<lambda>u4.
     bind (pause drv 300) (\<lambda>u5.
     bind (send_keys drv search_box KeysControlA) (\<lambda>u6.
     bind (send_keys drv search_box KeysDelete) (\<lambda>u7.
     bind (pause drv 300) (\<lambda>u8.
     bind (send_keys drv search_box (KeysText (ciudad @ '', '' @ pais))) (\<lambda>u9.
     bind (pause drv 2000) (\<lambda>u10.
     bind (choose_suggestion drv search_box) (\<lambda>u11.
     bind (click_search drv) (\<lambda>u12.
     pause drv 5000))))))))))))))"

text \<open>The body of the \<^verbatim>\<open>try\<close>.\<close>

definition buscar_dest_id_try ::
  "pylib \<Rightarrow> ('d, 'w) driver \<Rightarrow> string \<Rightarrow> string \<Rightarrow> ('d, 'w) session \<Rightarrow>
     (exn + (string \<times> string) option) \<times> ('d, 'w) session" where
  "buscar_dest_id_try lib drv ciudad pais =
     bind (search_destination drv ciudad pais) (\<lambda>u.
     bind (current_url drv) (\<lambda>current s.
       (dest_from_url lib current, s)))"

text \<open>\<^verbatim>\<open>except Exception: return None, None\<close>.\<close>

definition buscar_dest_id ::
  "pylib \<Rightarrow> ('d, 'w) driver \<Rightarrow> string \<Rightarrow> string \<Rightarrow> ('d, 'w) session \<Rightarrow>
     (exn + (string \<times> string) option) \<times> ('d, 'w) session" where
  "buscar_dest_id lib drv ciudad pais s =
     (case buscar_dest_id_try lib drv ciudad pais s of
        (Inl e, s1) \<Rightarrow> (Inr None, s1)
      | (Inr found, s1) \<Rightarrow> (Inr found, s1))"

definition generar_url_busqueda :: "string \<Rightarrow> string \<Rightarrow> string \<Rightarrow> string \<Rightarrow> string" where
  "generar_url_busqueda dest_id dest_type checkin checkout =
     ''https://www.booking.com/searchresults.es.html'' @
     (''?dest_id='' @ dest_id @ ''&dest_type='' @ dest_type @ ''&checkin='' @ checkin @
      ''&checkout='' @ checkout @ ''&group_adults=2&no_rooms=1&group_children=0'')"

section \<open>The search results harvester: \<^verbatim>\<open>scrape_listings_from_search_page\<close>\<close>

definition ESPERA_INICIAL_PAGINA :: nat where
  "ESPERA_INICIAL_PAGINA = 15"

definition ESPERA_SCROLL :: nat where
  "ESPERA_SCROLL = 2"

definition ESPERA_PAGINA_DETALLE :: nat where
  "ESPERA_PAGINA_DETALLE = 10"

text \<open>What the detail page adds to a listing (\<^verbatim>\<open>detail_data\<close>).\<close>

record detail_data =
  description :: string
  location :: string
  services :: "string list"

text \<open>
  A listing is the dictionary built for one result card. The keys \<^verbatim>\<open>description\<close>,
  \<^verbatim>\<open>location\<close> and \<^verbatim>\<open>services\<close> are absent until \<^verbatim>\<open>listing.update(detail_data)\<close> sets
  the three at once (\<open>detail\<close>), and \<^verbatim>\<open>reviews\<close> is absent until it is assigned.
  \<^verbatim>\<open>url\<close> is what \<^verbatim>\<open>link_elem.get('href')\<close> gave, which is \<^verbatim>\<open>None\<close> when the link has
  no such attribute.
\<close>

record listing =
  title :: string
  price :: string
  rating :: string
  distance :: string
  features :: string
  payment_policy :: string
  url :: "string option"
  beach_distance :: string
  detail :: "detail_data option"
  reviews :: "review list option"

definition SEL_PROPERTY_CARD :: string where
  \<open>SEL_PROPERTY_CARD = ''[data-testid="property-card"]''\<close>

definition SEL_PRICE_FOR_X_NIGHTS :: string where
  \<open>SEL_PRICE_FOR_X_NIGHTS = ''[data-testid="price-for-x-nights"]''\<close>

definition SEL_REVIEW_SCORE :: string where
  \<open>SEL_REVIEW_SCORE = ''div[data-testid="review-score"] > div[aria-hidden="true"]''\<close>

definition JS_BODY_HEIGHT :: string where
  "JS_BODY_HEIGHT = ''return document.body.scrollHeight''"

definition JS_SCROLL_WINDOW :: string where
  "JS_SCROLL_WINDOW = ''window.scrollTo(0, document.body.scrollHeight);''"

definition NOMBRE_NO_DISPONIBLE :: string where
  "NOMBRE_NO_DISPONIBLE = ''Nombre no disponible''"

definition PRECIO_NO_DISPONIBLE :: string where
  "PRECIO_NO_DISPONIBLE = ''Precio no disponible''"

definition SIN_PUNTUACION :: string where
  "SIN_PUNTUACION = ''Sin puntuaci'' @ [CHR 0xC3, CHR 0xB3] @ ''n''"

definition SIN_CALIFICACION :: string where
  "SIN_CALIFICACION = ''Sin calificaci'' @ [CHR 0xC3, CHR 0xB3] @ ''n''"

definition DISTANCIA_NO_DISPONIBLE :: string where
  "DISTANCIA_NO_DISPONIBLE = ''Distancia no disponible''"

text \<open>The bullet character U+2022, in UTF-8.\<close>

definition BULLET :: string where
  "BULLET = [CHR 0xE2, CHR 0x80, CHR 0xA2]"

text \<open>\<^verbatim>\<open>needle in haystack\<close> on strings.\<close>

fun contains :: "string \<Rightarrow> string \<Rightarrow> bool" where
  "contains needle [] = (needle = [])"
| "contains needle (c # cs) = (take (length needle) (c # cs) = needle \<or> contains needle cs)"

text \<open>\<^verbatim>\<open>str.lower\<close> on the ASCII letters; other bytes are kept.\<close>

definition lower :: "string \<Rightarrow> string" where
  "lower = map (\<lambda>c. let n = (of_char c :: nat) in if 65 \<le> n \<and> n \<le> 90 then char_of (n + 32) else c)"

text \<open>\<^verbatim>\<open>sep.join(xs)\<close>.\<close>

fun join :: "string \<Rightarrow> string list \<Rightarrow> string" where
  "join sep [] = []"
| "join sep [x] = x"
| "join sep (x # y # ys) = x @ sep @ join sep (y # ys)"

text \<open>\<^verbatim>\<open>a or b\<close> on two finds: the second is looked at only when the first found
  nothing.\<close>

definition find_or :: "exn + 't option \<Rightarrow> exn + 't option \<Rightarrow> exn + 't option" where
  "find_or a b = thenE a (\<lambda>x. case x of Some e \<Rightarrow> Inr (Some e) | None \<Rightarrow> b)"

text \<open>The function given to \<^verbatim>\<open>listing.find\<close> for the beach badge.\<close>

definition is_beach_badge :: "'t soup \<Rightarrow> 't \<Rightarrow> exn + bool" where
  "is_beach_badge bs tag =
     (if bs_name bs tag = ''span''
      then thenE (bs_get_text bs tag '''' True) (\<lambda>txt. Inr (contains ''playa'' (lower txt)))
      else Inr False)"

text \<open>The list comprehension of the features: the condition reads the stripped and the
  raw text, the element is the stripped text.\<close>

fun feature_texts :: "'t soup \<Rightarrow> 't list \<Rightarrow> exn + string list" where
  "feature_texts bs [] = Inr []"
| "feature_texts bs (sp # rest) =
     thenE (bs_get_text bs sp '''' True) (\<lambda>stripped.
       if stripped \<noteq> [] then
         thenE (bs_get_text bs sp '''' False) (\<lambda>raw.
           if \<not> contains BULLET raw then
             thenE (bs_get_text bs sp '''' True) (\<lambda>item.
             thenE (feature_texts bs rest) (\<lambda>items. Inr (item # items)))
           else feature_texts bs rest)
       else feature_texts bs rest)"

text \<open>The body of the \<^verbatim>\<open>try\<close> for one card, up to the dictionary that is appended.\<close>

definition extract_listing :: "'t soup \<Rightarrow> 't \<Rightarrow> exn + listing" where
  "extract_listing bs pcard =
     thenE (bs_find bs pcard ''div'' ''data-testid'' ''title'') (\<lambda>name_elem.
     thenE (text_or bs name_elem NOMBRE_NO_DISPONIBLE) (\<lambda>title_text.
     thenE (find_or (bs_find bs pcard ''span'' ''data-testid'' ''price-and-discounted-price'')
                    (bs_select_one bs pcard SEL_PRICE_FOR_X_NIGHTS)) (\<lambda>price_elem.
     thenE (text_or bs price_elem PRECIO_NO_DISPONIBLE) (\<lambda>price_text.
     thenE (find_or (bs_find bs pcard ''a'' ''data-testid'' ''title-link'')
                    (bs_find bs pcard ''a'' ''data-testid'' ''availability-cta-btn'')) (\<lambda>link_elem.
     thenE (case link_elem of Some e \<Rightarrow> bs_get bs e ''href'' | None \<Rightarrow> Inr (Some [])) (\<lambda>detail_url.
     thenE (bs_select_one bs pcard SEL_REVIEW_SCORE) (\<lambda>score_div.
     thenE (text_or bs score_div SIN_PUNTUACION) (\<lambda>rating_value.
     thenE (bs_find_by bs pcard (is_beach_badge bs)) (\<lambda>beach_badge.
     thenE (text_or bs beach_badge SIN_CALIFICACION) (\<lambda>beach_text.
     thenE (bs_find bs pcard ''span'' ''data-testid'' ''distance'') (\<lambda>span_element.
     thenE (text_or bs span_element DISTANCIA_NO_DISPONIBLE) (\<lambda>distance_text.
     thenE (bs_select bs pcard ''ul > li > span'') (\<lambda>features_list.
     thenE (if features_list \<noteq> []
            then thenE (feature_texts bs features_list) (\<lambda>items. Inr (join '' '' items))
            else Inr []) (\<lambda>features_text.
     thenE (bs_find bs pcard ''div'' ''data-testid'' ''payment-policy-tags'') (\<lambda>policy_div.
     thenE (case policy_div of Some e \<Rightarrow> bs_get_text bs e '' '' True | None \<Rightarrow> Inr []) (\<lambda>policy_text.
       Inr \<lparr>title = title_text, price = price_text, rating = rating_value,
            distance = distance_text, features = features_text,
            payment_policy = policy_text, url = detail_url,
            beach_distance = beach_text, detail = None, reviews = None\<rparr>))))))))))))))))"

text \<open>\<^verbatim>\<open>for listing in listings\<close>: an exception in the body skips the card
  (\<^verbatim>\<open>continue\<close>).\<close>

fun extract_listings :: "'t soup \<Rightarrow> 't list \<Rightarrow> listing list \<Rightarrow> listing list" where
  "extract_listings bs [] properties_data = properties_data"
| "extract_listings bs (pcard # listings) properties_data =
     (case extract_listing bs pcard of
        Inl e \<Rightarrow> extract_listings bs listings properties_data
      | Inr p \<Rightarrow> extract_listings bs listings (properties_data @ [p]))"

text \<open>
  The \<^verbatim>\<open>while True\<close> of the lazy-load scroll. Nothing bounds it, so the model is a
  partial function: \<open>None\<close> is a loop that never ends, \<open>Some\<close> a loop that ended, by
  \<^verbatim>\<open>break\<close> or by an exception of the driver.
\<close>

partial_function (option) scroll_to_bottom ::
  "('d, 'w) driver \<Rightarrow> jsval \<Rightarrow> ('d, 'w) session \<Rightarrow> ((exn + unit) \<times> ('d, 'w) session) option" where
  "scroll_to_bottom drv last_height s =
     (case execute_script drv JS_SCROLL_WINDOW [] s of
        (Inl e, s1) \<Rightarrow> Some (Inl e, s1)
      | (Inr u, s1) \<Rightarrow>
          (case execute_script drv JS_BODY_HEIGHT [] (sleep drv (ESPERA_SCROLL * 1000) s1) of
             (Inl e, s2) \<Rightarrow> Some (Inl e, s2)
           | (Inr new_height, s2) \<Rightarrow>
               if new_height = last_height then Some (Inr (), s2)
               else scroll_to_bottom drv new_height s2))"

declare scroll_to_bottom.simps [code]

text \<open>Lines 196 to 258: the page is read once and every card extracted.\<close>

definition read_listings ::
  "('d, 'w) driver \<Rightarrow> 't soup \<Rightarrow> ('d, 'w) session \<Rightarrow> (exn + listing list) \<times> ('d, 'w) session" where
  "read_listings drv bs =
     bind (page_source drv) (\<lambda>html s.
       (thenE (bs_parse bs html) (\<lambda>soup.
        thenE (bs_find_all bs soup ''div'' ''data-testid'' ''property-card'') (\<lambda>listings.
        Inr (extract_listings bs listings []))), s))"

definition scrape_listings_from_search_page ::
  "('d, 'w) driver \<Rightarrow> 't soup \<Rightarrow> string \<Rightarrow> ('d, 'w) session \<Rightarrow>
     ((exn + listing list) \<times> ('d, 'w) session) option" where
  "scrape_listings_from_search_page drv bs search_url s =
     (case get drv search_url s of
        (Inl e, s1) \<Rightarrow> Some (Inl e, s1)
      | (Inr u, s1) \<Rightarrow>
          (case until_present drv ESPERA_INICIAL_PAGINA SEL_PROPERTY_CARD s1 of
             (Inl e, s2) \<Rightarrow>
               if e = TimeoutException then Some (Inr [], s2) else Some (Inl e, s2)
           | (Inr w, s2) \<Rightarrow>
               (case execute_script drv JS_BODY_HEIGHT [] s2 of
                  (Inl e, s3) \<Rightarrow> Some (Inl e, s3)
                | (Inr last_height, s3) \<Rightarrow>
                    (case scroll_to_bottom drv last_height s3 of
                       None \<Rightarrow> None
                     | Some (Inl e, s4) \<Rightarrow> Some (Inl e, s4)
                     | Some (Inr u, s4) \<Rightarrow> Some (read_listings drv bs s4)))))"

section \<open>The detail enricher: \<^verbatim>\<open>scrape_detail_page_data\<close>\<close>

definition DESCRIPCION_NO_DISPONIBLE :: string where
  "DESCRIPCION_NO_DISPONIBLE = ''Descripci'' @ [CHR 0xC3, CHR 0xB3] @ ''n no disponible''"

definition UBICACION_NO_DISPONIBLE :: string where
  "UBICACION_NO_DISPONIBLE = ''Ubicaci'' @ [CHR 0xC3, CHR 0xB3] @ ''n (lat,lng) no disponible''"

definition SEL_PROPERTY_DESCRIPTION :: string where
  \<open>SEL_PROPERTY_DESCRIPTION = ''p[data-testid="property-description"]''\<close>

definition detail_defaults :: detail_data where
  "detail_defaults =
     \<lparr>description = DESCRIPCION_NO_DISPONIBLE, location = UBICACION_NO_DISPONIBLE, services = []\<rparr>"

definition read_description :: "'t soup \<Rightarrow> 't \<Rightarrow> detail_data \<Rightarrow> exn + detail_data" where
  "read_description bs detail_soup dd =
     thenE (bs_find bs detail_soup ''p'' ''data-testid'' ''property-description'') (\<lambda>desc_elem_soup.
       case desc_elem_soup of
         None \<Rightarrow> Inr dd
       | Some e \<Rightarrow> thenE (bs_get_text bs e '' '' True) (\<lambda>txt. Inr (dd\<lparr>description := txt\<rparr>)))"

text \<open>\<^verbatim>\<open>if map_link and map_link.get('data-atlas-latlng')\<close>: the attribute must be there
  and not empty. The assignment reads it a second time; the document does not change
  in between, so it is the same value.\<close>

definition read_location :: "'t soup \<Rightarrow> 't \<Rightarrow> detail_data \<Rightarrow> exn + detail_data" where
  "read_location bs detail_soup dd =
     thenE (bs_select_one bs detail_soup ''a#map_trigger_header_pin'') (\<lambda>map_link.
       case map_link of
         None \<Rightarrow> Inr dd
       | Some e \<Rightarrow>
           thenE (bs_get bs e ''data-atlas-latlng'') (\<lambda>latlng.
             case latlng of
               None \<Rightarrow> Inr dd
             | Some v \<Rightarrow>
                 if v \<noteq> [] then Inr (dd\<lparr>location := v\<rparr>) else Inr dd))"

fun service_texts :: "'t soup \<Rightarrow> 't list \<Rightarrow> exn + string list" where
  "service_texts bs [] = Inr []"
| "service_texts bs (sp # rest) =
     thenE (bs_get_text bs sp '''' True) (\<lambda>stripped.
       if stripped \<noteq> [] then
         thenE (bs_get_text bs sp '''' True) (\<lambda>item.
         thenE (service_texts bs rest) (\<lambda>items. Inr (item # items)))
       else service_texts bs rest)"

definition read_services :: "'t soup \<Rightarrow> 't \<Rightarrow> detail_data \<Rightarrow> exn + detail_data" where
  "read_services bs detail_soup dd =
     thenE (bs_find bs detail_soup ''div'' ''data-testid'' ''property-most-popular-facilities-wrapper'')
       (\<lambda>services_wrapper.
         case services_wrapper of
           None \<Rightarrow> Inr dd
         | Some wr \<Rightarrow>
             thenE (bs_find_all_named bs wr ''span'') (\<lambda>service_items.
             thenE (service_texts bs service_items) (\<lambda>items. Inr (dd\<lparr>services := items\<rparr>))))"

text \<open>The rest of the \<^verbatim>\<open>try\<close> once the page source is there. \<^verbatim>\<open>detail_data\<close> is
  updated field by field, so an exception leaves the fields already written.\<close>

definition read_detail :: "'t soup \<Rightarrow> string \<Rightarrow> detail_data \<Rightarrow> detail_data" where
  "read_detail bs html dd =
     (case bs_parse bs html of
        Inl e \<Rightarrow> dd
      | Inr detail_soup \<Rightarrow>
          (case read_description bs detail_soup dd of
             Inl e \<Rightarrow> dd
           | Inr dd1 \<Rightarrow>
               (case read_location bs detail_soup dd1 of
                  Inl e \<Rightarrow> dd1
                | Inr dd2 \<Rightarrow>
                    (case read_services bs detail_soup dd2 of
                       Inl e \<Rightarrow> dd2
                     | Inr dd3 \<Rightarrow> dd3))))"

text \<open>Both handlers (\<^verbatim>\<open>TimeoutException\<close>, \<^verbatim>\<open>Exception\<close>) only print, and the function
  returns \<^verbatim>\<open>detail_data\<close> after them.\<close>

definition scrape_detail_page_data ::
  "('d, 'w) driver \<Rightarrow> 't soup \<Rightarrow> ('d, 'w) session \<Rightarrow> (exn + detail_data) \<times> ('d, 'w) session" where
  "scrape_detail_page_data drv bs s =
     (case until_present drv ESPERA_PAGINA_DETALLE SEL_PROPERTY_DESCRIPTION s of
        (Inl e, s1) \<Rightarrow> (Inr detail_defaults, s1)
      | (Inr w, s1) \<Rightarrow>
          (case page_source drv s1 of
             (Inl e, s2) \<Rightarrow> (Inr detail_defaults, s2)
           | (Inr html, s2) \<Rightarrow> (Inr (read_detail bs html detail_defaults), s2)))"

section \<open>The orchestrator: \<^verbatim>\<open>main\<close>\<close>

definition DESTINOS_NOMBRES :: "string list" where
  "DESTINOS_NOMBRES =
     [''General Villamil'',
      ''Salinas'',
      ''Monta'' @ [CHR 0xC3, CHR 0xB1] @ ''ita'',
      ''Puerto L'' @ [CHR 0xC3, CHR 0xB3] @ ''pez'',
      ''Ayampe'',
      ''Manta'',
      ''Atacames'']"

definition FECHA_CHECKIN :: string where
  "FECHA_CHECKIN = ''2025-11-11''"

definition FECHA_CHECKOUT :: string where
  "FECHA_CHECKOUT = ''2025-12-31''"

definition CARPETA_SALIDA :: string where
  "CARPETA_SALIDA = ''datos_booking''"

text \<open>The dictionary written for one destination.\<close>

record resultado =
  destino :: string
  dest_id :: string
  dest_type :: string
  fecha_checkin :: string
  fecha_checkout :: string
  fecha_scraping :: string
  total_alojamientos :: nat
  alojamientos :: "listing list"

text \<open>What is handed to \<^verbatim>\<open>save_to_json\<close>: the map of the resolved destinations, or the
  record of one destination. A Python dictionary keeps its keys in insertion order, so
  \<^verbatim>\<open>destinos_config\<close> is an association list.\<close>

type_synonym destinos = "(string \<times> string \<times> string) list"

datatype document = DestinosIds destinos | Resultado resultado

text \<open>The files written so far, with their content.\<close>

type_synonym saved = "(string \<times> document) list"

text \<open>\<^verbatim>\<open>d[k] = v\<close>.\<close>

fun dict_set :: "'k \<Rightarrow> 'v \<Rightarrow> ('k \<times> 'v) list \<Rightarrow> ('k \<times> 'v) list" where
  "dict_set k v [] = [(k, v)]"
| "dict_set k v ((k', v') # kvs) =
     (if k = k' then (k, v) # kvs else (k', v') # dict_set k v kvs)"

text \<open>\<^verbatim>\<open>save_to_json\<close>: an \<^verbatim>\<open>IOError\<close> is printed and nothing is written; any other
  exception goes to the caller.\<close>

definition save_to_json ::
  "('d, 'w) driver \<Rightarrow> document \<Rightarrow> string \<Rightarrow> ('d, 'w) session \<times> saved \<Rightarrow>
     (exn + unit) \<times> ('d, 'w) session \<times> saved" where
  "save_to_json drv data filename run =
     (case write_file drv filename (fst run) of
        (Inl e, s1) \<Rightarrow> if e = OSError then (Inr (), (s1, snd run)) else (Inl e, (s1, snd run))
      | (Inr u, s1) \<Rightarrow> (Inr (), (s1, snd run @ [(filename, data)])))"

text \<open>\<^verbatim>\<open>str.startswith(pre)\<close>.\<close>

definition startswith :: "string \<Rightarrow> string \<Rightarrow> bool" where
  "startswith str pre = (take (length pre) str = pre)"

text \<open>The body of the loop over the listings (lines 477 to 495). The first test is
  \<^verbatim>\<open>not listing['url'] or not listing['url'].startswith("http")\<close>, which skips the listing
  (\<^verbatim>\<open>continue\<close>). The listing is a dictionary changed in place: what was written before
  an exception stays.\<close>

definition procesar_listing ::
  "('d, 'w) driver \<Rightarrow> 't soup \<Rightarrow> listing \<Rightarrow> ('d, 'w) session \<Rightarrow> listing \<times> ('d, 'w) session" where
  "procesar_listing drv bs l s =
     (case url l of
        None \<Rightarrow> (l, s)
      | Some address \<Rightarrow>
          if address = [] \<or> \<not> startswith address ''http'' then (l, s)
          else
            (case get drv address s of
               (Inl e, s1) \<Rightarrow> (l, s1)
             | (Inr u, s1) \<Rightarrow>
                 (case scrape_detail_page_data drv bs (sleep_uniform drv 2000 4000 s1) of
                    (Inl e, s2) \<Rightarrow> (l, s2)
                  | (Inr dd, s2) \<Rightarrow>
                      (case scrape_reviews_from_modal drv bs MAX_PAGINAS_RESENAS s2 of
                         (Inl e, s3) \<Rightarrow> (l\<lparr>detail := Some dd\<rparr>, s3)
                       | (Inr rs, s3) \<Rightarrow> (l\<lparr>detail := Some dd, reviews := Some rs\<rparr>, s3)))))"

fun procesar_listings ::
  "('d, 'w) driver \<Rightarrow> 't soup \<Rightarrow> listing list \<Rightarrow> ('d, 'w) session \<Rightarrow>
     listing list \<times> ('d, 'w) session" where
  "procesar_listings drv bs [] s = ([], s)"
| "procesar_listings drv bs (l # ls) s =
     (case procesar_listing drv bs l s of
        (l', s1) \<Rightarrow>
          (case procesar_listings drv bs ls s1 of
             (ls', s2) \<Rightarrow> (l' # ls', s2)))"

text \<open>\<^verbatim>\<open>f"{ciudad.lower().replace(' ', '_')}_data.json"\<close> under the output folder.\<close>

definition nombre_archivo :: "string \<Rightarrow> string" where
  "nombre_archivo ciudad =
     CARPETA_SALIDA @ ''/'' @
     map (\<lambda>c. if c = CHR '' '' then CHR ''_'' else c) (lower ciudad) @ ''_data.json''"

text \<open>The body of the loop over the destinations (lines 457 to 513). \<open>Inr True\<close> is an
  iteration that wrote its record, \<open>Inr False\<close> one that ended with \<^verbatim>\<open>continue\<close>.\<close>

definition procesar_destino ::
  "('d, 'w) driver \<Rightarrow> 't soup \<Rightarrow> string \<Rightarrow> string \<times> string \<Rightarrow> ('d, 'w) session \<times> saved \<Rightarrow>
     ((exn + bool) \<times> ('d, 'w) session \<times> saved) option" where
  "procesar_destino drv bs ciudad config run =
     (case scrape_listings_from_search_page drv bs
             (generar_url_busqueda (fst config) (snd config) FECHA_CHECKIN FECHA_CHECKOUT) (fst run) of
        None \<Rightarrow> None
      | Some (Inl e, s1) \<Rightarrow> Some (Inl e, (s1, snd run))
      | Some (Inr found, s1) \<Rightarrow>
          if found = [] then Some (Inr False, (s1, snd run))
          else
            (case procesar_listings drv bs found s1 of
               (all_properties_data, s2) \<Rightarrow>
                 (case save_to_json drv
                         (Resultado
                            \<lparr>destino = ciudad,
                             dest_id = fst config,
                             dest_type = snd config,
                             fecha_checkin = FECHA_CHECKIN,
                             fecha_checkout = FECHA_CHECKOUT,
                             fecha_scraping = wd_now_isoformat drv (fst s2),
                             total_alojamientos = length all_properties_data,
                             alojamientos = all_properties_data\<rparr>)
                         (nombre_archivo ciudad) (s2, snd run) of
                    (Inl e, run3) \<Rightarrow> Some (Inl e, run3)
                  | (Inr u, run3) \<Rightarrow>
                      Some (Inr True, (sleep_uniform drv 3000 6000 (fst run3), snd run3)))))"

fun procesar_destinos ::
  "('d, 'w) driver \<Rightarrow> 't soup \<Rightarrow> destinos \<Rightarrow> ('d, 'w) session \<times> saved \<Rightarrow>
     ((exn + unit) \<times> ('d, 'w) session \<times> saved) option" where
  "procesar_destinos drv bs [] run = Some (Inr (), run)"
| "procesar_destinos drv bs ((ciudad, config) # rest) run =
     (case procesar_destino drv bs ciudad config run of
        None \<Rightarrow> None
      | Some (Inl e, run1) \<Rightarrow> Some (Inl e, run1)
      | Some (Inr written, run1) \<Rightarrow> procesar_destinos drv bs rest run1)"

text \<open>Step 1: the identifier of every destination; the ones not found are left out.\<close>

fun buscar_destinos ::
  "pylib \<Rightarrow> ('d, 'w) driver \<Rightarrow> string list \<Rightarrow> destinos \<Rightarrow> ('d, 'w) session \<Rightarrow>
     (exn + destinos) \<times> ('d, 'w) session" where
  "buscar_destinos lib drv [] destinos_config s = (Inr destinos_config, s)"
| "buscar_destinos lib drv (ciudad # ciudades) destinos_config s =
     (case buscar_dest_id lib drv ciudad ''Ecuador'' s of
        (Inl e, s1) \<Rightarrow> (Inl e, s1)
      | (Inr None, s1) \<Rightarrow> buscar_destinos lib drv ciudades destinos_config s1
      | (Inr (Some (i, t)), s1) \<Rightarrow>
          if i \<noteq> []
          then buscar_destinos lib drv ciudades (dict_set ciudad (i, t) destinos_config) s1
          else buscar_destinos lib drv ciudades destinos_config s1)"

text \<open>The body of the outer \<^verbatim>\<open>try\<close> of \<^verbatim>\<open>main\<close>, from a started driver.\<close>

definition main_try ::
  "pylib \<Rightarrow> ('d, 'w) driver \<Rightarrow> 't soup \<Rightarrow> ('d, 'w) session \<times> saved \<Rightarrow>
     ((exn + unit) \<times> ('d, 'w) session \<times> saved) option" where
  "main_try lib drv bs run =
     (case buscar_destinos lib drv DESTINOS_NOMBRES [] (fst run) of
        (Inl e, s1) \<Rightarrow> Some (Inl e, (s1, snd run))
      | (Inr destinos_config, s1) \<Rightarrow>
          (case save_to_json drv (DestinosIds destinos_config)
                  (CARPETA_SALIDA @ ''/destinos_ids.json'') (s1, snd run) of
             (Inl e, run2) \<Rightarrow> Some (Inl e, run2)
           | (Inr u, run2) \<Rightarrow> procesar_destinos drv bs destinos_config run2))"

text \<open>\<^verbatim>\<open>except Exception\<close> prints the error; \<^verbatim>\<open>finally\<close> quits the driver.\<close>

definition main ::
  "pylib \<Rightarrow> ('d, 'w) driver \<Rightarrow> 't soup \<Rightarrow> ('d, 'w) session \<times> saved \<Rightarrow>
     ((exn + unit) \<times> ('d, 'w) session \<times> saved) option" where
  "main lib drv bs run =
     (case main_try lib drv bs run of
        None \<Rightarrow> None
      | Some (r, run1) \<Rightarrow>
          (case quit drv (fst run1) of
             (Inl e, s2) \<Rightarrow> Some (Inl e, (s2, snd run1))
           | (Inr u, s2) \<Rightarrow> Some (Inr (), (s2, snd run1))))"

section \<open>A scripted site\<close>

text \<open>
  The scenarios of the specification run against a small scripted site: a home page
  with a search box, a results page whose body grows by 1000 pixels with every scroll
  up to a ceiling, and a property page with a review dialog of several pages. The
  script fixes what the site holds; the browser state is the address shown, the number
  of scrolls on the current page, the page of the dialog that is displayed (0 when the
  dialog is closed), the pages of the dialog displayed so far and the page sources
  handed out so far.
\<close>

datatype elem =
    CookieButton | SearchBox | Suggestion | SubmitButton | ResultCard
  | DescriptionElem | ReadAllButton | ReviewsModal | NextButton | CloseButton

text \<open>Parsed documents of the scripted site: an element with a name and a text (which
  is also the value of any attribute asked of it), a block with named parts and a list
  of repeated children, and a node on which every query raises.\<close>

datatype tag =
    Elem string string
  | Block "(string \<times> tag) list" "tag list"
  | Broken

record site =
  after_search :: string
  result_cards :: "tag list"
  ceiling :: int
  property_page :: "(string \<times> tag) list option"
  review_pages :: "tag list list"

record browser =
  address :: string
  scrolls :: nat
  shown :: nat
  displayed :: "nat list"
  sources_read :: "string list"

definition browser0 :: browser where
  "browser0 = \<lparr>address = [], scrolls = 0, shown = 0, displayed = [], sources_read = []\<rparr>"

definition site_click :: "site \<Rightarrow> elem \<Rightarrow> browser \<Rightarrow> browser" where
  "site_click st w d =
     (case w of
        ReadAllButton \<Rightarrow> d\<lparr>shown := 1, displayed := displayed d @ [1]\<rparr>
      | NextButton \<Rightarrow> d\<lparr>shown := Suc (shown d), displayed := displayed d @ [Suc (shown d)]\<rparr>
      | CloseButton \<Rightarrow> d\<lparr>shown := 0\<rparr>
      | Suggestion \<Rightarrow> d\<lparr>address := after_search st\<rparr>
      | SubmitButton \<Rightarrow> d\<lparr>address := after_search st\<rparr>
      | _ \<Rightarrow> d)"

definition site_script :: "site \<Rightarrow> string \<Rightarrow> elem list \<Rightarrow> browser \<Rightarrow> (exn + jsval) \<times> browser" where
  "site_script st js args d =
     (if js = JS_CLICK then
        (case args of [w] \<Rightarrow> (Inr JNull, site_click st w d) | _ \<Rightarrow> (Inl OtherException, d))
      else if js = JS_BODY_HEIGHT then
        (Inr (JNum (min (1000 * (int (scrolls d) + 1)) (ceiling st))), d)
      else if js = JS_SCROLL_WINDOW then (Inr JNull, d\<lparr>scrolls := Suc (scrolls d)\<rparr>)
      else if js = JS_SCROLL_HEIGHT then (Inr (JNum 600), d)
      else (Inr JNull, d))"

definition site_source :: "browser \<Rightarrow> string" where
  "site_source d =
     (if startswith (address d) ''https://www.booking.com/searchresults'' then ''results''
      else ''property'' @ replicate (shown d) CHR ''+'')"

definition site_driver :: "site \<Rightarrow> (browser, elem) driver" where
  "site_driver st =
     \<lparr>wd_get = (\<lambda>target d. (Inr (), d\<lparr>address := target, scrolls := 0, shown := 0\<rparr>)),
      wd_until_clickable = (\<lambda>timeout css d.
         if css = SEL_READ_ALL_REVIEWS then
           (if review_pages st \<noteq> [] then (Inr ReadAllButton, d) else (Inl TimeoutException, d))
         else if css = SEL_FIRST_SUGGESTION then (Inr Suggestion, d)
         else (Inl TimeoutException, d)),
      wd_until_present = (\<lambda>timeout css d.
         if css = SEL_SEARCH_BOX then (Inr SearchBox, d)
         else if css = SEL_PROPERTY_CARD then
           (if result_cards st \<noteq> [] then (Inr ResultCard, d) else (Inl TimeoutException, d))
         else if css = SEL_PROPERTY_DESCRIPTION then
           (if property_page st \<noteq> None then (Inr DescriptionElem, d) else (Inl TimeoutException, d))
         else if css = SEL_REVIEWS_MODAL then
           (if 0 < shown d then (Inr ReviewsModal, d) else (Inl TimeoutException, d))
         else (Inl TimeoutException, d)),
      wd_find_element = (\<lambda>css d.
         if css = SEL_NEXT_PAGE then (Inr NextButton, d)
         else if css = SEL_SUBMIT then (Inr SubmitButton, d)
         else (Inl NoSuchElementException, d)),
      wd_elem_find_element = (\<lambda>w css d.
         if css = SEL_CLOSE then (Inr CloseButton, d) else (Inl NoSuchElementException, d)),
      wd_execute_script = site_script st,
      wd_click = (\<lambda>w d. (Inr (), d)),
      wd_clear = (\<lambda>w d. (Inr (), d)),
      wd_send_keys = (\<lambda>w k d. (Inr (), d)),
      wd_is_enabled = (\<lambda>w d. (Inr (shown d < length (review_pages st)), d)),
      wd_current_url = (\<lambda>d. (Inr (address d), d)),
      wd_page_source = (\<lambda>d. (Inr (site_source d), d\<lparr>sources_read := sources_read d @ [site_source d]\<rparr>)),
      wd_quit = (\<lambda>d. (Inr (), d)),
      wd_write_file = (\<lambda>filename d. (Inr (), d)),
      wd_sleep = (\<lambda>ms d. d),
      wd_sleep_uniform = (\<lambda>lo hi d. d),
      wd_now_isoformat = (\<lambda>d. ''2025-11-03T12:00:00'')\<rparr>"

text \<open>The page of the dialog that a source shows: the number of \<^verbatim>\<open>+\<close> after the
  word \<^verbatim>\<open>property\<close>.\<close>

definition site_parse :: "site \<Rightarrow> string \<Rightarrow> exn + tag" where
  "site_parse st html =
     (if html = ''results'' then Inr (Block [] (result_cards st))
      else
        (let k = length html - 8 in
         Inr (Block (case property_page st of None \<Rightarrow> [] | Some parts \<Rightarrow> parts)
                    (if 1 \<le> k \<and> k \<le> length (review_pages st) then review_pages st ! (k - 1) else []))))"

fun first_where :: "('a \<Rightarrow> exn + bool) \<Rightarrow> 'a list \<Rightarrow> exn + 'a option" where
  "first_where f [] = Inr None"
| "first_where f (x # xs) =
     (case f x of Inl e \<Rightarrow> Inl e | Inr b \<Rightarrow> if b then Inr (Some x) else first_where f xs)"

definition site_soup :: "site \<Rightarrow> tag soup" where
  "site_soup st =
     \<lparr>bs_parse = site_parse st,
      bs_find = (\<lambda>t name attr v.
         case t of Block parts kids \<Rightarrow> Inr (map_of parts v) | Elem n txt \<Rightarrow> Inr None
                 | Broken \<Rightarrow> Inl OtherException),
      bs_find_all = (\<lambda>t name attr v.
         case t of Block parts kids \<Rightarrow> Inr kids | Elem n txt \<Rightarrow> Inr []
                 | Broken \<Rightarrow> Inl OtherException),
      bs_find_all_named = (\<lambda>t name.
         case t of Block parts kids \<Rightarrow> Inr kids | Elem n txt \<Rightarrow> Inr []
                 | Broken \<Rightarrow> Inl OtherException),
      bs_find_by = (\<lambda>t f.
         case t of Block parts kids \<Rightarrow> first_where f (map snd parts) | Elem n txt \<Rightarrow> Inr None
                 | Broken \<Rightarrow> Inl OtherException),
      bs_select = (\<lambda>t css.
         case t of Block parts kids \<Rightarrow> Inr kids | Elem n txt \<Rightarrow> Inr []
                 | Broken \<Rightarrow> Inl OtherException),
      bs_select_one = (\<lambda>t css.
         case t of Block parts kids \<Rightarrow> Inr (map_of parts css) | Elem n txt \<Rightarrow> Inr None
                 | Broken \<Rightarrow> Inl OtherException),
      bs_get_text = (\<lambda>t sep strip.
         case t of Elem n txt \<Rightarrow> Inr txt | Block parts kids \<Rightarrow> Inr []
                 | Broken \<Rightarrow> Inl OtherException),
      bs_get = (\<lambda>t a.
         case t of Elem n txt \<Rightarrow> Inr (Some txt) | Block parts kids \<Rightarrow> Inr None
                 | Broken \<Rightarrow> Inl OtherException),
      bs_name = (\<lambda>t. case t of Elem n txt \<Rightarrow> n | _ \<Rightarrow> ''div'')\<rparr>"

text \<open>A review card with its four parts.\<close>

definition review_card :: "string \<Rightarrow> string \<Rightarrow> string \<Rightarrow> string \<Rightarrow> tag" where
  "review_card t d p n =
     Block [(''review-title'', Elem ''h4'' t), (''review-date'', Elem ''span'' d),
            (''review-positive-text'', Elem ''div'' p), (''review-negative-text'', Elem ''div'' n)] []"

text \<open>The dialog of the pagination scenario: three pages of two reviews, the second page
  repeating one title of the first.\<close>

definition three_pages :: "tag list list" where
  "three_pages =
     [[review_card ''Excelente'' ''1 nov'' ''Todo'' ''Nada'',
       review_card ''Muy bien'' ''2 nov'' ''La playa'' ''El ruido''],
      [review_card ''Muy bien'' ''3 nov'' ''El desayuno'' ''La cama'',
       review_card ''Regular'' ''4 nov'' ''El precio'' ''El wifi''],
      [review_card ''Fatal'' ''5 nov'' ''Nada'' ''Todo'',
       review_card ''Normal'' ''6 nov'' ''La vista'' ''El parking'']]"

definition modal_site :: site where
  "modal_site =
     \<lparr>after_search = [], result_cards = [], ceiling = 1000,
      property_page = None, review_pages = three_pages\<rparr>"

section \<open>Reading the log of a session\<close>

text \<open>The number of times the page source was asked for (once per page iteration of
  the paginator), the number of scrolls of the dialog to its end, and the number of
  clicks that went through.\<close>

fun is_page_read :: "'w call \<times> bool \<Rightarrow> bool" where
  "is_page_read (CPageSource, ok) = True"
| "is_page_read other = False"

fun is_modal_scroll :: "'w call \<times> bool \<Rightarrow> bool" where
  "is_modal_scroll (CExecuteScript js args, ok) = (js = JS_SCROLL_TO_END)"
| "is_modal_scroll other = False"

fun is_click_done :: "'w call \<times> bool \<Rightarrow> bool" where
  "is_click_done (CExecuteScript js args, ok) = (js = JS_CLICK \<and> ok)"
| "is_click_done other = False"

definition pages_read :: "'w log \<Rightarrow> nat" where
  "pages_read lg = length (filter is_page_read lg)"

definition modal_scrolls :: "'w log \<Rightarrow> nat" where
  "modal_scrolls lg = length (filter is_modal_scroll lg)"

definition clicks_done :: "'w log \<Rightarrow> nat" where
  "clicks_done lg = length (filter is_click_done lg)"

section \<open>Predicates and scenarios of the statements\<close>

text \<open>What the accumulator of the paginator keeps true: the titles of the reviews kept so
  far are pairwise different, and \<^verbatim>\<open>collected_titles\<close> is exactly their set.\<close>

definition dedup_inv :: "review list \<times> string set \<Rightarrow> bool" where
  "dedup_inv acc = (distinct (map review.title (fst acc)) \<and> snd acc = set (map review.title (fst acc)))"

text \<open>The values a query gives to one name, in the order of the query.\<close>

definition values_of :: "string \<Rightarrow> (string \<times> string) list \<Rightarrow> string list" where
  "values_of k pairs = map snd (filter (\<lambda>p. fst p = k) pairs)"

text \<open>The library on ASCII text, which is what the addresses of the scenarios are: there
  normalisation and decoding change nothing, and no location has brackets.\<close>

definition ascii_lib :: pylib where
  "ascii_lib =
     \<lparr>py_normalize_nfkc = (\<lambda>str. str),
      py_check_bracketed_netloc = (\<lambda>netloc. False),
      py_decode_utf8_replace = (\<lambda>bytes. bytes)\<rparr>"

text \<open>The same library on text in which the only character outside ASCII is the sign
  \<^verbatim>\<open>U+2100\<close> (bytes \<^verbatim>\<open>E2 84 80\<close>), which normalisation turns into \<^verbatim>\<open>a/c\<close>.\<close>

fun account_of_nfkc :: "string \<Rightarrow> string" where
  "account_of_nfkc (b1 # b2 # b3 # rest) =
     (if b1 = CHR 0xE2 \<and> b2 = CHR 0x84 \<and> b3 = CHR 0x80 then ''a/c'' @ account_of_nfkc rest
      else b1 # account_of_nfkc (b2 # b3 # rest))"
| "account_of_nfkc bytes = bytes"

definition account_lib :: pylib where
  "account_lib = ascii_lib\<lparr>py_normalize_nfkc := account_of_nfkc\<rparr>"

text \<open>A browser that cannot load any page.\<close>

definition offline :: "(browser, elem) driver \<Rightarrow> (browser, elem) driver" where
  "offline drv = drv\<lparr>wd_get := (\<lambda>target d. (Inl OtherException, d))\<rparr>"

text \<open>A browser whose address cannot be read.\<close>

definition addressless :: "(browser, elem) driver \<Rightarrow> (browser, elem) driver" where
  "addressless drv = drv\<lparr>wd_current_url := (\<lambda>d. (Inl OtherException, d))\<rparr>"

text \<open>A browser in which waiting for a clickable element fails, and not by running out of
  time.\<close>

definition jammed :: "(browser, elem) driver \<Rightarrow> (browser, elem) driver" where
  "jammed drv = drv\<lparr>wd_until_clickable := (\<lambda>timeout css d. (Inl OtherException, d))\<rparr>"

text \<open>A site that answers a search with a fixed address and has nothing else.\<close>

definition search_site :: "string \<Rightarrow> site" where
  "search_site landing =
     \<lparr>after_search = landing, result_cards = [], ceiling = 1000,
      property_page = None, review_pages = []\<rparr>"

text \<open>
  What the convergence of the lazy-load scroll rests on, as conditions on the site:
  every measurement of the body height is a number not above a ceiling \<open>H\<close>, and a
  scroll followed by the pause never makes the next measurement smaller than the one
  before.
\<close>

definition bounded_heights :: "('d, 'w) driver \<Rightarrow> int \<Rightarrow> bool" where
  "bounded_heights drv H =
     (\<forall>d r d'. wd_execute_script drv JS_BODY_HEIGHT [] d = (Inr r, d') \<longrightarrow>
        (\<exists>h. r = JNum h \<and> h \<le> H))"

definition growing_heights :: "('d, 'w) driver \<Rightarrow> bool" where
  "growing_heights drv =
     (\<forall>d h d1 u d2 h' d3.
        wd_execute_script drv JS_BODY_HEIGHT [] d = (Inr (JNum h), d1) \<and>
        wd_execute_script drv JS_SCROLL_WINDOW [] d1 = (Inr u, d2) \<and>
        wd_execute_script drv JS_BODY_HEIGHT [] (wd_sleep drv (ESPERA_SCROLL * 1000) d2) =
          (Inr (JNum h'), d3) \<longrightarrow> h \<le> h')"

text \<open>A results page with \<open>cards\<close> whose body stops growing at \<open>limit\<close> pixels.\<close>

definition results_site :: "tag list \<Rightarrow> int \<Rightarrow> site" where
  "results_site cards limit =
     \<lparr>after_search = [], result_cards = cards, ceiling = limit,
      property_page = None, review_pages = []\<rparr>"

text \<open>What one card contributes to the harvest: its listing, or nothing when its extraction
  raised.\<close>

definition harvested :: "'t soup \<Rightarrow> 't \<Rightarrow> listing option" where
  "harvested bs pcard = (case extract_listing bs pcard of Inl e \<Rightarrow> None | Inr p \<Rightarrow> Some p)"

text \<open>The test of the orchestrator on the address of a listing, as one predicate:
  the address is there, is not empty and starts with \<^verbatim>\<open>http\<close>.\<close>

definition url_valida :: "string option \<Rightarrow> bool" where
  "url_valida u = (case u of None \<Rightarrow> False | Some a \<Rightarrow> a \<noteq> [] \<and> startswith a ''http'')"

text \<open>
  The words of the specification, for comparison with \<open>url_valida\<close>: a well-formed
  absolute URL has a scheme (a letter followed by letters, digits, \<^verbatim>\<open>+\<close>, \<^verbatim>\<open>-\<close> or
  \<^verbatim>\<open>.\<close>), then \<^verbatim>\<open>://\<close>, then something.
\<close>

definition spec_absolute_url :: "string \<Rightarrow> bool" where
  "spec_absolute_url a =
     (let pre = takeWhile (\<lambda>c. c \<noteq> CHR '':'') a; rest = drop (length pre) a in
      pre \<noteq> [] \<and> is_ascii_alpha (hd pre) \<and> list_all is_scheme_char pre \<and>
      take 3 rest = ''://'' \<and> drop 3 rest \<noteq> [])"

text \<open>A listing without what the detail page and the review dialog add.\<close>

definition as_harvested :: "listing \<Rightarrow> listing" where
  "as_harvested l = l\<lparr>detail := None, reviews := None\<rparr>"

text \<open>A written document whose count of listings is the length of its list.\<close>

fun counted :: "document \<Rightarrow> bool" where
  "counted (Resultado r) = (total_alojamientos r = length (alojamientos r))"
| "counted (DestinosIds ids) = True"

text \<open>The result cards of the scripted site: a name, a price when there is one, and the
  address of the link.\<close>

definition property_card :: "string \<Rightarrow> string option \<Rightarrow> string \<Rightarrow> tag" where
  "property_card name cost link =
     Block ([(''title'', Elem ''div'' name)] @
            (case cost of None \<Rightarrow> [] | Some c \<Rightarrow> [(''price-and-discounted-price'', Elem ''span'' c)]) @
            [(''title-link'', Elem ''a'' link),
             (''distance'', Elem ''span'' ''a 2 km del centro''),
             (''beach'', Elem ''span'' ''Frente a la playa'')])
           [Elem ''span'' ''1 cama doble'']"

definition three_cards :: "tag list" where
  "three_cards =
     [property_card ''Hotel Uno'' (Some ''US$100'') ''https://www.booking.com/hotel/ec/uno.html'',
      property_card ''Hostal Dos'' None ''/hotel/ec/dos.html'',
      property_card ''Casa Tres'' (Some ''US$80'') ''http:/www.booking.com/hotel/ec/tres.html'']"

text \<open>A whole site: the search lands on Salinas, the results page has the three cards,
  every property page has a description, a map pin and two facilities, and the review
  dialog has the first two pages of \<open>three_pages\<close>.\<close>

definition coast_site :: site where
  "coast_site =
     \<lparr>after_search = ''https://www.booking.com/searchresults.es.html?dest_id=900&dest_type=city'',
      result_cards = three_cards,
      ceiling = 3000,
      property_page =
        Some [(''property-description'', Elem ''p'' ''Hotel frente al mar''),
              (''a#map_trigger_header_pin'', Elem ''a'' ''-2.2,-80.9''),
              (''property-most-popular-facilities-wrapper'',
                 Block [] [Elem ''span'' ''WiFi'', Elem ''span'' ''Piscina''])],
      review_pages = take 2 three_pages\<rparr>"

text \<open>The log of the second session continues the log of the first.\<close>

definition grows :: "('d, 'w) session \<Rightarrow> ('d, 'w) session \<Rightarrow> bool" where
  "grows s s' = (\<exists>later. snd s' = snd s @ later)"

text \<open>A harvested listing with the given address, for the orchestrator scenarios.\<close>

definition listing_at :: "string \<Rightarrow> listing" where
  "listing_at a =
     \<lparr>listing.title = ''Casa Tres'', price = ''US$80'', rating = SIN_PUNTUACION,
      distance = ''a 2 km del centro'', features = ''1 cama doble'', payment_policy = [],
      url = Some a, beach_distance = ''Frente a la playa'', detail = None, reviews = None\<rparr>"

section \<open>Properties of the review paginator\<close>

subsection \<open>Deduplication\<close>

lemma admit_dedup_inv: "dedup_inv acc \<Longrightarrow> dedup_inv (admit page acc)"
proof (induction page acc rule: admit.induct)
  case (1 acc)
  then show ?case by simp
next
  case (2 r rest revs collected_titles)
  then show ?case by (auto simp: dedup_inv_def)
qed

lemma paginate_dedup_inv:
  "paginate drv bs modal pages acc s = (Inr acc', s') \<Longrightarrow> dedup_inv acc \<Longrightarrow> dedup_inv acc'"
proof (induction pages arbitrary: acc s)
  case Nil
  then show ?case by simp
next
  case (Cons page pages)
  then show ?case
    by (auto split: prod.splits sum.splits if_splits simp: admit_dedup_inv)
qed

text \<open>An admitted review is one that was kept before, or one of the page whose title was
  not among the collected titles.\<close>

lemma admit_only_new:
  "r \<in> set (fst (admit rpage (rs, ts))) \<Longrightarrow>
     r \<in> set rs \<or> (r \<in> set rpage \<and> review.title r \<notin> ts)"
proof (induction rpage arbitrary: rs ts)
  case Nil
  then show ?case by simp
next
  case (Cons a rpage)
  show ?case
  proof (cases "review.title a \<notin> ts")
    case True
    with Cons.prems
    have "r \<in> set (fst (admit rpage (rs @ [a], insert (review.title a) ts)))" by simp
    from Cons.IH[OF this] True show ?thesis by auto
  next
    case False
    with Cons.prems have "r \<in> set (fst (admit rpage (rs, ts)))" by simp
    from Cons.IH[OF this] show ?thesis by auto
  qed
qed

text \<open>
  Claim C1. Whatever the site presents, a run of \<^verbatim>\<open>scrape_reviews_from_modal\<close> that returns
  a list returns one in which no two reviews have the same title.
\<close>

theorem paginator_titles_distinct:
  assumes "scrape_reviews_from_modal drv bs max_pages s = (Inr revs, s')"
  shows "distinct (map review.title revs)"
proof -
  have init: "dedup_inv ([], {})" by (simp add: dedup_inv_def)
  have "revs = [] \<or>
        (\<exists>modal s2 s3 ct. paginate drv bs modal [1..max_pages] ([], {}) s2 = (Inr (revs, ct), s3))"
    using assms unfolding scrape_reviews_from_modal_def
    by (auto split: prod.splits sum.splits if_splits)
  then show ?thesis
  proof
    assume "revs = []"
    then show ?thesis by simp
  next
    assume "\<exists>modal s2 s3 ct. paginate drv bs modal [1..max_pages] ([], {}) s2 = (Inr (revs, ct), s3)"
    then obtain modal s2 s3 ct where
      run: "paginate drv bs modal [1..max_pages] ([], {}) s2 = (Inr (revs, ct), s3)"
      by blast
    from paginate_dedup_inv[OF run init] show ?thesis
      by (simp add: dedup_inv_def)
  qed
qed

theorem paginator_titles_distinct_witness:
  "fst (scrape_reviews_from_modal (site_driver modal_site) (site_soup modal_site) 2 (browser0, [])) =
     Inr [\<lparr>review.title = ''Excelente'', date = ''1 nov'', negative_feedback = ''Nada'',
            positive_feedback = ''Todo''\<rparr>,
          \<lparr>review.title = ''Muy bien'', date = ''2 nov'', negative_feedback = ''El ruido'',
            positive_feedback = ''La playa''\<rparr>,
          \<lparr>review.title = ''Regular'', date = ''4 nov'', negative_feedback = ''El wifi'',
            positive_feedback = ''El precio''\<rparr>] \<and>
   distinct (map review.title
     [\<lparr>review.title = ''Excelente'', date = ''1 nov'', negative_feedback = ''Nada'',
        positive_feedback = ''Todo''\<rparr>,
      \<lparr>review.title = ''Muy bien'', date = ''2 nov'', negative_feedback = ''El ruido'',
        positive_feedback = ''La playa''\<rparr>,
      \<lparr>review.title = ''Regular'', date = ''4 nov'', negative_feedback = ''El wifi'',
        positive_feedback = ''El precio''\<rparr>])"
proof -
  let ?run = "scrape_reviews_from_modal (site_driver modal_site) (site_soup modal_site) 2 (browser0, [])"
  let ?rs = "[\<lparr>review.title = ''Excelente'', date = ''1 nov'', negative_feedback = ''Nada'',
            positive_feedback = ''Todo''\<rparr>,
          \<lparr>review.title = ''Muy bien'', date = ''2 nov'', negative_feedback = ''El ruido'',
            positive_feedback = ''La playa''\<rparr>,
          \<lparr>review.title = ''Regular'', date = ''4 nov'', negative_feedback = ''El wifi'',
            positive_feedback = ''El precio''\<rparr>]"
  have res: "fst ?run = Inr ?rs" by code_simp
  then have "?run = (Inr ?rs, snd ?run)" by (simp add: prod_eq_iff)
  from paginator_titles_distinct[OF this] res show ?thesis by simp
qed

subsection \<open>Bounds on a run\<close>

lemma js_distinct:
  "JS_SCROLL_HEIGHT \<noteq> JS_SCROLL_TO_END" "JS_SCROLL_HEIGHT \<noteq> JS_CLICK" "JS_SCROLL_TO_END \<noteq> JS_CLICK"
  "JS_SCROLL_TO_END \<noteq> JS_SCROLL_HEIGHT" "JS_CLICK \<noteq> JS_SCROLL_HEIGHT" "JS_CLICK \<noteq> JS_SCROLL_TO_END"
  by (simp_all add: JS_SCROLL_HEIGHT_def JS_SCROLL_TO_END_def JS_CLICK_def)

lemma invoke_log: "invoke c f s = (r, s') \<Longrightarrow> snd s' = snd s @ [(c, returned r)]"
  by (auto simp: invoke_def split: prod.splits)

lemma sleep_log: "snd (sleep drv ms s) = snd s"
  by (simp add: sleep_def)

lemma counts_snoc:
  "pages_read (lg @ [e]) = pages_read lg + (if is_page_read e then 1 else 0)"
  "modal_scrolls (lg @ [e]) = modal_scrolls lg + (if is_modal_scroll e then 1 else 0)"
  "clicks_done (lg @ [e]) = clicks_done lg + (if is_click_done e then 1 else 0)"
  by (simp_all add: pages_read_def modal_scrolls_def clicks_done_def)

lemma execute_script_counts:
  assumes "execute_script drv js args s = (r, s')"
  shows "pages_read (snd s') = pages_read (snd s)"
    and "modal_scrolls (snd s') = modal_scrolls (snd s) + (if js = JS_SCROLL_TO_END then 1 else 0)"
    and "clicks_done (snd s') = clicks_done (snd s) + (if js = JS_CLICK \<and> returned r then 1 else 0)"
  using invoke_log[OF assms[unfolded execute_script_def]] by (simp_all add: counts_snoc)

lemma scroll_modal_loop_counts:
  "pages_read (snd (scroll_modal_loop drv modal n last_height s)) = pages_read (snd s) \<and>
   modal_scrolls (snd (scroll_modal_loop drv modal n last_height s)) \<le> modal_scrolls (snd s) + n \<and>
   clicks_done (snd (scroll_modal_loop drv modal n last_height s)) = clicks_done (snd s)"
proof (induction n arbitrary: last_height s)
  case 0
  then show ?case by simp
next
  case (Suc n)
  show ?case
  proof -
    obtain r1 s1 where a: "execute_script drv JS_SCROLL_HEIGHT [modal] s = (r1, s1)"
      by (cases "execute_script drv JS_SCROLL_HEIGHT [modal] s") auto
    note c1 = execute_script_counts[OF a]
    show ?thesis
    proof (cases r1)
      case (Inl e)
      with a c1 show ?thesis by (simp add: js_distinct)
    next
      case r1: (Inr current_height)
      show ?thesis
      proof -
        obtain r2 s2 where b: "execute_script drv JS_SCROLL_TO_END [modal] s1 = (r2, s2)"
          by (cases "execute_script drv JS_SCROLL_TO_END [modal] s1") auto
        note c2 = execute_script_counts[OF b]
        show ?thesis
        proof (cases r2)
          case (Inl e)
          with a r1 b c1 c2 show ?thesis by (simp add: js_distinct)
        next
          case r2: (Inr u)
          show ?thesis
          proof -
            obtain r3 s3 where c: "execute_script drv JS_SCROLL_HEIGHT [modal] (sleep drv 1500 s2) = (r3, s3)"
              by (cases "execute_script drv JS_SCROLL_HEIGHT [modal] (sleep drv 1500 s2)") auto
            note c3 = execute_script_counts[OF c]
            show ?thesis
            proof (cases r3)
              case (Inl e)
              with a r1 b r2 c c1 c2 c3 show ?thesis by (simp add: js_distinct sleep_log)
            next
              case r3: (Inr new_height)
              have ih: "pages_read (snd (scroll_modal_loop drv modal n new_height s3)) = pages_read (snd s3) \<and>
                modal_scrolls (snd (scroll_modal_loop drv modal n new_height s3)) \<le> modal_scrolls (snd s3) + n \<and>
                clicks_done (snd (scroll_modal_loop drv modal n new_height s3)) = clicks_done (snd s3)"
                by (rule Suc.IH)
              from a r1 b r2 c r3 c1 c2 c3 ih show ?thesis
                by (simp add: js_distinct sleep_log)
            qed
          qed
        qed
      qed
    qed
  qed
qed


lemma page_source_counts:
  assumes "page_source drv s = (r, s')"
  shows "pages_read (snd s') = Suc (pages_read (snd s))"
    and "modal_scrolls (snd s') = modal_scrolls (snd s)"
    and "clicks_done (snd s') = clicks_done (snd s)"
  using invoke_log[OF assms[unfolded page_source_def]] by (simp_all add: counts_snoc)

lemma find_element_counts:
  assumes "find_element drv css s = (r, s')"
  shows "pages_read (snd s') = pages_read (snd s)"
    and "modal_scrolls (snd s') = modal_scrolls (snd s)"
    and "clicks_done (snd s') = clicks_done (snd s)"
  using invoke_log[OF assms[unfolded find_element_def]] by (simp_all add: counts_snoc)

lemma elem_find_element_counts:
  assumes "elem_find_element drv w css s = (r, s')"
  shows "pages_read (snd s') = pages_read (snd s)"
    and "modal_scrolls (snd s') = modal_scrolls (snd s)"
    and "clicks_done (snd s') = clicks_done (snd s)"
  using invoke_log[OF assms[unfolded elem_find_element_def]] by (simp_all add: counts_snoc)

lemma is_enabled_counts:
  assumes "is_enabled drv w s = (r, s')"
  shows "pages_read (snd s') = pages_read (snd s)"
    and "modal_scrolls (snd s') = modal_scrolls (snd s)"
    and "clicks_done (snd s') = clicks_done (snd s)"
  using invoke_log[OF assms[unfolded is_enabled_def]] by (simp_all add: counts_snoc)

lemma until_clickable_counts:
  assumes "until_clickable drv t css s = (r, s')"
  shows "pages_read (snd s') = pages_read (snd s)"
    and "modal_scrolls (snd s') = modal_scrolls (snd s)"
    and "clicks_done (snd s') = clicks_done (snd s)"
  using invoke_log[OF assms[unfolded until_clickable_def]] by (simp_all add: counts_snoc)

lemma until_present_counts:
  assumes "until_present drv t css s = (r, s')"
  shows "pages_read (snd s') = pages_read (snd s)"
    and "modal_scrolls (snd s') = modal_scrolls (snd s)"
    and "clicks_done (snd s') = clicks_done (snd s)"
  using invoke_log[OF assms[unfolded until_present_def]] by (simp_all add: counts_snoc)

lemma parse_visible_reviews_counts:
  assumes "parse_visible_reviews drv bs s = (r, s')"
  shows "pages_read (snd s') = Suc (pages_read (snd s))"
    and "modal_scrolls (snd s') = modal_scrolls (snd s)"
    and "clicks_done (snd s') = clicks_done (snd s)"
proof -
  obtain r1 s1 where a: "page_source drv s = (r1, s1)"
    by (cases "page_source drv s") auto
  from assms a have "s' = s1"
    by (cases r1) (auto simp: parse_visible_reviews_def bind_def)
  with page_source_counts[OF a]
  show "pages_read (snd s') = Suc (pages_read (snd s))"
    and "modal_scrolls (snd s') = modal_scrolls (snd s)"
    and "clicks_done (snd s') = clicks_done (snd s)"
    by simp_all
qed

lemma click_next_page_counts:
  assumes "click_next_page drv s = (advanced, s')"
  shows "pages_read (snd s') = pages_read (snd s)"
    and "modal_scrolls (snd s') = modal_scrolls (snd s)"
    and "clicks_done (snd s') = clicks_done (snd s) + (if truthy advanced then 1 else 0)"
proof -
  obtain r1 s1 where a: "find_element drv SEL_NEXT_PAGE s = (r1, s1)"
    by (cases "find_element drv SEL_NEXT_PAGE s") auto
  note c1 = find_element_counts[OF a]
  have "pages_read (snd s') = pages_read (snd s) \<and>
        modal_scrolls (snd s') = modal_scrolls (snd s) \<and>
        clicks_done (snd s') = clicks_done (snd s) + (if truthy advanced then 1 else 0)"
  proof (cases r1)
    case (Inl e)
    with assms a c1 show ?thesis
      by (cases e) (auto simp: click_next_page_def)
  next
    case r1: (Inr next_button)
    obtain r2 s2 where b: "is_enabled drv next_button s1 = (r2, s2)"
      by (cases "is_enabled drv next_button s1") auto
    note c2 = is_enabled_counts[OF b]
    show ?thesis
    proof (cases r2)
      case (Inl e)
      with assms a r1 b c1 c2 show ?thesis
        by (cases e) (auto simp: click_next_page_def)
    next
      case r2: (Inr enabled)
      show ?thesis
      proof (cases enabled)
        case False
        with assms a r1 b r2 c1 c2 show ?thesis
          by (auto simp: click_next_page_def)
      next
        case True
        obtain r3 s3 where c: "execute_script drv JS_CLICK [next_button] s2 = (r3, s3)"
          by (cases "execute_script drv JS_CLICK [next_button] s2") auto
        note c3 = execute_script_counts[OF c]
        show ?thesis
        proof (cases r3)
          case (Inl e)
          with assms a r1 b r2 True c c1 c2 c3 show ?thesis
            by (cases e) (auto simp: click_next_page_def js_distinct)
        next
          case (Inr u)
          with assms a r1 b r2 True c c1 c2 c3 show ?thesis
            by (auto simp: click_next_page_def js_distinct sleep_log)
        qed
      qed
    qed
  qed
  then show "pages_read (snd s') = pages_read (snd s)"
    and "modal_scrolls (snd s') = modal_scrolls (snd s)"
    and "clicks_done (snd s') = clicks_done (snd s) + (if truthy advanced then 1 else 0)"
    by simp_all
qed

lemma paginate_counts:
  assumes "paginate drv bs modal pages acc s = (r, s')"
  shows "pages_read (snd s') \<le> pages_read (snd s) + length pages \<and>
         modal_scrolls (snd s') + 15 * pages_read (snd s) \<le> modal_scrolls (snd s) + 15 * pages_read (snd s') \<and>
         pages_read (snd s') + clicks_done (snd s) \<le> clicks_done (snd s') + pages_read (snd s) + 1"
  using assms
proof (induction pages arbitrary: acc s)
  case Nil
  then show ?case by simp
next
  case (Cons page pages)
  let ?s1 = "scroll_modal_completely drv modal s"
  have c1: "pages_read (snd ?s1) = pages_read (snd s)"
    "modal_scrolls (snd ?s1) \<le> modal_scrolls (snd s) + 15"
    "clicks_done (snd ?s1) = clicks_done (snd s)"
    using scroll_modal_loop_counts[of drv modal 15 "JNum (- 1)" s]
    by (simp_all add: scroll_modal_completely_def)
  obtain r2 s2 where a: "parse_visible_reviews drv bs ?s1 = (r2, s2)"
    by (cases "parse_visible_reviews drv bs ?s1") auto
  note c2 = parse_visible_reviews_counts[OF a]
  show ?case
  proof (cases r2)
    case (Inl e)
    with Cons.prems a have "s' = s2" by simp
    with c1 c2 show ?thesis by simp
  next
    case r2: (Inr current_page_reviews)
    obtain advanced s3 where b: "click_next_page drv s2 = (advanced, s3)"
      by (cases "click_next_page drv s2") auto
    note c3 = click_next_page_counts[OF b]
    show ?thesis
    proof (cases "truthy advanced")
      case False
      with Cons.prems a r2 b have "s' = s3" by simp
      with c1 c2 c3 False show ?thesis by simp
    next
      case True
      with Cons.prems a r2 b
      have "paginate drv bs modal pages (admit current_page_reviews acc) s3 = (r, s')" by simp
      from Cons.IH[OF this] c1 c2 c3 True show ?thesis by simp
    qed
  qed
qed

lemma close_modal_counts:
  "pages_read (snd (close_modal drv modal s)) = pages_read (snd s) \<and>
   modal_scrolls (snd (close_modal drv modal s)) = modal_scrolls (snd s) \<and>
   clicks_done (snd s) \<le> clicks_done (snd (close_modal drv modal s))"
proof -
  obtain r1 s1 where a: "elem_find_element drv modal SEL_CLOSE s = (r1, s1)"
    by (cases "elem_find_element drv modal SEL_CLOSE s") auto
  note c1 = elem_find_element_counts[OF a]
  show ?thesis
  proof (cases r1)
    case (Inl e)
    with a c1 show ?thesis by (simp add: close_modal_def)
  next
    case r1: (Inr close_btn)
    obtain r2 s2 where b: "execute_script drv JS_CLICK [close_btn] s1 = (r2, s2)"
      by (cases "execute_script drv JS_CLICK [close_btn] s1") auto
    from a r1 b c1 execute_script_counts[OF b] show ?thesis
      by (simp add: close_modal_def js_distinct)
  qed
qed

lemma scrape_reviews_from_modal_counts:
  assumes "scrape_reviews_from_modal drv bs max_pages (d, []) = (r, s')"
  shows "pages_read (snd s') \<le> nat max_pages \<and>
         modal_scrolls (snd s') \<le> 15 * pages_read (snd s') \<and>
         pages_read (snd s') \<le> clicks_done (snd s')"
proof -
  let ?s = "(d, []) :: ('a, 'b) session"
  have z: "pages_read (snd ?s) = 0" "modal_scrolls (snd ?s) = 0" "clicks_done (snd ?s) = 0"
    by (simp_all add: pages_read_def modal_scrolls_def clicks_done_def)
  obtain r0 s0 where a: "until_clickable drv ESPERA_MODAL_RESENAS SEL_READ_ALL_REVIEWS ?s = (r0, s0)"
    by (cases "until_clickable drv ESPERA_MODAL_RESENAS SEL_READ_ALL_REVIEWS ?s") auto
  note c0 = until_clickable_counts[OF a]
  show ?thesis
  proof (cases r0)
    case (Inl e)
    with assms a have "s' = s0"
      by (auto simp: scrape_reviews_from_modal_def bind_def split: if_splits)
    with c0 z show ?thesis by simp
  next
    case r0: (Inr btn)
    obtain r1 s1 where b: "execute_script drv JS_CLICK [btn] s0 = (r1, s1)"
      by (cases "execute_script drv JS_CLICK [btn] s0") auto
    note c1 = execute_script_counts[OF b]
    show ?thesis
    proof (cases r1)
      case (Inl e)
      with assms a r0 b have "s' = s1"
        by (auto simp: scrape_reviews_from_modal_def bind_def split: if_splits)
      with c0 c1 z show ?thesis by (simp add: js_distinct)
    next
      case r1: (Inr u)
      obtain r2 s2 where c: "until_present drv ESPERA_MODAL_RESENAS SEL_REVIEWS_MODAL s1 = (r2, s2)"
        by (cases "until_present drv ESPERA_MODAL_RESENAS SEL_REVIEWS_MODAL s1") auto
      note c2 = until_present_counts[OF c]
      show ?thesis
      proof (cases r2)
        case (Inl e)
        with assms a r0 b r1 c have "s' = s2"
          by (auto simp: scrape_reviews_from_modal_def bind_def split: if_splits)
        with c0 c1 c2 z show ?thesis by (simp add: js_distinct)
      next
        case r2: (Inr modal)
        obtain r3 s3 where p: "paginate drv bs modal [1..max_pages] ([], {}) s2 = (r3, s3)"
          by (cases "paginate drv bs modal [1..max_pages] ([], {}) s2") auto
        note c3 = paginate_counts[OF p]
        from assms a r0 b r1 c r2 p have "s' = s3 \<or> s' = close_modal drv modal s3"
          by (auto simp: scrape_reviews_from_modal_def bind_def split: sum.splits prod.splits)
        with c0 c1 c2 c3 z r1 close_modal_counts[of drv modal s3] show ?thesis
          by (auto simp: js_distinct)
      qed
    qed
  qed
qed

text \<open>
  Claim C2. Whatever the dialog does, also when its next-page control never reports
  disabled, a run of \<^verbatim>\<open>scrape_reviews_from_modal\<close> ends (the function is total: its loops
  are bounded recursions) after at most \<^verbatim>\<open>max_pages\<close> page iterations; every page costs at
  most 15 scrolls of the dialog; and every page read was paid for by a click that went
  through, the one that opened the dialog for the first page and a click on the next-page
  control for each later one.
\<close>

theorem paginator_bounded:
  "pages_read (snd (snd (scrape_reviews_from_modal drv bs max_pages (d, [])))) \<le> nat max_pages \<and>
   modal_scrolls (snd (snd (scrape_reviews_from_modal drv bs max_pages (d, [])))) \<le>
     15 * pages_read (snd (snd (scrape_reviews_from_modal drv bs max_pages (d, [])))) \<and>
   pages_read (snd (snd (scrape_reviews_from_modal drv bs max_pages (d, [])))) \<le>
     clicks_done (snd (snd (scrape_reviews_from_modal drv bs max_pages (d, []))))"
  using scrape_reviews_from_modal_counts[of drv bs max_pages d
      "fst (scrape_reviews_from_modal drv bs max_pages (d, []))"
      "snd (scrape_reviews_from_modal drv bs max_pages (d, []))"]
  by simp

theorem paginator_bounded_witness:
  "0 < (2 :: int) \<and>
   pages_read (snd (snd (scrape_reviews_from_modal (site_driver modal_site) (site_soup modal_site)
      2 (browser0, [])))) = 2 \<and>
   pages_read (snd (snd (scrape_reviews_from_modal (site_driver modal_site) (site_soup modal_site)
      2 (browser0, [])))) \<le> nat 2 \<and>
   modal_scrolls (snd (snd (scrape_reviews_from_modal (site_driver modal_site) (site_soup modal_site)
      2 (browser0, [])))) \<le>
     15 * pages_read (snd (snd (scrape_reviews_from_modal (site_driver modal_site)
       (site_soup modal_site) 2 (browser0, [])))) \<and>
   pages_read (snd (snd (scrape_reviews_from_modal (site_driver modal_site) (site_soup modal_site)
      2 (browser0, [])))) \<le>
     clicks_done (snd (snd (scrape_reviews_from_modal (site_driver modal_site)
       (site_soup modal_site) 2 (browser0, []))))"
proof -
  let ?run = "scrape_reviews_from_modal (site_driver modal_site) (site_soup modal_site) 2 (browser0, [])"
  have two: "pages_read (snd (snd ?run)) = 2" by code_simp
  from paginator_bounded[of "site_driver modal_site" "site_soup modal_site" 2 browser0] two
  show ?thesis by simp
qed

subsection \<open>The scenario with three pages and a cap of two\<close>

text \<open>
  Claim C3, as stated, fails: against the dialog \<open>three_pages\<close> with \<^verbatim>\<open>max_pages = 2\<close> the
  run does move the dialog to its third page. After the reviews of page 2 are taken,
  \<^verbatim>\<open>click_next_page\<close> is called once more, finds the control enabled and clicks it: the
  pages displayed are 1, 2 and 3, and two clicks on the next-page control went through.
\<close>

theorem paginator_visits_third_page:
  "displayed (fst (snd (scrape_reviews_from_modal (site_driver modal_site) (site_soup modal_site)
      2 (browser0, [])))) = [1, 2, 3] \<and>
   count_list (snd (snd (scrape_reviews_from_modal (site_driver modal_site) (site_soup modal_site)
      2 (browser0, [])))) (CExecuteScript JS_CLICK [NextButton], True) = 2"
  by code_simp

text \<open>
  Claim C3, amended. The run returns exactly three reviews, with three different titles,
  and reads the page source twice, for the first and the second page of the dialog:
  nothing is extracted from the third page, although the dialog is moved to it by the
  click that ends the second iteration.
\<close>

theorem paginator_two_pages_three_reviews:
  "fst (scrape_reviews_from_modal (site_driver modal_site) (site_soup modal_site) 2 (browser0, [])) =
     Inr [\<lparr>review.title = ''Excelente'', date = ''1 nov'', negative_feedback = ''Nada'',
            positive_feedback = ''Todo''\<rparr>,
          \<lparr>review.title = ''Muy bien'', date = ''2 nov'', negative_feedback = ''El ruido'',
            positive_feedback = ''La playa''\<rparr>,
          \<lparr>review.title = ''Regular'', date = ''4 nov'', negative_feedback = ''El wifi'',
            positive_feedback = ''El precio''\<rparr>] \<and>
   sources_read (fst (snd (scrape_reviews_from_modal (site_driver modal_site) (site_soup modal_site)
      2 (browser0, [])))) = [''property+'', ''property++''] \<and>
   pages_read (snd (snd (scrape_reviews_from_modal (site_driver modal_site) (site_soup modal_site)
      2 (browser0, [])))) = 2 \<and>
   displayed (fst (snd (scrape_reviews_from_modal (site_driver modal_site) (site_soup modal_site)
      2 (browser0, [])))) = [1, 2, 3]"
  by code_simp

section \<open>Properties of the location resolver\<close>

lemma pair_fstI: "fst p = a \<Longrightarrow> p = (a, snd p)"
  by (cases p) simp

lemma parse_qs_collect_lookup:
  "parse_qs_collect pairs m k =
     (case (case m k of None \<Rightarrow> [] | Some vs \<Rightarrow> vs) @ values_of k pairs of
        [] \<Rightarrow> m k
      | v # vs \<Rightarrow> Some (v # vs))"
proof (induction pairs arbitrary: m)
  case Nil
  then show ?case by (auto simp: values_of_def split: option.splits list.splits)
next
  case (Cons p pairs)
  obtain name v where p: "p = (name, v)" by (cases p)
  show ?case
    unfolding p by (simp add: Cons.IH values_of_def split: option.splits list.splits)
qed

lemma map_of_values_of:
  "map_of pairs k = (case values_of k pairs of [] \<Rightarrow> None | v # vs \<Rightarrow> Some v)"
  by (induction pairs) (auto simp: values_of_def split: list.splits)

lemma parse_qs_first:
  "(case parse_qs lib qs k of None \<Rightarrow> Inr None | Some vs \<Rightarrow> thenE (first_item vs) (\<lambda>v. Inr (Some v)))
     = Inr (map_of (parse_qsl lib qs) k)"
  by (simp add: parse_qs_def parse_qs_collect_lookup map_of_values_of thenE_def split: list.splits)

lemma parse_qs_first_default:
  "(case parse_qs lib qs k of None \<Rightarrow> Inr dflt | Some vs \<Rightarrow> first_item vs)
     = Inr (case map_of (parse_qsl lib qs) k of None \<Rightarrow> dflt | Some v \<Rightarrow> v)"
  by (simp add: parse_qs_def parse_qs_collect_lookup map_of_values_of split: list.splits)

text \<open>What \<^verbatim>\<open>buscar_dest_id\<close> makes of a query.\<close>

lemma dest_from_url_query:
  assumes "urlparse_query lib u = Inr q"
  shows "dest_from_url lib u =
     Inr (case map_of (parse_qsl lib q) ''dest_id'' of
            None \<Rightarrow> None
          | Some i \<Rightarrow>
              if i = [] then None
              else Some (i, case map_of (parse_qsl lib q) ''dest_type'' of None \<Rightarrow> ''city'' | Some t \<Rightarrow> t))"
  unfolding dest_from_url_def assms
  by (auto simp: thenE_def Let_def parse_qs_first parse_qs_first_default split: option.splits)

lemma dest_from_url_raises:
  "urlparse_query lib u = Inl e \<Longrightarrow> dest_from_url lib u = Inl e"
  by (simp add: dest_from_url_def thenE_def)

lemma buscar_dest_id_returns: "\<exists>found s'. buscar_dest_id lib drv ciudad pais s = (Inr found, s')"
  by (auto simp: buscar_dest_id_def split: prod.splits sum.splits)

lemma buscar_dest_id_catches:
  "buscar_dest_id_try lib drv ciudad pais s = (Inl e, s1) \<Longrightarrow>
   buscar_dest_id lib drv ciudad pais s = (Inr None, s1)"
  by (simp add: buscar_dest_id_def)

lemma buscar_dest_id_try_search_raises:
  "search_destination drv ciudad pais s = (Inl e, s1) \<Longrightarrow>
   buscar_dest_id_try lib drv ciudad pais s = (Inl e, s1)"
  by (simp add: buscar_dest_id_try_def bind_def)

lemma buscar_dest_id_try_current_url_raises:
  "search_destination drv ciudad pais s = (Inr (), s1) \<Longrightarrow> current_url drv s1 = (Inl e, s2) \<Longrightarrow>
   buscar_dest_id_try lib drv ciudad pais s = (Inl e, s2)"
  by (simp add: buscar_dest_id_try_def bind_def)

lemma buscar_dest_id_try_reads_url:
  "search_destination drv ciudad pais s = (Inr (), s1) \<Longrightarrow> current_url drv s1 = (Inr u, s2) \<Longrightarrow>
   buscar_dest_id_try lib drv ciudad pais s = (dest_from_url lib u, s2)"
  by (simp add: buscar_dest_id_try_def bind_def)

lemma buscar_dest_id_reads_url:
  assumes "search_destination drv ciudad pais s = (Inr (), s1)"
    and "current_url drv s1 = (Inr u, s2)"
    and "urlparse_query lib u = Inr q"
  shows "buscar_dest_id lib drv ciudad pais s =
     (Inr (case map_of (parse_qsl lib q) ''dest_id'' of
            None \<Rightarrow> None
          | Some i \<Rightarrow>
              if i = [] then None
              else Some (i, case map_of (parse_qsl lib q) ''dest_type'' of None \<Rightarrow> ''city'' | Some t \<Rightarrow> t)), s2)"
  using buscar_dest_id_try_reads_url[OF assms(1,2), of lib] dest_from_url_query[OF assms(3)]
  by (simp add: buscar_dest_id_def)

text \<open>The two parameters of the scenario, wherever they stand in the query.\<close>

lemma parse_qsl_pairs_append:
  "parse_qsl_pairs lib (xs @ ys) = parse_qsl_pairs lib xs @ parse_qsl_pairs lib ys"
  by (induction xs) (auto simp: Let_def)

lemma parse_qsl_pairs_900:
  "parse_qsl_pairs lib (''dest_id=900'' # ''dest_type=city'' # after) =
     (''dest_id'', ''900'') # (''dest_type'', ''city'') # parse_qsl_pairs lib after"
  by (simp add: Let_def unquote_def plus_to_space_def)

lemma map_of_after:
  "k \<notin> fst ` set xs \<Longrightarrow> map_of (xs @ ys) k = map_of ys k"
  by (simp add: map_add_def map_of_eq_None_iff[THEN iffD2])

lemma parse_qsl_carries_900:
  assumes "split_on CHR ''&'' q = before @ [''dest_id=900'', ''dest_type=city''] @ after"
    and "''dest_id'' \<notin> fst ` set (parse_qsl_pairs lib before)"
    and "''dest_type'' \<notin> fst ` set (parse_qsl_pairs lib before)"
  shows "map_of (parse_qsl lib q) ''dest_id'' = Some ''900''"
    and "map_of (parse_qsl lib q) ''dest_type'' = Some ''city''"
proof -
  have pairs: "parse_qsl lib q =
      parse_qsl_pairs lib before @
      ((''dest_id'', ''900'') # (''dest_type'', ''city'') # parse_qsl_pairs lib after)"
    by (simp only: parse_qsl_def assms(1) parse_qsl_pairs_append parse_qsl_pairs_900 append_Cons append_Nil)
  show "map_of (parse_qsl lib q) ''dest_id'' = Some ''900''"
    unfolding pairs map_of_after[OF assms(2)] by simp
  show "map_of (parse_qsl lib q) ''dest_type'' = Some ''city''"
    unfolding pairs map_of_after[OF assms(3)] by simp
qed

lemma split_on_900: "split_on CHR ''&'' ''dest_id=900&dest_type=city'' = [''dest_id=900'', ''dest_type=city'']"
  by code_simp

text \<open>
  Claim C4. \<^verbatim>\<open>buscar_dest_id\<close> never raises: whatever the driver and the library do, it
  returns a value, and every exception of the sequence ends in the not-found result
  \<^verbatim>\<open>(None, None)\<close>: an exception of the body of the \<^verbatim>\<open>try\<close> as a whole, and in particular one
  of the search, one of the reading of the address, and the \<^verbatim>\<open>ValueError\<close> of \<^verbatim>\<open>urlparse\<close>.
  When the search went through and the address read afterwards has the query \<open>q\<close>, the
  result is decided by the first \<^verbatim>\<open>dest_id\<close> and the first \<^verbatim>\<open>dest_type\<close> of \<open>q\<close>: without a
  \<^verbatim>\<open>dest_id\<close>, or with an empty one, it is not-found; otherwise it is the \<^verbatim>\<open>dest_id\<close> with
  the \<^verbatim>\<open>dest_type\<close>, and with \<^verbatim>\<open>city\<close> when there is no \<^verbatim>\<open>dest_type\<close>. So a query that carries
  \<^verbatim>\<open>dest_id=900&dest_type=city\<close>, alone or among other parameters none of which before
  them is a \<^verbatim>\<open>dest_id\<close> or a \<^verbatim>\<open>dest_type\<close>, gives \<^verbatim>\<open>("900", "city")\<close>.
\<close>

theorem resolver_never_raises_and_reads_url:
  "(\<exists>found s'. buscar_dest_id lib drv ciudad pais s = (Inr found, s')) \<and>
   (\<forall>e s1. buscar_dest_id_try lib drv ciudad pais s = (Inl e, s1) \<longrightarrow>
      buscar_dest_id lib drv ciudad pais s = (Inr None, s1)) \<and>
   (\<forall>e s1. search_destination drv ciudad pais s = (Inl e, s1) \<longrightarrow>
      buscar_dest_id lib drv ciudad pais s = (Inr None, s1)) \<and>
   (\<forall>s1 e s2. search_destination drv ciudad pais s = (Inr (), s1) \<and> current_url drv s1 = (Inl e, s2) \<longrightarrow>
      buscar_dest_id lib drv ciudad pais s = (Inr None, s2)) \<and>
   (\<forall>s1 u s2. search_destination drv ciudad pais s = (Inr (), s1) \<and> current_url drv s1 = (Inr u, s2) \<longrightarrow>
      (\<forall>e. urlparse_query lib u = Inl e \<longrightarrow> buscar_dest_id lib drv ciudad pais s = (Inr None, s2)) \<and>
      (\<forall>q. urlparse_query lib u = Inr q \<longrightarrow>
         buscar_dest_id lib drv ciudad pais s =
           (Inr (case map_of (parse_qsl lib q) ''dest_id'' of
                   None \<Rightarrow> None
                 | Some i \<Rightarrow>
                     if i = [] then None
                     else Some (i, case map_of (parse_qsl lib q) ''dest_type'' of
                                     None \<Rightarrow> ''city''
                                   | Some t \<Rightarrow> t)), s2) \<and>
         (q = ''dest_id=900&dest_type=city'' \<longrightarrow>
            buscar_dest_id lib drv ciudad pais s = (Inr (Some (''900'', ''city'')), s2)) \<and>
         (\<forall>before after.
            split_on CHR ''&'' q = before @ [''dest_id=900'', ''dest_type=city''] @ after \<and>
            ''dest_id'' \<notin> fst ` set (parse_qsl_pairs lib before) \<and>
            ''dest_type'' \<notin> fst ` set (parse_qsl_pairs lib before) \<longrightarrow>
              buscar_dest_id lib drv ciudad pais s = (Inr (Some (''900'', ''city'')), s2)) \<and>
         (map_of (parse_qsl lib q) ''dest_id'' = None \<longrightarrow>
            buscar_dest_id lib drv ciudad pais s = (Inr None, s2)) \<and>
         (\<forall>i. map_of (parse_qsl lib q) ''dest_id'' = Some i \<and> i \<noteq> [] \<and>
              map_of (parse_qsl lib q) ''dest_type'' = None \<longrightarrow>
                buscar_dest_id lib drv ciudad pais s = (Inr (Some (i, ''city'')), s2)) \<and>
         (\<forall>i t. map_of (parse_qsl lib q) ''dest_id'' = Some i \<and> i \<noteq> [] \<and>
              map_of (parse_qsl lib q) ''dest_type'' = Some t \<longrightarrow>
                buscar_dest_id lib drv ciudad pais s = (Inr (Some (i, t)), s2))))"
proof (intro conjI allI impI)
  show "\<exists>found s'. buscar_dest_id lib drv ciudad pais s = (Inr found, s')"
    by (rule buscar_dest_id_returns)
next
  fix e s1
  assume "buscar_dest_id_try lib drv ciudad pais s = (Inl e, s1)"
  then show "buscar_dest_id lib drv ciudad pais s = (Inr None, s1)"
    by (rule buscar_dest_id_catches)
next
  fix e s1
  assume "search_destination drv ciudad pais s = (Inl e, s1)"
  then show "buscar_dest_id lib drv ciudad pais s = (Inr None, s1)"
    by (intro buscar_dest_id_catches buscar_dest_id_try_search_raises)
next
  fix s1 e s2
  assume "search_destination drv ciudad pais s = (Inr (), s1) \<and> current_url drv s1 = (Inl e, s2)"
  then show "buscar_dest_id lib drv ciudad pais s = (Inr None, s2)"
    by (intro buscar_dest_id_catches[of _ _ _ _ _ e] buscar_dest_id_try_current_url_raises[of _ _ _ _ s1]) auto
next
  fix s1 u s2 e
  assume h: "search_destination drv ciudad pais s = (Inr (), s1) \<and> current_url drv s1 = (Inr u, s2)"
    and e: "urlparse_query lib u = Inl e"
  from h have "buscar_dest_id_try lib drv ciudad pais s = (dest_from_url lib u, s2)"
    by (intro buscar_dest_id_try_reads_url[of _ _ _ _ s1]) auto
  then show "buscar_dest_id lib drv ciudad pais s = (Inr None, s2)"
    by (simp add: buscar_dest_id_def dest_from_url_raises[OF e])
next
  fix s1 u s2 q
  assume h: "search_destination drv ciudad pais s = (Inr (), s1) \<and> current_url drv s1 = (Inr u, s2)"
    and q: "urlparse_query lib u = Inr q"
  from h q show "buscar_dest_id lib drv ciudad pais s =
     (Inr (case map_of (parse_qsl lib q) ''dest_id'' of
            None \<Rightarrow> None
          | Some i \<Rightarrow>
              if i = [] then None
              else Some (i, case map_of (parse_qsl lib q) ''dest_type'' of None \<Rightarrow> ''city'' | Some t \<Rightarrow> t)), s2)"
    by (intro buscar_dest_id_reads_url[of _ _ _ _ s1 u]) auto
next
  fix s1 u s2 q
  assume h: "search_destination drv ciudad pais s = (Inr (), s1) \<and> current_url drv s1 = (Inr u, s2)"
    and q: "urlparse_query lib u = Inr q" and q9: "q = ''dest_id=900&dest_type=city''"
  have "split_on CHR ''&'' q = [] @ [''dest_id=900'', ''dest_type=city''] @ []"
    by (simp add: q9 split_on_900)
  from parse_qsl_carries_900[OF this, of lib]
  have "map_of (parse_qsl lib q) ''dest_id'' = Some ''900''" "map_of (parse_qsl lib q) ''dest_type'' = Some ''city''"
    by simp_all
  with buscar_dest_id_reads_url[OF conjunct1[OF h] conjunct2[OF h] q]
  show "buscar_dest_id lib drv ciudad pais s = (Inr (Some (''900'', ''city'')), s2)"
    by simp
next
  fix s1 u s2 q before after
  assume h: "search_destination drv ciudad pais s = (Inr (), s1) \<and> current_url drv s1 = (Inr u, s2)"
    and q: "urlparse_query lib u = Inr q"
    and c: "split_on CHR ''&'' q = before @ [''dest_id=900'', ''dest_type=city''] @ after \<and>
            ''dest_id'' \<notin> fst ` set (parse_qsl_pairs lib before) \<and>
            ''dest_type'' \<notin> fst ` set (parse_qsl_pairs lib before)"
  from c have "map_of (parse_qsl lib q) ''dest_id'' = Some ''900''" "map_of (parse_qsl lib q) ''dest_type'' = Some ''city''"
    by (auto intro: parse_qsl_carries_900)
  with buscar_dest_id_reads_url[OF conjunct1[OF h] conjunct2[OF h] q]
  show "buscar_dest_id lib drv ciudad pais s = (Inr (Some (''900'', ''city'')), s2)"
    by simp
next
  fix s1 u s2 q
  assume h: "search_destination drv ciudad pais s = (Inr (), s1) \<and> current_url drv s1 = (Inr u, s2)"
    and q: "urlparse_query lib u = Inr q"
    and n: "map_of (parse_qsl lib q) ''dest_id'' = None"
  from buscar_dest_id_reads_url[OF conjunct1[OF h] conjunct2[OF h] q] n
  show "buscar_dest_id lib drv ciudad pais s = (Inr None, s2)"
    by simp
next
  fix s1 u s2 q i
  assume h: "search_destination drv ciudad pais s = (Inr (), s1) \<and> current_url drv s1 = (Inr u, s2)"
    and q: "urlparse_query lib u = Inr q"
    and n: "map_of (parse_qsl lib q) ''dest_id'' = Some i \<and> i \<noteq> [] \<and>
            map_of (parse_qsl lib q) ''dest_type'' = None"
  from buscar_dest_id_reads_url[OF conjunct1[OF h] conjunct2[OF h] q] n
  show "buscar_dest_id lib drv ciudad pais s = (Inr (Some (i, ''city'')), s2)"
    by simp
next
  fix s1 u s2 q i t
  assume h: "search_destination drv ciudad pais s = (Inr (), s1) \<and> current_url drv s1 = (Inr u, s2)"
    and q: "urlparse_query lib u = Inr q"
    and n: "map_of (parse_qsl lib q) ''dest_id'' = Some i \<and> i \<noteq> [] \<and>
            map_of (parse_qsl lib q) ''dest_type'' = Some t"
  from buscar_dest_id_reads_url[OF conjunct1[OF h] conjunct2[OF h] q] n
  show "buscar_dest_id lib drv ciudad pais s = (Inr (Some (i, t)), s2)"
    by simp
qed

theorem resolver_never_raises_and_reads_url_witness:
  "fst (buscar_dest_id ascii_lib
          (site_driver (search_site ''https://www.booking.com/searchresults.es.html?dest_id=900&dest_type=city''))
          ''Salinas'' ''Ecuador'' (browser0, [])) = Inr (Some (''900'', ''city'')) \<and>
   fst (buscar_dest_id ascii_lib
          (site_driver (search_site
             ''https://www.booking.com/searchresults.es.html?ss=Salinas%2C+Ecuador&lang=es&dest_id=900&dest_type=city&group_adults=2''))
          ''Salinas'' ''Ecuador'' (browser0, [])) = Inr (Some (''900'', ''city'')) \<and>
   fst (buscar_dest_id ascii_lib
          (site_driver (search_site ''https://www.booking.com/searchresults.es.html?ss=Salinas''))
          ''Salinas'' ''Ecuador'' (browser0, [])) = Inr None \<and>
   fst (buscar_dest_id ascii_lib
          (site_driver (search_site ''https://www.booking.com/searchresults.es.html?ss=Salinas&dest_id=-925''))
          ''Salinas'' ''Ecuador'' (browser0, [])) = Inr (Some (''-925'', ''city'')) \<and>
   fst (buscar_dest_id ascii_lib
          (site_driver (search_site ''https://www.booking.com/searchresults.es.html?dest_type=region&dest_id=77''))
          ''Salinas'' ''Ecuador'' (browser0, [])) = Inr (Some (''77'', ''region'')) \<and>
   fst (buscar_dest_id ascii_lib
          (site_driver (search_site ''https://[www.booking.com/searchresults.es.html?dest_id=900&dest_type=city''))
          ''Salinas'' ''Ecuador'' (browser0, [])) = Inr None \<and>
   fst (buscar_dest_id account_lib
          (site_driver (search_site
             (''https://x'' @ [CHR 0xE2, CHR 0x84, CHR 0x80] @ ''y/?dest_id=900&dest_type=city'')))
          ''Salinas'' ''Ecuador'' (browser0, [])) = Inr None \<and>
   fst (buscar_dest_id ascii_lib
          (offline (site_driver (search_site
             ''https://www.booking.com/searchresults.es.html?dest_id=900&dest_type=city'')))
          ''Salinas'' ''Ecuador'' (browser0, [])) = Inr None \<and>
   fst (buscar_dest_id ascii_lib
          (addressless (site_driver (search_site
             ''https://www.booking.com/searchresults.es.html?dest_id=900&dest_type=city'')))
          ''Salinas'' ''Ecuador'' (browser0, [])) = Inr None"
proof -
  let ?s = "(browser0, []) :: (browser, elem) session"
  let ?ua = "''https://www.booking.com/searchresults.es.html?dest_id=900&dest_type=city''"
  let ?ub = "''https://www.booking.com/searchresults.es.html?ss=Salinas%2C+Ecuador&lang=es&dest_id=900&dest_type=city&group_adults=2''"
  let ?uc = "''https://www.booking.com/searchresults.es.html?ss=Salinas''"
  let ?ud = "''https://www.booking.com/searchresults.es.html?ss=Salinas&dest_id=-925''"
  let ?ue = "''https://www.booking.com/searchresults.es.html?dest_type=region&dest_id=77''"
  let ?uf = "''https://[www.booking.com/searchresults.es.html?dest_id=900&dest_type=city''"
  let ?ui = "''https://x'' @ [CHR 0xE2, CHR 0x84, CHR 0x80] @ ''y/?dest_id=900&dest_type=city''"
  let ?A = "site_driver (search_site ?ua)"
  let ?B = "site_driver (search_site ?ub)"
  let ?C = "site_driver (search_site ?uc)"
  let ?D = "site_driver (search_site ?ud)"
  let ?E = "site_driver (search_site ?ue)"
  let ?F = "site_driver (search_site ?uf)"
  let ?I = "site_driver (search_site ?ui)"
  let ?G = "offline ?A"
  let ?H = "addressless ?A"
  let ?a1 = "snd (search_destination ?A ''Salinas'' ''Ecuador'' ?s)"
  let ?b1 = "snd (search_destination ?B ''Salinas'' ''Ecuador'' ?s)"
  let ?c1 = "snd (search_destination ?C ''Salinas'' ''Ecuador'' ?s)"
  let ?d1 = "snd (search_destination ?D ''Salinas'' ''Ecuador'' ?s)"
  let ?e1 = "snd (search_destination ?E ''Salinas'' ''Ecuador'' ?s)"
  let ?f1 = "snd (search_destination ?F ''Salinas'' ''Ecuador'' ?s)"
  let ?i1 = "snd (search_destination ?I ''Salinas'' ''Ecuador'' ?s)"
  let ?g1 = "snd (search_destination ?G ''Salinas'' ''Ecuador'' ?s)"
  let ?h1 = "snd (search_destination ?H ''Salinas'' ''Ecuador'' ?s)"
  have a1: "search_destination ?A ''Salinas'' ''Ecuador'' ?s = (Inr (), ?a1)"
    by (rule pair_fstI) code_simp
  have a2: "current_url ?A ?a1 = (Inr ?ua, snd (current_url ?A ?a1))"
    by (rule pair_fstI) code_simp
  have a3: "urlparse_query ascii_lib ?ua = Inr ''dest_id=900&dest_type=city''"
    by code_simp
  have A: "buscar_dest_id ascii_lib ?A ''Salinas'' ''Ecuador'' ?s =
      (Inr (Some (''900'', ''city'')), snd (current_url ?A ?a1))"
    using resolver_never_raises_and_reads_url[of ascii_lib ?A "''Salinas''" "''Ecuador''" ?s,
        THEN conjunct2, THEN conjunct2, THEN conjunct2, THEN conjunct2, rule_format, OF conjI[OF a1 a2],
        THEN conjunct2, rule_format, OF a3, THEN conjunct2, THEN conjunct1]
    by simp
  have b1: "search_destination ?B ''Salinas'' ''Ecuador'' ?s = (Inr (), ?b1)"
    by (rule pair_fstI) code_simp
  have b2: "current_url ?B ?b1 = (Inr ?ub, snd (current_url ?B ?b1))"
    by (rule pair_fstI) code_simp
  have b3: "urlparse_query ascii_lib ?ub =
      Inr ''ss=Salinas%2C+Ecuador&lang=es&dest_id=900&dest_type=city&group_adults=2''"
    by code_simp
  have b4: "split_on CHR ''&'' ''ss=Salinas%2C+Ecuador&lang=es&dest_id=900&dest_type=city&group_adults=2'' =
      [''ss=Salinas%2C+Ecuador'', ''lang=es''] @ [''dest_id=900'', ''dest_type=city''] @ [''group_adults=2'']"
    by code_simp
  have b5: "parse_qsl_pairs ascii_lib [''ss=Salinas%2C+Ecuador'', ''lang=es''] =
      [(''ss'', ''Salinas, Ecuador''), (''lang'', ''es'')]"
    by code_simp
  have b6: "''dest_id'' \<notin> fst ` set (parse_qsl_pairs ascii_lib [''ss=Salinas%2C+Ecuador'', ''lang=es''])"
    unfolding b5 by simp
  have b7: "''dest_type'' \<notin> fst ` set (parse_qsl_pairs ascii_lib [''ss=Salinas%2C+Ecuador'', ''lang=es''])"
    unfolding b5 by simp
  have B: "buscar_dest_id ascii_lib ?B ''Salinas'' ''Ecuador'' ?s =
      (Inr (Some (''900'', ''city'')), snd (current_url ?B ?b1))"
    by (rule resolver_never_raises_and_reads_url[of ascii_lib ?B "''Salinas''" "''Ecuador''" ?s,
        THEN conjunct2, THEN conjunct2, THEN conjunct2, THEN conjunct2, rule_format, OF conjI[OF b1 b2],
        THEN conjunct2, rule_format, OF b3, THEN conjunct2, THEN conjunct2, THEN conjunct1, rule_format,
        OF conjI[OF b4 conjI[OF b6 b7]]])
  have c1: "search_destination ?C ''Salinas'' ''Ecuador'' ?s = (Inr (), ?c1)"
    by (rule pair_fstI) code_simp
  have c2: "current_url ?C ?c1 = (Inr ?uc, snd (current_url ?C ?c1))"
    by (rule pair_fstI) code_simp
  have c3: "urlparse_query ascii_lib ?uc = Inr ''ss=Salinas''"
    by code_simp
  have c4: "map_of (parse_qsl ascii_lib ''ss=Salinas'') ''dest_id'' = None"
    by code_simp
  have C: "buscar_dest_id ascii_lib ?C ''Salinas'' ''Ecuador'' ?s = (Inr None, snd (current_url ?C ?c1))"
    by (rule resolver_never_raises_and_reads_url[of ascii_lib ?C "''Salinas''" "''Ecuador''" ?s,
        THEN conjunct2, THEN conjunct2, THEN conjunct2, THEN conjunct2, rule_format, OF conjI[OF c1 c2],
        THEN conjunct2, rule_format, OF c3, THEN conjunct2, THEN conjunct2, THEN conjunct2, THEN conjunct1,
        rule_format, OF c4])
  have d1: "search_destination ?D ''Salinas'' ''Ecuador'' ?s = (Inr (), ?d1)"
    by (rule pair_fstI) code_simp
  have d2: "current_url ?D ?d1 = (Inr ?ud, snd (current_url ?D ?d1))"
    by (rule pair_fstI) code_simp
  have d3: "urlparse_query ascii_lib ?ud = Inr ''ss=Salinas&dest_id=-925''"
    by code_simp
  have d4: "map_of (parse_qsl ascii_lib ''ss=Salinas&dest_id=-925'') ''dest_id'' = Some ''-925''"
    by code_simp
  have d5: "map_of (parse_qsl ascii_lib ''ss=Salinas&dest_id=-925'') ''dest_type'' = None"
    by code_simp
  have d6: "''-925'' \<noteq> []"
    by simp
  have D: "buscar_dest_id ascii_lib ?D ''Salinas'' ''Ecuador'' ?s =
      (Inr (Some (''-925'', ''city'')), snd (current_url ?D ?d1))"
    by (rule resolver_never_raises_and_reads_url[of ascii_lib ?D "''Salinas''" "''Ecuador''" ?s,
        THEN conjunct2, THEN conjunct2, THEN conjunct2, THEN conjunct2, rule_format, OF conjI[OF d1 d2],
        THEN conjunct2, rule_format, OF d3, THEN conjunct2, THEN conjunct2, THEN conjunct2, THEN conjunct2,
        THEN conjunct1, rule_format, OF conjI[OF d4 conjI[OF d6 d5]]])
  have e1: "search_destination ?E ''Salinas'' ''Ecuador'' ?s = (Inr (), ?e1)"
    by (rule pair_fstI) code_simp
  have e2: "current_url ?E ?e1 = (Inr ?ue, snd (current_url ?E ?e1))"
    by (rule pair_fstI) code_simp
  have e3: "urlparse_query ascii_lib ?ue = Inr ''dest_type=region&dest_id=77''"
    by code_simp
  have e4: "map_of (parse_qsl ascii_lib ''dest_type=region&dest_id=77'') ''dest_id'' = Some ''77''"
    by code_simp
  have e5: "map_of (parse_qsl ascii_lib ''dest_type=region&dest_id=77'') ''dest_type'' = Some ''region''"
    by code_simp
  have e6: "''77'' \<noteq> []"
    by simp
  have E: "buscar_dest_id ascii_lib ?E ''Salinas'' ''Ecuador'' ?s =
      (Inr (Some (''77'', ''region'')), snd (current_url ?E ?e1))"
    by (rule resolver_never_raises_and_reads_url[of ascii_lib ?E "''Salinas''" "''Ecuador''" ?s,
        THEN conjunct2, THEN conjunct2, THEN conjunct2, THEN conjunct2, rule_format, OF conjI[OF e1 e2],
        THEN conjunct2, rule_format, OF e3, THEN conjunct2, THEN conjunct2, THEN conjunct2, THEN conjunct2,
        THEN conjunct2, rule_format, OF conjI[OF e4 conjI[OF e6 e5]]])
  have f1: "search_destination ?F ''Salinas'' ''Ecuador'' ?s = (Inr (), ?f1)"
    by (rule pair_fstI) code_simp
  have f2: "current_url ?F ?f1 = (Inr ?uf, snd (current_url ?F ?f1))"
    by (rule pair_fstI) code_simp
  have f3: "urlparse_query ascii_lib ?uf = Inl ValueError"
    by code_simp
  have F: "buscar_dest_id ascii_lib ?F ''Salinas'' ''Ecuador'' ?s = (Inr None, snd (current_url ?F ?f1))"
    by (rule resolver_never_raises_and_reads_url[of ascii_lib ?F "''Salinas''" "''Ecuador''" ?s,
        THEN conjunct2, THEN conjunct2, THEN conjunct2, THEN conjunct2, rule_format, OF conjI[OF f1 f2],
        THEN conjunct1, rule_format, OF f3])
  have i1: "search_destination ?I ''Salinas'' ''Ecuador'' ?s = (Inr (), ?i1)"
    by (rule pair_fstI) code_simp
  have i2: "current_url ?I ?i1 = (Inr ?ui, snd (current_url ?I ?i1))"
    by (rule pair_fstI) code_simp
  have i3: "urlparse_query account_lib ?ui = Inl ValueError"
    by code_simp
  have I: "buscar_dest_id account_lib ?I ''Salinas'' ''Ecuador'' ?s = (Inr None, snd (current_url ?I ?i1))"
    by (rule resolver_never_raises_and_reads_url[of account_lib ?I "''Salinas''" "''Ecuador''" ?s,
        THEN conjunct2, THEN conjunct2, THEN conjunct2, THEN conjunct2, rule_format, OF conjI[OF i1 i2],
        THEN conjunct1, rule_format, OF i3])
  have g1: "search_destination ?G ''Salinas'' ''Ecuador'' ?s = (Inl OtherException, ?g1)"
    by (rule pair_fstI) code_simp
  have G: "buscar_dest_id ascii_lib ?G ''Salinas'' ''Ecuador'' ?s = (Inr None, ?g1)"
    by (rule resolver_never_raises_and_reads_url[of ascii_lib ?G "''Salinas''" "''Ecuador''" ?s,
        THEN conjunct2, THEN conjunct2, THEN conjunct1, rule_format, OF g1])
  have g2: "buscar_dest_id_try ascii_lib ?G ''Salinas'' ''Ecuador'' ?s =
      (Inl OtherException, snd (buscar_dest_id_try ascii_lib ?G ''Salinas'' ''Ecuador'' ?s))"
    by (rule pair_fstI) code_simp
  have G': "buscar_dest_id ascii_lib ?G ''Salinas'' ''Ecuador'' ?s =
      (Inr None, snd (buscar_dest_id_try ascii_lib ?G ''Salinas'' ''Ecuador'' ?s))"
    by (rule resolver_never_raises_and_reads_url[of ascii_lib ?G "''Salinas''" "''Ecuador''" ?s,
        THEN conjunct2, THEN conjunct1, rule_format, OF g2])
  have h1: "search_destination ?H ''Salinas'' ''Ecuador'' ?s = (Inr (), ?h1)"
    by (rule pair_fstI) code_simp
  have h2: "current_url ?H ?h1 = (Inl OtherException, snd (current_url ?H ?h1))"
    by (rule pair_fstI) code_simp
  have H: "buscar_dest_id ascii_lib ?H ''Salinas'' ''Ecuador'' ?s = (Inr None, snd (current_url ?H ?h1))"
    by (rule resolver_never_raises_and_reads_url[of ascii_lib ?H "''Salinas''" "''Ecuador''" ?s,
        THEN conjunct2, THEN conjunct2, THEN conjunct2, THEN conjunct1, rule_format, OF conjI[OF h1 h2]])
  show ?thesis
    unfolding A B C D E F G H I by simp
qed

section \<open>Properties of the search results harvester\<close>

lemma execute_script_world:
  "execute_script drv js args s = (r, s') \<Longrightarrow> wd_execute_script drv js args (fst s) = (r, fst s')"
  by (auto simp: execute_script_def invoke_def split: prod.splits)

lemma sleep_world: "fst (sleep drv ms s) = wd_sleep drv ms (fst s)"
  by (simp add: sleep_def)

lemma scroll_to_bottom_stops:
  assumes "execute_script drv JS_SCROLL_WINDOW [] s = (Inr u, s1)"
    and "execute_script drv JS_BODY_HEIGHT [] (sleep drv (ESPERA_SCROLL * 1000) s1) = (Inr last_height, s2)"
  shows "scroll_to_bottom drv last_height s = Some (Inr (), s2)"
  by (subst scroll_to_bottom.simps) (simp add: assms)

lemma scroll_to_bottom_ends:
  assumes bounded: "bounded_heights drv H"
    and growing: "growing_heights drv"
  shows "wd_execute_script drv JS_BODY_HEIGHT [] d0 = (Inr (JNum h), fst s) \<Longrightarrow>
         nat (H - h) = n \<Longrightarrow> scroll_to_bottom drv (JNum h) s \<noteq> None"
proof (induction n arbitrary: h s d0 rule: less_induct)
  case (less n)
  obtain r1 s1 where a: "execute_script drv JS_SCROLL_WINDOW [] s = (r1, s1)"
    by (cases "execute_script drv JS_SCROLL_WINDOW [] s") auto
  show ?case
  proof (cases r1)
    case (Inl e)
    with a show ?thesis by (subst scroll_to_bottom.simps) simp
  next
    case r1: (Inr u)
    let ?s1' = "sleep drv (ESPERA_SCROLL * 1000) s1"
    obtain r2 s2 where b: "execute_script drv JS_BODY_HEIGHT [] ?s1' = (r2, s2)"
      by (cases "execute_script drv JS_BODY_HEIGHT [] ?s1'") auto
    show ?thesis
    proof (cases r2)
      case (Inl e)
      with a r1 b show ?thesis by (subst scroll_to_bottom.simps) simp
    next
      case r2: (Inr new_height)
      have wa: "wd_execute_script drv JS_SCROLL_WINDOW [] (fst s) = (Inr u, fst s1)"
        using execute_script_world[OF a] r1 by simp
      have wb: "wd_execute_script drv JS_BODY_HEIGHT [] (wd_sleep drv (ESPERA_SCROLL * 1000) (fst s1)) =
                  (Inr new_height, fst s2)"
        using execute_script_world[OF b] r2 by (simp add: sleep_world)
      from bounded wb obtain h' where h': "new_height = JNum h'" "h' \<le> H"
        unfolding bounded_heights_def by blast
      from growing less.prems(1) wa wb h'(1) have mono: "h \<le> h'"
        unfolding growing_heights_def by blast
      show ?thesis
      proof (cases "h' = h")
        case True
        with a r1 b r2 h' show ?thesis by (subst scroll_to_bottom.simps) simp
      next
        case False
        with mono h'(2) less.prems(2) have "nat (H - h') < n" by linarith
        have "wd_execute_script drv JS_BODY_HEIGHT [] (wd_sleep drv (ESPERA_SCROLL * 1000) (fst s1)) =
                  (Inr (JNum h'), fst s2)"
          using wb h'(1) by simp
        from less.IH[OF \<open>nat (H - h') < n\<close> this refl]
        have "scroll_to_bottom drv (JNum h') s2 \<noteq> None" .
        with a r1 b r2 h' False show ?thesis by (subst scroll_to_bottom.simps) simp
      qed
    qed
  qed
qed

lemma harvester_ends:
  assumes bounded: "bounded_heights drv H" and growing: "growing_heights drv"
  shows "scrape_listings_from_search_page drv bs search_url s \<noteq> None"
proof -
  obtain r1 s1 where a: "get drv search_url s = (r1, s1)"
    by (cases "get drv search_url s") auto
  show ?thesis
  proof (cases r1)
    case (Inl e)
    with a show ?thesis by (simp add: scrape_listings_from_search_page_def)
  next
    case r1: (Inr u)
    obtain r2 s2 where b: "until_present drv ESPERA_INICIAL_PAGINA SEL_PROPERTY_CARD s1 = (r2, s2)"
      by (cases "until_present drv ESPERA_INICIAL_PAGINA SEL_PROPERTY_CARD s1") auto
    show ?thesis
    proof (cases r2)
      case (Inl e)
      with a r1 b show ?thesis by (simp add: scrape_listings_from_search_page_def)
    next
      case r2: (Inr w)
      obtain r3 s3 where c: "execute_script drv JS_BODY_HEIGHT [] s2 = (r3, s3)"
        by (cases "execute_script drv JS_BODY_HEIGHT [] s2") auto
      show ?thesis
      proof (cases r3)
        case (Inl e)
        with a r1 b r2 c show ?thesis by (simp add: scrape_listings_from_search_page_def)
      next
        case r3: (Inr last_height)
        have wc: "wd_execute_script drv JS_BODY_HEIGHT [] (fst s2) = (Inr last_height, fst s3)"
          using execute_script_world[OF c] r3 by simp
        with bounded obtain h where h: "last_height = JNum h"
          unfolding bounded_heights_def by blast
        have "wd_execute_script drv JS_BODY_HEIGHT [] (fst s2) = (Inr (JNum h), fst s3)"
          using wc h by simp
        from scroll_to_bottom_ends[OF bounded growing this refl] h
        have "scroll_to_bottom drv last_height s3 \<noteq> None" by simp
        then obtain x s4 where sc: "scroll_to_bottom drv last_height s3 = Some (x, s4)"
          by fastforce
        show ?thesis
          by (cases x) (simp_all add: scrape_listings_from_search_page_def a r1 b r2 c r3 sc)
      qed
    qed
  qed
qed

lemma site_bounded: "bounded_heights (site_driver st) (ceiling st)"
  by (auto simp: bounded_heights_def site_driver_def site_script_def JS_BODY_HEIGHT_def JS_CLICK_def)

lemma site_growing: "growing_heights (site_driver st)"
  by (auto simp: growing_heights_def site_driver_def site_script_def JS_BODY_HEIGHT_def JS_CLICK_def
      JS_SCROLL_WINDOW_def split: if_splits)

text \<open>
  Claim C5. For every search address: when the navigation went through and the wait for
  the first result card ends in \<^verbatim>\<open>TimeoutException\<close>, \<^verbatim>\<open>scrape_listings_from_search_page\<close>
  returns the empty list; it does not raise and does not loop.
\<close>

theorem harvester_empty_on_timeout:
  assumes "get drv search_url s = (Inr u, s1)"
    and "until_present drv ESPERA_INICIAL_PAGINA SEL_PROPERTY_CARD s1 = (Inl TimeoutException, s2)"
  shows "scrape_listings_from_search_page drv bs search_url s = Some (Inr [], s2)"
  using assms by (simp add: scrape_listings_from_search_page_def)

theorem harvester_empty_on_timeout_witness:
  "map_option fst
     (scrape_listings_from_search_page (site_driver (results_site [] 3000))
        (site_soup (results_site [] 3000)) ''https://www.booking.com/searchresults.es.html?dest_id=900&dest_type=city'' (browser0, [])) = Some (Inr [])"
proof -
  let ?D = "site_driver (results_site [] 3000)"
  let ?s = "(browser0, []) :: (browser, elem) session"
  let ?s1 = "snd (get ?D ''https://www.booking.com/searchresults.es.html?dest_id=900&dest_type=city'' ?s)"
  have a: "get ?D ''https://www.booking.com/searchresults.es.html?dest_id=900&dest_type=city'' ?s = (Inr (), ?s1)"
    by (rule pair_fstI) code_simp
  have b: "until_present ?D ESPERA_INICIAL_PAGINA SEL_PROPERTY_CARD ?s1 =
      (Inl TimeoutException, snd (until_present ?D ESPERA_INICIAL_PAGINA SEL_PROPERTY_CARD ?s1))"
    by (rule pair_fstI) code_simp
  from harvester_empty_on_timeout[OF a b, where bs = "site_soup (results_site [] 3000)"]
  show ?thesis by simp
qed

text \<open>
  Claim C6. The scroll loop of the harvester stops at the first measurement that equals
  the one before it. On a site whose body height, measured after each scroll, never
  decreases and never exceeds a ceiling, the loop ends, and so does the harvester.
\<close>

theorem scroll_to_bottom_converges:
  "(execute_script drv JS_SCROLL_WINDOW [] s = (Inr u, s1) \<and>
    execute_script drv JS_BODY_HEIGHT [] (sleep drv (ESPERA_SCROLL * 1000) s1) = (Inr last_height, s2) \<longrightarrow>
      scroll_to_bottom drv last_height s = Some (Inr (), s2)) \<and>
   (bounded_heights drv H \<and> growing_heights drv \<longrightarrow>
      (wd_execute_script drv JS_BODY_HEIGHT [] d0 = (Inr last_height, fst s) \<longrightarrow>
         (\<exists>r. scroll_to_bottom drv last_height s = Some r)) \<and>
      (\<exists>r. scrape_listings_from_search_page drv bs search_url s = Some r))"
proof (intro conjI impI)
  assume "execute_script drv JS_SCROLL_WINDOW [] s = (Inr u, s1) \<and>
    execute_script drv JS_BODY_HEIGHT [] (sleep drv (ESPERA_SCROLL * 1000) s1) = (Inr last_height, s2)"
  then show "scroll_to_bottom drv last_height s = Some (Inr (), s2)"
    using scroll_to_bottom_stops by blast
next
  assume h: "bounded_heights drv H \<and> growing_heights drv"
    and m: "wd_execute_script drv JS_BODY_HEIGHT [] d0 = (Inr last_height, fst s)"
  from h m obtain k where "last_height = JNum k"
    unfolding bounded_heights_def by blast
  with m have "wd_execute_script drv JS_BODY_HEIGHT [] d0 = (Inr (JNum k), fst s)" by simp
  from scroll_to_bottom_ends[OF _ _ this refl] h \<open>last_height = JNum k\<close>
  have "scroll_to_bottom drv last_height s \<noteq> None" by blast
  then show "\<exists>r. scroll_to_bottom drv last_height s = Some r" by blast
next
  assume "bounded_heights drv H \<and> growing_heights drv"
  then have "scrape_listings_from_search_page drv bs search_url s \<noteq> None"
    using harvester_ends by blast
  then show "\<exists>r. scrape_listings_from_search_page drv bs search_url s = Some r" by blast
qed

theorem scroll_to_bottom_converges_witness:
  "map_option fst (scroll_to_bottom (site_driver (results_site [Broken] 3000)) (JNum 3000)
      (browser0\<lparr>scrolls := 2\<rparr>, [])) = Some (Inr ()) \<and>
   (\<exists>r. scroll_to_bottom (site_driver (results_site [Broken] 3000)) (JNum 1000) (browser0, []) = Some r) \<and>
   (\<exists>r. scrape_listings_from_search_page (site_driver (results_site [Broken] 3000))
      (site_soup (results_site [Broken] 3000)) ''https://www.booking.com/searchresults.es.html?dest_id=900&dest_type=city'' (browser0, []) = Some r)"
proof -
  let ?D = "site_driver (results_site [Broken] 3000)"
  let ?S = "site_soup (results_site [Broken] 3000)"
  let ?s = "(browser0\<lparr>scrolls := 2\<rparr>, []) :: (browser, elem) session"
  let ?s1 = "snd (execute_script ?D JS_SCROLL_WINDOW [] ?s)"
  let ?z = "(browser0, []) :: (browser, elem) session"
  have a: "execute_script ?D JS_SCROLL_WINDOW [] ?s = (Inr JNull, ?s1)"
    by (rule pair_fstI) code_simp
  have b: "execute_script ?D JS_BODY_HEIGHT [] (sleep ?D (ESPERA_SCROLL * 1000) ?s1) =
      (Inr (JNum 3000), snd (execute_script ?D JS_BODY_HEIGHT [] (sleep ?D (ESPERA_SCROLL * 1000) ?s1)))"
    by (rule pair_fstI) code_simp
  have bounded: "bounded_heights ?D 3000"
    using site_bounded[of "results_site [Broken] 3000"] by (simp add: results_site_def)
  have growing: "growing_heights ?D"
    by (rule site_growing)
  have m: "wd_execute_script ?D JS_BODY_HEIGHT [] browser0 = (Inr (JNum 1000), fst ?z)"
    by code_simp
  from scroll_to_bottom_converges[where drv = ?D and s = ?s and u = JNull and ?s1.0 = ?s1
      and last_height = "JNum 3000"
      and ?s2.0 = "snd (execute_script ?D JS_BODY_HEIGHT [] (sleep ?D (ESPERA_SCROLL * 1000) ?s1))",
      THEN conjunct1] a b
  have "scroll_to_bottom ?D (JNum 3000) ?s =
      Some (Inr (), snd (execute_script ?D JS_BODY_HEIGHT [] (sleep ?D (ESPERA_SCROLL * 1000) ?s1)))"
    by blast
  then have one: "map_option fst (scroll_to_bottom ?D (JNum 3000) ?s) = Some (Inr ())"
    by simp
  from scroll_to_bottom_converges[where drv = ?D and s = ?z and last_height = "JNum 1000"
      and H = 3000 and ?d0.0 = browser0 and bs = ?S
      and search_url = "''https://www.booking.com/searchresults.es.html?dest_id=900&dest_type=city''"] bounded growing m
  have two: "(\<exists>r. scroll_to_bottom ?D (JNum 1000) ?z = Some r) \<and>
             (\<exists>r. scrape_listings_from_search_page ?D ?S ''https://www.booking.com/searchresults.es.html?dest_id=900&dest_type=city'' ?z = Some r)"
    by blast
  from one two show ?thesis by simp
qed

section \<open>Properties of the detail enricher\<close>

lemma scrape_detail_returns: "\<exists>dd s'. scrape_detail_page_data drv bs s = (Inr dd, s')"
  by (auto simp: scrape_detail_page_data_def split: prod.splits sum.splits)

lemma read_detail_nothing_found:
  assumes "bs_parse bs html = Inr detail_soup"
    and "bs_find bs detail_soup ''p'' ''data-testid'' ''property-description'' = Inr None"
    and "bs_select_one bs detail_soup ''a#map_trigger_header_pin'' = Inr None"
    and "bs_find bs detail_soup ''div'' ''data-testid'' ''property-most-popular-facilities-wrapper'' = Inr None"
  shows "read_detail bs html dd = dd"
  using assms
  by (simp add: read_detail_def read_description_def read_location_def read_services_def thenE_def)

text \<open>
  Claim C7. \<^verbatim>\<open>scrape_detail_page_data\<close> never raises. When the wait for the description
  element ends in an exception (the timeout of a page on which the element never appears),
  it returns the three defaults: the description and location sentinels and the empty
  list of services. The same record comes back when the page was read but holds neither
  a description, nor a map pin, nor a facilities block.
\<close>

theorem enricher_defaults_without_description:
  "(\<exists>dd s'. scrape_detail_page_data drv bs s = (Inr dd, s')) \<and>
   (until_present drv ESPERA_PAGINA_DETALLE SEL_PROPERTY_DESCRIPTION s = (Inl e, s1) \<longrightarrow>
      scrape_detail_page_data drv bs s =
        (Inr \<lparr>description = DESCRIPCION_NO_DISPONIBLE, location = UBICACION_NO_DISPONIBLE,
               services = []\<rparr>, s1)) \<and>
   (until_present drv ESPERA_PAGINA_DETALLE SEL_PROPERTY_DESCRIPTION s = (Inr w, s1) \<and>
    page_source drv s1 = (Inr html, s2) \<and> bs_parse bs html = Inr detail_soup \<and>
    bs_find bs detail_soup ''p'' ''data-testid'' ''property-description'' = Inr None \<and>
    bs_select_one bs detail_soup ''a#map_trigger_header_pin'' = Inr None \<and>
    bs_find bs detail_soup ''div'' ''data-testid'' ''property-most-popular-facilities-wrapper'' = Inr None \<longrightarrow>
      scrape_detail_page_data drv bs s =
        (Inr \<lparr>description = DESCRIPCION_NO_DISPONIBLE, location = UBICACION_NO_DISPONIBLE,
               services = []\<rparr>, s2))"
proof (intro conjI impI)
  show "\<exists>dd s'. scrape_detail_page_data drv bs s = (Inr dd, s')"
    by (rule scrape_detail_returns)
next
  assume "until_present drv ESPERA_PAGINA_DETALLE SEL_PROPERTY_DESCRIPTION s = (Inl e, s1)"
  then show "scrape_detail_page_data drv bs s =
        (Inr \<lparr>description = DESCRIPCION_NO_DISPONIBLE, location = UBICACION_NO_DISPONIBLE,
               services = []\<rparr>, s1)"
    by (simp add: scrape_detail_page_data_def detail_defaults_def)
next
  assume h: "until_present drv ESPERA_PAGINA_DETALLE SEL_PROPERTY_DESCRIPTION s = (Inr w, s1) \<and>
    page_source drv s1 = (Inr html, s2) \<and> bs_parse bs html = Inr detail_soup \<and>
    bs_find bs detail_soup ''p'' ''data-testid'' ''property-description'' = Inr None \<and>
    bs_select_one bs detail_soup ''a#map_trigger_header_pin'' = Inr None \<and>
    bs_find bs detail_soup ''div'' ''data-testid'' ''property-most-popular-facilities-wrapper'' = Inr None"
  then have "read_detail bs html detail_defaults = detail_defaults"
    by (intro read_detail_nothing_found) auto
  with h show "scrape_detail_page_data drv bs s =
        (Inr \<lparr>description = DESCRIPCION_NO_DISPONIBLE, location = UBICACION_NO_DISPONIBLE,
               services = []\<rparr>, s2)"
    by (simp add: scrape_detail_page_data_def detail_defaults_def)
qed

theorem enricher_defaults_without_description_witness:
  "fst (scrape_detail_page_data (site_driver (search_site [])) (site_soup (search_site [])) (browser0, [])) =
     Inr \<lparr>description = DESCRIPCION_NO_DISPONIBLE, location = UBICACION_NO_DISPONIBLE, services = []\<rparr>"
proof -
  let ?D = "site_driver (search_site [])"
  let ?s = "(browser0, []) :: (browser, elem) session"
  have a: "until_present ?D ESPERA_PAGINA_DETALLE SEL_PROPERTY_DESCRIPTION ?s =
      (Inl TimeoutException, snd (until_present ?D ESPERA_PAGINA_DETALLE SEL_PROPERTY_DESCRIPTION ?s))"
    by (rule pair_fstI) code_simp
  from enricher_defaults_without_description[where drv = ?D and s = ?s and e = TimeoutException
      and ?s1.0 = "snd (until_present ?D ESPERA_PAGINA_DETALLE SEL_PROPERTY_DESCRIPTION ?s)"
      and bs = "site_soup (search_site [])", THEN conjunct2, THEN conjunct1] a
  show ?thesis by simp
qed

section \<open>Properties of the card extraction\<close>

lemma extract_listings_map_filter:
  "extract_listings bs cards acc = acc @ List.map_filter (harvested bs) cards"
  by (induction cards arbitrary: acc) (auto simp: harvested_def List.map_filter_simps split: sum.splits)

lemma extract_listings_length:
  "(\<forall>c \<in> set cards. harvested bs c \<noteq> None) \<Longrightarrow> length (extract_listings bs cards []) = length cards"
  unfolding extract_listings_map_filter
  by (induction cards) (auto simp: List.map_filter_simps split: option.splits)

lemma thenE_InrE:
  assumes "thenE r f = Inr y"
  obtains x where "r = Inr x" and "f x = Inr y"
  using assms by (cases r) (auto simp: thenE_def)

lemma find_or_None: "find_or (Inr None) b = b"
  by (simp add: find_or_def thenE_def)

lemma extract_listing_sentinels:
  assumes "extract_listing bs c = Inr l"
  shows "(bs_find bs c ''div'' ''data-testid'' ''title'' = Inr None \<longrightarrow> listing.title l = NOMBRE_NO_DISPONIBLE) \<and>
         (bs_find bs c ''span'' ''data-testid'' ''price-and-discounted-price'' = Inr None \<and>
          bs_select_one bs c SEL_PRICE_FOR_X_NIGHTS = Inr None \<longrightarrow> price l = PRECIO_NO_DISPONIBLE) \<and>
         (bs_find bs c ''a'' ''data-testid'' ''title-link'' = Inr None \<and>
          bs_find bs c ''a'' ''data-testid'' ''availability-cta-btn'' = Inr None \<longrightarrow> url l = Some []) \<and>
         (bs_select_one bs c SEL_REVIEW_SCORE = Inr None \<longrightarrow> rating l = SIN_PUNTUACION) \<and>
         (bs_find_by bs c (is_beach_badge bs) = Inr None \<longrightarrow> beach_distance l = SIN_CALIFICACION) \<and>
         (bs_find bs c ''span'' ''data-testid'' ''distance'' = Inr None \<longrightarrow> distance l = DISTANCIA_NO_DISPONIBLE) \<and>
         (bs_select bs c ''ul > li > span'' = Inr [] \<longrightarrow> features l = []) \<and>
         (bs_find bs c ''div'' ''data-testid'' ''payment-policy-tags'' = Inr None \<longrightarrow> payment_policy l = []) \<and>
         detail l = None \<and> reviews l = None"
  using assms unfolding extract_listing_def
  apply (elim thenE_InrE)
  apply (auto simp: find_or_None)
  done

lemma extract_listing_nothing_found:
  assumes "bs_find bs c ''div'' ''data-testid'' ''title'' = Inr None"
    and "bs_find bs c ''span'' ''data-testid'' ''price-and-discounted-price'' = Inr None"
    and "bs_select_one bs c SEL_PRICE_FOR_X_NIGHTS = Inr None"
    and "bs_find bs c ''a'' ''data-testid'' ''title-link'' = Inr None"
    and "bs_find bs c ''a'' ''data-testid'' ''availability-cta-btn'' = Inr None"
    and "bs_select_one bs c SEL_REVIEW_SCORE = Inr None"
    and "bs_find_by bs c (is_beach_badge bs) = Inr None"
    and "bs_find bs c ''span'' ''data-testid'' ''distance'' = Inr None"
    and "bs_select bs c ''ul > li > span'' = Inr []"
    and "bs_find bs c ''div'' ''data-testid'' ''payment-policy-tags'' = Inr None"
  shows "extract_listing bs c =
     Inr \<lparr>listing.title = NOMBRE_NO_DISPONIBLE, price = PRECIO_NO_DISPONIBLE, rating = SIN_PUNTUACION,
          distance = DISTANCIA_NO_DISPONIBLE, features = [], payment_policy = [], url = Some [],
          beach_distance = SIN_CALIFICACION, detail = None, reviews = None\<rparr>"
  by (simp add: extract_listing_def assms thenE_def find_or_None)

lemma extract_listings_skips:
  assumes "extract_listing bs c = Inl e"
  shows "extract_listings bs (ahead @ c # behind) [] = extract_listings bs (ahead @ behind) []"
  using assms by (simp add: extract_listings_map_filter List.map_filter_def harvested_def)

text \<open>
  Claim C8. The harvest of a page is, in order, the listing of every card whose
  extraction did not raise: a card that raises is skipped and the cards after it are
  still harvested. In a card that was extracted, a field whose element is missing holds
  the sentinel of that field, and a card with no element at all is still extracted, with
  every sentinel. When no card raises there are as many listings as cards; three cards,
  one of them without a price element, give three listings, the incomplete one with the
  price sentinel.
\<close>

theorem cards_guarded:
  "extract_listings bs cards [] = List.map_filter (harvested bs) cards \<and>
   (extract_listing bs c = Inl e \<longrightarrow>
      extract_listings bs (ahead @ c # behind) [] = extract_listings bs (ahead @ behind) []) \<and>
   ((\<forall>k \<in> set cards. harvested bs k \<noteq> None) \<longrightarrow>
      length (extract_listings bs cards []) = length cards) \<and>
   (extract_listing bs c = Inr l \<longrightarrow>
      (bs_find bs c ''div'' ''data-testid'' ''title'' = Inr None \<longrightarrow>
         listing.title l = NOMBRE_NO_DISPONIBLE) \<and>
      (bs_find bs c ''span'' ''data-testid'' ''price-and-discounted-price'' = Inr None \<and>
       bs_select_one bs c SEL_PRICE_FOR_X_NIGHTS = Inr None \<longrightarrow> price l = PRECIO_NO_DISPONIBLE) \<and>
      (bs_find bs c ''a'' ''data-testid'' ''title-link'' = Inr None \<and>
       bs_find bs c ''a'' ''data-testid'' ''availability-cta-btn'' = Inr None \<longrightarrow> url l = Some []) \<and>
      (bs_select_one bs c SEL_REVIEW_SCORE = Inr None \<longrightarrow> rating l = SIN_PUNTUACION) \<and>
      (bs_find_by bs c (is_beach_badge bs) = Inr None \<longrightarrow> beach_distance l = SIN_CALIFICACION) \<and>
      (bs_find bs c ''span'' ''data-testid'' ''distance'' = Inr None \<longrightarrow>
         distance l = DISTANCIA_NO_DISPONIBLE) \<and>
      (bs_select bs c ''ul > li > span'' = Inr [] \<longrightarrow> features l = []) \<and>
      (bs_find bs c ''div'' ''data-testid'' ''payment-policy-tags'' = Inr None \<longrightarrow>
         payment_policy l = [])) \<and>
   (bs_find bs c ''div'' ''data-testid'' ''title'' = Inr None \<and>
    bs_find bs c ''span'' ''data-testid'' ''price-and-discounted-price'' = Inr None \<and>
    bs_select_one bs c SEL_PRICE_FOR_X_NIGHTS = Inr None \<and>
    bs_find bs c ''a'' ''data-testid'' ''title-link'' = Inr None \<and>
    bs_find bs c ''a'' ''data-testid'' ''availability-cta-btn'' = Inr None \<and>
    bs_select_one bs c SEL_REVIEW_SCORE = Inr None \<and>
    bs_find_by bs c (is_beach_badge bs) = Inr None \<and>
    bs_find bs c ''span'' ''data-testid'' ''distance'' = Inr None \<and>
    bs_select bs c ''ul > li > span'' = Inr [] \<and>
    bs_find bs c ''div'' ''data-testid'' ''payment-policy-tags'' = Inr None \<longrightarrow>
      extract_listing bs c =
        Inr \<lparr>listing.title = NOMBRE_NO_DISPONIBLE, price = PRECIO_NO_DISPONIBLE,
             rating = SIN_PUNTUACION, distance = DISTANCIA_NO_DISPONIBLE, features = [],
             payment_policy = [], url = Some [], beach_distance = SIN_CALIFICACION,
             detail = None, reviews = None\<rparr>)"
proof (intro conjI)
  show "extract_listings bs cards [] = List.map_filter (harvested bs) cards"
    by (simp add: extract_listings_map_filter)
  show "extract_listing bs c = Inl e \<longrightarrow>
      extract_listings bs (ahead @ c # behind) [] = extract_listings bs (ahead @ behind) []"
    by (rule impI) (rule extract_listings_skips)
  show "(\<forall>k \<in> set cards. harvested bs k \<noteq> None) \<longrightarrow>
      length (extract_listings bs cards []) = length cards"
    using extract_listings_length by blast
  show "extract_listing bs c = Inr l \<longrightarrow>
      (bs_find bs c ''div'' ''data-testid'' ''title'' = Inr None \<longrightarrow>
         listing.title l = NOMBRE_NO_DISPONIBLE) \<and>
      (bs_find bs c ''span'' ''data-testid'' ''price-and-discounted-price'' = Inr None \<and>
       bs_select_one bs c SEL_PRICE_FOR_X_NIGHTS = Inr None \<longrightarrow> price l = PRECIO_NO_DISPONIBLE) \<and>
      (bs_find bs c ''a'' ''data-testid'' ''title-link'' = Inr None \<and>
       bs_find bs c ''a'' ''data-testid'' ''availability-cta-btn'' = Inr None \<longrightarrow> url l = Some []) \<and>
      (bs_select_one bs c SEL_REVIEW_SCORE = Inr None \<longrightarrow> rating l = SIN_PUNTUACION) \<and>
      (bs_find_by bs c (is_beach_badge bs) = Inr None \<longrightarrow> beach_distance l = SIN_CALIFICACION) \<and>
      (bs_find bs c ''span'' ''data-testid'' ''distance'' = Inr None \<longrightarrow>
         distance l = DISTANCIA_NO_DISPONIBLE) \<and>
      (bs_select bs c ''ul > li > span'' = Inr [] \<longrightarrow> features l = []) \<and>
      (bs_find bs c ''div'' ''data-testid'' ''payment-policy-tags'' = Inr None \<longrightarrow>
         payment_policy l = [])"
    using extract_listing_sentinels[of bs c l] by blast
  show "bs_find bs c ''div'' ''data-testid'' ''title'' = Inr None \<and>
    bs_find bs c ''span'' ''data-testid'' ''price-and-discounted-price'' = Inr None \<and>
    bs_select_one bs c SEL_PRICE_FOR_X_NIGHTS = Inr None \<and>
    bs_find bs c ''a'' ''data-testid'' ''title-link'' = Inr None \<and>
    bs_find bs c ''a'' ''data-testid'' ''availability-cta-btn'' = Inr None \<and>
    bs_select_one bs c SEL_REVIEW_SCORE = Inr None \<and>
    bs_find_by bs c (is_beach_badge bs) = Inr None \<and>
    bs_find bs c ''span'' ''data-testid'' ''distance'' = Inr None \<and>
    bs_select bs c ''ul > li > span'' = Inr [] \<and>
    bs_find bs c ''div'' ''data-testid'' ''payment-policy-tags'' = Inr None \<longrightarrow>
      extract_listing bs c =
        Inr \<lparr>listing.title = NOMBRE_NO_DISPONIBLE, price = PRECIO_NO_DISPONIBLE,
             rating = SIN_PUNTUACION, distance = DISTANCIA_NO_DISPONIBLE, features = [],
             payment_policy = [], url = Some [], beach_distance = SIN_CALIFICACION,
             detail = None, reviews = None\<rparr>"
    using extract_listing_nothing_found[of bs c] by blast
qed

theorem cards_guarded_witness:
  "map_option fst
     (scrape_listings_from_search_page (site_driver (results_site three_cards 3000))
        (site_soup (results_site three_cards 3000)) ''https://www.booking.com/searchresults.es.html?dest_id=900&dest_type=city'' (browser0, [])) =
     Some (Inr (extract_listings (site_soup (results_site three_cards 3000)) three_cards [])) \<and>
   length (extract_listings (site_soup (results_site three_cards 3000)) three_cards []) = 3 \<and>
   extract_listing (site_soup (results_site three_cards 3000))
     (property_card ''Hostal Dos'' None ''/hotel/ec/dos.html'') = Inr \<lparr>listing.title = ''Hostal Dos'', price = PRECIO_NO_DISPONIBLE, rating = SIN_PUNTUACION,
        distance = ''a 2 km del centro'', features = ''1 cama doble'', payment_policy = [],
        url = Some ''/hotel/ec/dos.html'', beach_distance = ''Frente a la playa'',
        detail = None, reviews = None\<rparr> \<and>
   price \<lparr>listing.title = ''Hostal Dos'', price = PRECIO_NO_DISPONIBLE, rating = SIN_PUNTUACION,
        distance = ''a 2 km del centro'', features = ''1 cama doble'', payment_policy = [],
        url = Some ''/hotel/ec/dos.html'', beach_distance = ''Frente a la playa'',
        detail = None, reviews = None\<rparr> = PRECIO_NO_DISPONIBLE \<and>
   extract_listings (site_soup (results_site three_cards 3000))
     ([property_card ''Hostal Dos'' None ''/hotel/ec/dos.html''] @ Broken #
      [property_card ''Casa Tres'' (Some ''US$80'') ''http:/www.booking.com/hotel/ec/tres.html'']) [] =
   extract_listings (site_soup (results_site three_cards 3000))
     ([property_card ''Hostal Dos'' None ''/hotel/ec/dos.html''] @
      [property_card ''Casa Tres'' (Some ''US$80'') ''http:/www.booking.com/hotel/ec/tres.html'']) []"
proof -
  let ?S = "site_soup (results_site three_cards 3000)"
  let ?c = "property_card ''Hostal Dos'' None ''/hotel/ec/dos.html''"
  let ?l = "\<lparr>listing.title = ''Hostal Dos'', price = PRECIO_NO_DISPONIBLE, rating = SIN_PUNTUACION,
        distance = ''a 2 km del centro'', features = ''1 cama doble'', payment_policy = [],
        url = Some ''/hotel/ec/dos.html'', beach_distance = ''Frente a la playa'',
        detail = None, reviews = None\<rparr>"
  note t = cards_guarded[where bs = ?S and cards = three_cards and c = ?c and l = ?l]
  have run: "map_option fst
     (scrape_listings_from_search_page (site_driver (results_site three_cards 3000)) ?S ''https://www.booking.com/searchresults.es.html?dest_id=900&dest_type=city'' (browser0, [])) =
     Some (Inr (extract_listings ?S three_cards []))"
    by code_simp
  have all: "\<forall>k \<in> set three_cards. harvested ?S k \<noteq> None"
    by code_simp
  have ex: "extract_listing ?S ?c = Inr ?l"
    by code_simp
  have missing: "bs_find ?S ?c ''span'' ''data-testid'' ''price-and-discounted-price'' = Inr None \<and>
       bs_select_one ?S ?c SEL_PRICE_FOR_X_NIGHTS = Inr None"
    by code_simp
  have broken: "extract_listing ?S Broken = Inl OtherException"
    by code_simp
  have three: "length three_cards = 3"
    by code_simp
  from t all have "length (extract_listings ?S three_cards []) = length three_cards"
    by blast
  with three have len: "length (extract_listings ?S three_cards []) = 3"
    by simp
  from t ex missing have sentinel: "price ?l = PRECIO_NO_DISPONIBLE"
    by blast
  from cards_guarded[where bs = ?S and c = Broken and e = OtherException
      and ahead = "[?c]" and behind = "[property_card ''Casa Tres'' (Some ''US$80'') ''http:/www.booking.com/hotel/ec/tres.html'']"] broken
  have skip: "extract_listings ?S ([?c] @ Broken # [property_card ''Casa Tres'' (Some ''US$80'') ''http:/www.booking.com/hotel/ec/tres.html'']) [] =
      extract_listings ?S ([?c] @ [property_card ''Casa Tres'' (Some ''US$80'') ''http:/www.booking.com/hotel/ec/tres.html'']) []"
    by blast
  from run len ex sentinel skip show ?thesis by blast
qed

section \<open>Properties of the orchestrator\<close>

subsection \<open>The log only grows\<close>

lemma grows_refl: "grows s s"
  by (simp add: grows_def)

lemma grows_trans: "grows s s1 \<Longrightarrow> grows s1 s2 \<Longrightarrow> grows s s2"
  by (auto simp: grows_def)

lemma invoke_grows: "invoke c f s = (r, s') \<Longrightarrow> grows s s'"
  by (auto simp: grows_def dest: invoke_log)

lemma sleep_grows: "grows s (sleep drv ms s)" "grows s (sleep_uniform drv lo hi s)"
  by (simp_all add: grows_def sleep_def sleep_uniform_def)

lemma op_grows:
  "execute_script drv js args s = (rj, s') \<Longrightarrow> grows s s'"
  "find_element drv css s = (rw, s') \<Longrightarrow> grows s s'"
  "elem_find_element drv w css s = (rw, s') \<Longrightarrow> grows s s'"
  "is_enabled drv w s = (rb, s') \<Longrightarrow> grows s s'"
  "until_clickable drv t css s = (rw, s') \<Longrightarrow> grows s s'"
  "until_present drv t css s = (rw, s') \<Longrightarrow> grows s s'"
  "page_source drv s = (rs, s') \<Longrightarrow> grows s s'"
  by (auto simp: execute_script_def find_element_def elem_find_element_def is_enabled_def
      until_clickable_def until_present_def page_source_def dest: invoke_grows)

lemma scroll_modal_loop_grows: "grows s (scroll_modal_loop drv modal n last_height s)"
proof (induction n arbitrary: last_height s)
  case 0
  then show ?case by (simp add: grows_refl)
next
  case (Suc n)
  have ih: "\<And>h x. grows x (scroll_modal_loop drv modal n h x)" by (rule Suc.IH)
  show ?case
    apply (auto split: prod.splits sum.splits dest!: op_grows(1))
        apply (blast intro: grows_trans sleep_grows(1) ih)+
    done
qed

lemma parse_visible_reviews_grows: "parse_visible_reviews drv bs s = (r, s') \<Longrightarrow> grows s s'"
  by (auto simp: parse_visible_reviews_def bind_def split: prod.splits sum.splits dest!: op_grows(7))

lemma click_next_page_grows: "click_next_page drv s = (adv, s') \<Longrightarrow> grows s s'"
  unfolding click_next_page_def
  apply (auto split: prod.splits sum.splits if_splits dest!: op_grows)
      apply (blast intro: grows_trans sleep_grows(1))+
  done

lemma paginate_grows: "paginate drv bs modal pages acc s = (r, s') \<Longrightarrow> grows s s'"
proof (induction pages arbitrary: acc s)
  case Nil
  then show ?case by (simp add: grows_refl)
next
  case (Cons page pages)
  have a: "grows s (scroll_modal_completely drv modal s)"
    by (simp add: scroll_modal_completely_def scroll_modal_loop_grows)
  from Cons.prems show ?case
    apply (auto split: prod.splits sum.splits if_splits
        dest!: parse_visible_reviews_grows click_next_page_grows Cons.IH)
      apply (blast intro: grows_trans a)+
    done
qed

lemma close_modal_grows: "grows s (close_modal drv modal s)"
  unfolding close_modal_def
  apply (auto split: prod.splits sum.splits dest!: op_grows)
  apply (metis grows_trans op_grows(1) prod.collapse)
  done

lemma scrape_reviews_from_modal_grows:
  "scrape_reviews_from_modal drv bs max_pages s = (r, s') \<Longrightarrow> grows s s'"
  unfolding scrape_reviews_from_modal_def bind_def
  apply (auto split: prod.splits sum.splits if_splits dest!: op_grows paginate_grows)
       apply (blast intro: grows_trans close_modal_grows)+
  done

lemma scrape_detail_page_data_grows:
  "scrape_detail_page_data drv bs s = (r, s') \<Longrightarrow> grows s s'"
  unfolding scrape_detail_page_data_def
  apply (auto split: prod.splits sum.splits dest!: op_grows)
  apply (blast intro: grows_trans)+
  done

lemma get_log: "get drv a s = (r, s1) \<Longrightarrow> snd s1 = snd s @ [(CGet a, returned r)]"
  unfolding get_def by (rule invoke_log)

lemma procesar_listing_skips:
  "\<not> url_valida (url l) \<Longrightarrow> procesar_listing drv bs l s = (l, s)"
  by (auto simp: procesar_listing_def url_valida_def split: option.splits)

lemma procesar_listing_navigates:
  assumes "url_valida (url l)"
  shows "\<exists>a ok later. url l = Some a \<and>
           snd (snd (procesar_listing drv bs l s)) = snd s @ (CGet a, ok) # later"
proof -
  from assms obtain a where a: "url l = Some a" "a \<noteq> []" "startswith a ''http''"
    by (auto simp: url_valida_def split: option.splits)
  obtain r1 s1 where g: "get drv a s = (r1, s1)"
    by (cases "get drv a s") auto
  note lg = get_log[OF g]
  have "grows s1 (snd (procesar_listing drv bs l s))"
  proof (cases r1)
    case (Inl e)
    with a g show ?thesis by (simp add: procesar_listing_def grows_refl)
  next
    case r1: (Inr u)
    obtain r2 s2 where d: "scrape_detail_page_data drv bs (sleep_uniform drv 2000 4000 s1) = (r2, s2)"
      by (cases "scrape_detail_page_data drv bs (sleep_uniform drv 2000 4000 s1)") auto
    have g2: "grows s1 s2"
      using grows_trans[OF sleep_grows(2) scrape_detail_page_data_grows[OF d]] .
    show ?thesis
    proof (cases r2)
      case (Inl e)
      with a g r1 d g2 show ?thesis by (simp add: procesar_listing_def)
    next
      case r2: (Inr dd)
      obtain r3 s3 where rv: "scrape_reviews_from_modal drv bs MAX_PAGINAS_RESENAS s2 = (r3, s3)"
        by (cases "scrape_reviews_from_modal drv bs MAX_PAGINAS_RESENAS s2") auto
      have "grows s1 s3"
        using grows_trans[OF g2 scrape_reviews_from_modal_grows[OF rv]] .
      with a g r1 d r2 rv show ?thesis
        by (cases r3) (simp_all add: procesar_listing_def)
    qed
  qed
  then obtain later where "snd (snd (procesar_listing drv bs l s)) = snd s1 @ later"
    by (auto simp: grows_def)
  with lg a(1) show ?thesis by simp
qed

lemma procesar_listing_keeps:
  "as_harvested (fst (procesar_listing drv bs l s)) = as_harvested l"
  by (auto simp: procesar_listing_def as_harvested_def split: option.splits prod.splits sum.splits)

lemma procesar_listings_keeps:
  "map as_harvested (fst (procesar_listings drv bs ls s)) = map as_harvested ls"
proof (induction ls arbitrary: s)
  case Nil
  then show ?case by simp
next
  case (Cons l ls)
  obtain l' s1 where a: "procesar_listing drv bs l s = (l', s1)"
    by (cases "procesar_listing drv bs l s") auto
  obtain ls' s2 where b: "procesar_listings drv bs ls s1 = (ls', s2)"
    by (cases "procesar_listings drv bs ls s1") auto
  from procesar_listing_keeps[of drv bs l s] a have "as_harvested l' = as_harvested l" by simp
  moreover from Cons.IH[of s1] b have "map as_harvested ls' = map as_harvested ls" by simp
  ultimately show ?case using a b by simp
qed

lemma procesar_listings_length:
  "length (fst (procesar_listings drv bs ls s)) = length ls"
  using procesar_listings_keeps[of drv bs ls s, THEN arg_cong, of length] by simp

lemma procesar_listings_skipped:
  "i < length ls \<Longrightarrow> \<not> url_valida (url (ls ! i)) \<Longrightarrow>
     fst (procesar_listings drv bs ls s) ! i = ls ! i"
proof (induction ls arbitrary: s i)
  case Nil
  then show ?case by simp
next
  case (Cons l ls)
  obtain l' s1 where a: "procesar_listing drv bs l s = (l', s1)"
    by (cases "procesar_listing drv bs l s") auto
  obtain ls' s2 where b: "procesar_listings drv bs ls s1 = (ls', s2)"
    by (cases "procesar_listings drv bs ls s1") auto
  show ?case
  proof (cases i)
    case 0
    with Cons.prems a b procesar_listing_skips[of l drv bs s] show ?thesis by simp
  next
    case (Suc j)
    with Cons.prems have "j < length ls" "\<not> url_valida (url (ls ! j))" by simp_all
    from Cons.IH[OF this, of s1] a b Suc show ?thesis by simp
  qed
qed

subsection \<open>What a destination writes\<close>

lemma extract_listings_fresh:
  assumes "l \<in> set (extract_listings bs cards [])"
  shows "as_harvested l = l"
proof -
  from assms obtain c where "harvested bs c = Some l"
    by (auto simp: extract_listings_map_filter List.map_filter_def)
  then have "extract_listing bs c = Inr l"
    by (auto simp: harvested_def split: sum.splits)
  from extract_listing_sentinels[OF this] show ?thesis
    by (simp add: as_harvested_def)
qed

lemma read_listings_fresh:
  assumes "read_listings drv bs s = (Inr found, s')" and "l \<in> set found"
  shows "as_harvested l = l"
  using assms
  by (auto simp: read_listings_def bind_def thenE_def split: prod.splits sum.splits
      dest: extract_listings_fresh)

lemma scrape_listings_fresh:
  assumes "scrape_listings_from_search_page drv bs target s = Some (Inr found, s')"
  shows "map as_harvested found = found"
proof -
  have "as_harvested l = l" if "l \<in> set found" for l
    using assms that
    by (auto simp: scrape_listings_from_search_page_def
        split: prod.splits sum.splits if_splits option.splits dest: read_listings_fresh)
  then show ?thesis by (simp add: map_idI)
qed

lemma save_to_json_saved:
  assumes "save_to_json drv doc filename run = (r, run')"
  shows "snd run' = snd run \<or> snd run' = snd run @ [(filename, doc)]"
  using assms by (auto simp: save_to_json_def split: prod.splits sum.splits if_splits)

lemma procesar_destino_record:
  assumes "procesar_destino drv bs ciudad config run = Some (r, run')"
  shows "snd run' = snd run \<or>
         (\<exists>found s1 rec.
            scrape_listings_from_search_page drv bs
              (generar_url_busqueda (fst config) (snd config) FECHA_CHECKIN FECHA_CHECKOUT) (fst run) =
              Some (Inr found, s1) \<and>
            snd run' = snd run @ [(nombre_archivo ciudad, Resultado rec)] \<and>
            total_alojamientos rec = length (alojamientos rec) \<and>
            alojamientos rec = fst (procesar_listings drv bs found s1))"
proof -
  let ?target = "generar_url_busqueda (fst config) (snd config) FECHA_CHECKIN FECHA_CHECKOUT"
  from assms obtain x s1 where h: "scrape_listings_from_search_page drv bs ?target (fst run) = Some (x, s1)"
    by (cases "scrape_listings_from_search_page drv bs ?target (fst run)")
       (auto simp: procesar_destino_def)
  show ?thesis
  proof (cases x)
    case (Inl e)
    with assms h show ?thesis by (auto simp: procesar_destino_def)
  next
    case x: (Inr found)
    show ?thesis
    proof (cases "found = []")
      case True
      with assms h x show ?thesis by (auto simp: procesar_destino_def)
    next
      case False
      obtain props s2 where p: "procesar_listings drv bs found s1 = (props, s2)"
        by (cases "procesar_listings drv bs found s1") auto
      let ?rec = "\<lparr>destino = ciudad, dest_id = fst config, dest_type = snd config,
                    fecha_checkin = FECHA_CHECKIN, fecha_checkout = FECHA_CHECKOUT,
                    fecha_scraping = wd_now_isoformat drv (fst s2),
                    total_alojamientos = length props, alojamientos = props\<rparr>"
      obtain r3 run3 where sv: "save_to_json drv (Resultado ?rec) (nombre_archivo ciudad) (s2, snd run) = (r3, run3)"
        by (cases "save_to_json drv (Resultado ?rec) (nombre_archivo ciudad) (s2, snd run)") auto
      from assms h x False p sv have "snd run' = snd run3"
        by (cases r3) (auto simp: procesar_destino_def)
      with save_to_json_saved[OF sv]
      have "snd run' = snd run \<or> snd run' = snd run @ [(nombre_archivo ciudad, Resultado ?rec)]"
        by simp
      then show ?thesis
      proof
        assume "snd run' = snd run"
        then show ?thesis by simp
      next
        assume "snd run' = snd run @ [(nombre_archivo ciudad, Resultado ?rec)]"
        with h x p show ?thesis by (intro disjI2 exI[of _ found] exI[of _ s1] exI[of _ ?rec]) simp
      qed
    qed
  qed
qed

lemma procesar_destino_counted:
  assumes "procesar_destino drv bs ciudad config run = Some (r, run')"
    and "list_all (\<lambda>fd. counted (snd fd)) (snd run)"
  shows "list_all (\<lambda>fd. counted (snd fd)) (snd run')"
  using procesar_destino_record[OF assms(1)] assms(2) by auto

lemma procesar_destinos_counted:
  assumes "procesar_destinos drv bs ds run = Some (r, run')"
    and "list_all (\<lambda>fd. counted (snd fd)) (snd run)"
  shows "list_all (\<lambda>fd. counted (snd fd)) (snd run')"
  using assms
proof (induction ds arbitrary: run)
  case Nil
  then show ?case by simp
next
  case (Cons d ds)
  obtain ciudad config where d: "d = (ciudad, config)" by (cases d)
  from Cons.prems(1) obtain x run1 where
    a: "procesar_destino drv bs ciudad config run = Some (x, run1)"
    unfolding d by (cases "procesar_destino drv bs ciudad config run") auto
  note c1 = procesar_destino_counted[OF a Cons.prems(2)]
  show ?case
  proof (cases x)
    case (Inl e)
    with Cons.prems(1) a c1 show ?thesis unfolding d by simp
  next
    case (Inr written)
    with Cons.prems(1) a have "procesar_destinos drv bs ds run1 = Some (r, run')"
      unfolding d by simp
    from Cons.IH[OF this c1] show ?thesis .
  qed
qed

lemma main_try_counted:
  assumes "main_try lib drv bs (s, []) = Some (r, run')"
  shows "list_all (\<lambda>fd. counted (snd fd)) (snd run')"
proof -
  obtain r1 s1 where a: "buscar_destinos lib drv DESTINOS_NOMBRES [] s = (r1, s1)"
    by (cases "buscar_destinos lib drv DESTINOS_NOMBRES [] s") auto
  show ?thesis
  proof (cases r1)
    case (Inl e)
    with assms a show ?thesis by (auto simp: main_try_def)
  next
    case r1: (Inr destinos_config)
    obtain r2 run2 where sv: "save_to_json drv (DestinosIds destinos_config)
        (CARPETA_SALIDA @ ''/destinos_ids.json'') (s1, []) = (r2, run2)"
      by (cases "save_to_json drv (DestinosIds destinos_config)
        (CARPETA_SALIDA @ ''/destinos_ids.json'') (s1, [])") auto
    from save_to_json_saved[OF sv] have c2: "list_all (\<lambda>fd. counted (snd fd)) (snd run2)"
      by auto
    show ?thesis
    proof (cases r2)
      case (Inl e)
      with assms a r1 sv c2 show ?thesis by (auto simp: main_try_def)
    next
      case (Inr u)
      with assms a r1 sv have "procesar_destinos drv bs destinos_config run2 = Some (r, run')"
        by (simp add: main_try_def)
      from procesar_destinos_counted[OF this c2] show ?thesis .
    qed
  qed
qed

lemma main_counted:
  assumes "main lib drv bs (s, []) = Some (r, run')"
  shows "list_all (\<lambda>fd. counted (snd fd)) (snd run')"
proof -
  from assms obtain x run1 where a: "main_try lib drv bs (s, []) = Some (x, run1)"
    by (cases "main_try lib drv bs (s, [])") (auto simp: main_def)
  from assms a have "snd run' = snd run1"
    by (auto simp: main_def split: prod.splits sum.splits)
  with main_try_counted[OF a] show ?thesis by simp
qed

lemma option_fstE:
  assumes "map_option fst x = Some a"
  obtains b where "x = Some (a, b)"
  using assms by (cases x) auto

lemma scrape_detail_page_data_returns:
  "\<exists>dd s'. scrape_detail_page_data drv bs s = (Inr dd, s')"
  by (auto simp: scrape_detail_page_data_def split: prod.splits sum.splits)

lemma procesar_listing_get_raises:
  assumes "url l = Some a" and "url_valida (url l)" and "get drv a s = (Inl e, s1)"
  shows "procesar_listing drv bs l s = (l, s1)"
  using assms by (simp add: procesar_listing_def url_valida_def)

lemma procesar_listing_enriches:
  assumes "url l = Some a" and "url_valida (url l)" and "get drv a s = (Inr u, s1)"
    and "scrape_detail_page_data drv bs (sleep_uniform drv 2000 4000 s1) = (Inr dd, s2)"
  shows "detail (fst (procesar_listing drv bs l s)) = Some dd"
    and "scrape_reviews_from_modal drv bs MAX_PAGINAS_RESENAS s2 = (Inl e, s3) \<Longrightarrow>
         procesar_listing drv bs l s = (l\<lparr>detail := Some dd\<rparr>, s3)"
    and "scrape_reviews_from_modal drv bs MAX_PAGINAS_RESENAS s2 = (Inr rs, s3) \<Longrightarrow>
         procesar_listing drv bs l s = (l\<lparr>detail := Some dd, reviews := Some rs\<rparr>, s3)"
  using assms
  by (auto simp: procesar_listing_def url_valida_def split: prod.splits sum.splits)

lemma procesar_listings_nth:
  "i < length ls \<Longrightarrow>
   \<exists>si. fst (procesar_listings drv bs ls s) ! i = fst (procesar_listing drv bs (ls ! i) si)"
proof (induction ls arbitrary: s i)
  case Nil
  then show ?case by simp
next
  case (Cons l ls)
  obtain l' s1 where p: "procesar_listing drv bs l s = (l', s1)"
    by (cases "procesar_listing drv bs l s") auto
  obtain ls' s2 where q: "procesar_listings drv bs ls s1 = (ls', s2)"
    by (cases "procesar_listings drv bs ls s1") auto
  show ?case
  proof (cases i)
    case 0
    with p q have "fst (procesar_listings drv bs (l # ls) s) ! i = fst (procesar_listing drv bs ((l # ls) ! i) s)"
      by simp
    then show ?thesis by blast
  next
    case (Suc j)
    with Cons.prems have "j < length ls" by simp
    from Cons.IH[OF this, of s1] obtain si where
      "fst (procesar_listings drv bs ls s1) ! j = fst (procesar_listing drv bs (ls ! j) si)"
      by blast
    with p q Suc have "fst (procesar_listings drv bs (l # ls) s) ! i = fst (procesar_listing drv bs ((l # ls) ! i) si)"
      by simp
    then show ?thesis by blast
  qed
qed

subsection \<open>Which listings are enriched\<close>

text \<open>
  Claim C9, as stated, fails in both directions, because the test of the orchestrator is a
  test of the first four characters. The address \<^verbatim>\<open>http:/www.booking.com/hotel/ec/tres.html\<close>
  is not a well-formed absolute URL, yet the listing passes the test: the first call on
  the driver is the navigation to it, and on a site that answers the listing ends up
  with a description, a location and services. The address
  \<^verbatim>\<open>ftp://example.com/hotel/uno.html\<close> is a well-formed absolute URL, yet the listing is
  skipped: nothing is called and the listing is left as it was.
\<close>

theorem orchestrator_test_is_not_well_formedness:
  "\<not> spec_absolute_url ''http:/www.booking.com/hotel/ec/tres.html'' \<and>
   take 1 (snd (snd (procesar_listing (site_driver coast_site) (site_soup coast_site)
      (listing_at ''http:/www.booking.com/hotel/ec/tres.html'') (browser0, [])))) = [(CGet ''http:/www.booking.com/hotel/ec/tres.html'', True)] \<and>
   detail (fst (procesar_listing (site_driver coast_site) (site_soup coast_site)
      (listing_at ''http:/www.booking.com/hotel/ec/tres.html'') (browser0, []))) =
     Some \<lparr>description = ''Hotel frente al mar'', location = ''-2.2,-80.9'',
            services = [''WiFi'', ''Piscina'']\<rparr> \<and>
   spec_absolute_url ''ftp://example.com/hotel/uno.html'' \<and>
   procesar_listing (site_driver coast_site) (site_soup coast_site) (listing_at ''ftp://example.com/hotel/uno.html'') (browser0, []) =
     (listing_at ''ftp://example.com/hotel/uno.html'', (browser0, []))"
  by code_simp

text \<open>
  Claim C9, amended. A listing is enriched if and only if its address is present, not empty
  and starts with \<^verbatim>\<open>http\<close>. A listing that fails this test is passed over with no call on
  the driver and no change. For a listing that passes it, the next call on the driver is
  the navigation to its address. When the navigation raises, the listing is left as it
  was. When the navigation returns, \<^verbatim>\<open>scrape_detail_page_data\<close> runs after the pause and
  returns, and the listing gets its description, location and services; then
  \<^verbatim>\<open>scrape_reviews_from_modal\<close> runs in the session the detail page left, and the listing
  gets the reviews it returns, or no reviews when it raises. In the record written for a
  destination the count is the number of harvested listings, the listings are the
  harvested ones in order, changed at most in what the detail page and the dialog add;
  every one of them is what this treatment makes of the harvested listing in some
  session, and a listing that fails the test is there as it was harvested, without
  description, location, services or reviews.
\<close>

theorem orchestrator_enriches_by_prefix:
  "(\<not> url_valida (url l) \<longrightarrow> procesar_listing drv bs l s = (l, s)) \<and>
   (url_valida (url l) \<longrightarrow>
      (\<exists>a. url l = Some a \<and>
         (\<exists>ok later. snd (snd (procesar_listing drv bs l s)) = snd s @ (CGet a, ok) # later) \<and>
         (\<forall>e s1. get drv a s = (Inl e, s1) \<longrightarrow> procesar_listing drv bs l s = (l, s1)) \<and>
         (\<forall>u s1. get drv a s = (Inr u, s1) \<longrightarrow>
            (\<exists>dd s2.
               scrape_detail_page_data drv bs (sleep_uniform drv 2000 4000 s1) = (Inr dd, s2) \<and>
               detail (fst (procesar_listing drv bs l s)) = Some dd \<and>
               (\<forall>e s3. scrape_reviews_from_modal drv bs MAX_PAGINAS_RESENAS s2 = (Inl e, s3) \<longrightarrow>
                  procesar_listing drv bs l s = (l\<lparr>detail := Some dd\<rparr>, s3)) \<and>
               (\<forall>rs s3. scrape_reviews_from_modal drv bs MAX_PAGINAS_RESENAS s2 = (Inr rs, s3) \<longrightarrow>
                  procesar_listing drv bs l s = (l\<lparr>detail := Some dd, reviews := Some rs\<rparr>, s3)))))) \<and>
   (procesar_destino drv bs ciudad config run = Some (r, run') \<longrightarrow>
      snd run' = snd run \<or>
      (\<exists>found s1 rec.
         scrape_listings_from_search_page drv bs
           (generar_url_busqueda (fst config) (snd config) FECHA_CHECKIN FECHA_CHECKOUT) (fst run) =
           Some (Inr found, s1) \<and>
         snd run' = snd run @ [(nombre_archivo ciudad, Resultado rec)] \<and>
         total_alojamientos rec = length found \<and>
         map as_harvested (alojamientos rec) = found \<and>
         (\<forall>i < length found. \<exists>si. alojamientos rec ! i = fst (procesar_listing drv bs (found ! i) si)) \<and>
         (\<forall>i < length found. \<not> url_valida (url (found ! i)) \<longrightarrow>
            alojamientos rec ! i = found ! i \<and>
            detail (alojamientos rec ! i) = None \<and> reviews (alojamientos rec ! i) = None)))"
proof (intro conjI impI)
  assume "\<not> url_valida (url l)"
  then show "procesar_listing drv bs l s = (l, s)" by (rule procesar_listing_skips)
next
  assume v: "url_valida (url l)"
  from procesar_listing_navigates[OF v, of drv bs s] obtain a ok later where
    a: "url l = Some a"
    and nav: "snd (snd (procesar_listing drv bs l s)) = snd s @ (CGet a, ok) # later"
    by blast
  have raises: "procesar_listing drv bs l s = (l, s1)" if "get drv a s = (Inl e, s1)" for e s1
    using procesar_listing_get_raises[OF a v that] .
  have returns: "\<exists>dd s2.
      scrape_detail_page_data drv bs (sleep_uniform drv 2000 4000 s1) = (Inr dd, s2) \<and>
      detail (fst (procesar_listing drv bs l s)) = Some dd \<and>
      (\<forall>e s3. scrape_reviews_from_modal drv bs MAX_PAGINAS_RESENAS s2 = (Inl e, s3) \<longrightarrow>
         procesar_listing drv bs l s = (l\<lparr>detail := Some dd\<rparr>, s3)) \<and>
      (\<forall>rs s3. scrape_reviews_from_modal drv bs MAX_PAGINAS_RESENAS s2 = (Inr rs, s3) \<longrightarrow>
         procesar_listing drv bs l s = (l\<lparr>detail := Some dd, reviews := Some rs\<rparr>, s3))"
    if g: "get drv a s = (Inr u, s1)" for u s1
  proof -
    from scrape_detail_page_data_returns[of drv bs "sleep_uniform drv 2000 4000 s1"]
    obtain dd s2 where d: "scrape_detail_page_data drv bs (sleep_uniform drv 2000 4000 s1) = (Inr dd, s2)"
      by blast
    note e = procesar_listing_enriches[OF a v g d]
    from d e(1) e(2) e(3) show ?thesis by blast
  qed
  from a nav raises returns
  show "\<exists>a. url l = Some a \<and>
         (\<exists>ok later. snd (snd (procesar_listing drv bs l s)) = snd s @ (CGet a, ok) # later) \<and>
         (\<forall>e s1. get drv a s = (Inl e, s1) \<longrightarrow> procesar_listing drv bs l s = (l, s1)) \<and>
         (\<forall>u s1. get drv a s = (Inr u, s1) \<longrightarrow>
            (\<exists>dd s2.
               scrape_detail_page_data drv bs (sleep_uniform drv 2000 4000 s1) = (Inr dd, s2) \<and>
               detail (fst (procesar_listing drv bs l s)) = Some dd \<and>
               (\<forall>e s3. scrape_reviews_from_modal drv bs MAX_PAGINAS_RESENAS s2 = (Inl e, s3) \<longrightarrow>
                  procesar_listing drv bs l s = (l\<lparr>detail := Some dd\<rparr>, s3)) \<and>
               (\<forall>rs s3. scrape_reviews_from_modal drv bs MAX_PAGINAS_RESENAS s2 = (Inr rs, s3) \<longrightarrow>
                  procesar_listing drv bs l s = (l\<lparr>detail := Some dd, reviews := Some rs\<rparr>, s3))))"
    by (intro exI[of _ a] conjI allI impI) blast+
next
  let ?target = "generar_url_busqueda (fst config) (snd config) FECHA_CHECKIN FECHA_CHECKOUT"
  assume "procesar_destino drv bs ciudad config run = Some (r, run')"
  from procesar_destino_record[OF this]
  show "snd run' = snd run \<or>
      (\<exists>found s1 rec.
         scrape_listings_from_search_page drv bs ?target (fst run) = Some (Inr found, s1) \<and>
         snd run' = snd run @ [(nombre_archivo ciudad, Resultado rec)] \<and>
         total_alojamientos rec = length found \<and>
         map as_harvested (alojamientos rec) = found \<and>
         (\<forall>i < length found. \<exists>si. alojamientos rec ! i = fst (procesar_listing drv bs (found ! i) si)) \<and>
         (\<forall>i < length found. \<not> url_valida (url (found ! i)) \<longrightarrow>
            alojamientos rec ! i = found ! i \<and>
            detail (alojamientos rec ! i) = None \<and> reviews (alojamientos rec ! i) = None))"
  proof
    assume "snd run' = snd run"
    then show ?thesis by simp
  next
    assume "\<exists>found s1 rec.
            scrape_listings_from_search_page drv bs ?target (fst run) = Some (Inr found, s1) \<and>
            snd run' = snd run @ [(nombre_archivo ciudad, Resultado rec)] \<and>
            total_alojamientos rec = length (alojamientos rec) \<and>
            alojamientos rec = fst (procesar_listings drv bs found s1)"
    then obtain found s1 rec where
      h: "scrape_listings_from_search_page drv bs ?target (fst run) = Some (Inr found, s1)"
      and sv: "snd run' = snd run @ [(nombre_archivo ciudad, Resultado rec)]"
      and tot: "total_alojamientos rec = length (alojamientos rec)"
      and al: "alojamientos rec = fst (procesar_listings drv bs found s1)"
      by blast
    note fresh = scrape_listings_fresh[OF h]
    have len: "total_alojamientos rec = length found"
      using tot al by (simp add: procesar_listings_length)
    have keep: "map as_harvested (alojamientos rec) = found"
      using al fresh by (simp add: procesar_listings_keeps)
    have each: "\<forall>i < length found. \<exists>si. alojamientos rec ! i = fst (procesar_listing drv bs (found ! i) si)"
      unfolding al using procesar_listings_nth[of _ found drv bs s1] by blast
    have skipped: "alojamientos rec ! i = found ! i \<and>
            detail (alojamientos rec ! i) = None \<and> reviews (alojamientos rec ! i) = None"
      if "i < length found" "\<not> url_valida (url (found ! i))" for i
    proof -
      from that al have eq: "alojamientos rec ! i = found ! i"
        by (simp add: procesar_listings_skipped)
      from fresh that(1) have "as_harvested (found ! i) = found ! i"
        by (metis nth_map length_map)
      then have "detail (found ! i) = None \<and> reviews (found ! i) = None"
        by (metis as_harvested_def listing.select_convs(9,10) listing.surjective listing.update_convs(9,10))
      with eq show ?thesis by simp
    qed
    from h sv len keep each skipped show ?thesis by blast
  qed
qed

theorem orchestrator_enriches_by_prefix_witness:
  "procesar_listing (site_driver coast_site) (site_soup coast_site) (listing_at ''/hotel/ec/dos.html'') (browser0, []) =
     (listing_at ''/hotel/ec/dos.html'', (browser0, [])) \<and>
   (\<exists>ok later. snd (snd (procesar_listing (site_driver coast_site) (site_soup coast_site)
      (listing_at ''https://www.booking.com/hotel/ec/uno.html'') (browser0, []))) = (CGet ''https://www.booking.com/hotel/ec/uno.html'', ok) # later) \<and>
   fst (procesar_listing (site_driver coast_site) (site_soup coast_site)
      (listing_at ''https://www.booking.com/hotel/ec/uno.html'') (browser0, [])) =
     (listing_at ''https://www.booking.com/hotel/ec/uno.html'')
       \<lparr>detail := Some \<lparr>description = ''Hotel frente al mar'', location = ''-2.2,-80.9'',
                         services = [''WiFi'', ''Piscina'']\<rparr>,
        reviews := Some [\<lparr>review.title = ''Excelente'', date = ''1 nov'',
                           negative_feedback = ''Nada'', positive_feedback = ''Todo''\<rparr>,
                         \<lparr>review.title = ''Muy bien'', date = ''2 nov'',
                           negative_feedback = ''El ruido'', positive_feedback = ''La playa''\<rparr>,
                         \<lparr>review.title = ''Regular'', date = ''4 nov'',
                           negative_feedback = ''El wifi'', positive_feedback = ''El precio''\<rparr>]\<rparr> \<and>
   fst (procesar_listing (jammed (site_driver coast_site)) (site_soup coast_site)
      (listing_at ''https://www.booking.com/hotel/ec/uno.html'') (browser0, [])) =
     (listing_at ''https://www.booking.com/hotel/ec/uno.html'')
       \<lparr>detail := Some \<lparr>description = ''Hotel frente al mar'', location = ''-2.2,-80.9'',
                         services = [''WiFi'', ''Piscina'']\<rparr>\<rparr> \<and>
   fst (procesar_listing (offline (site_driver coast_site)) (site_soup coast_site)
      (listing_at ''https://www.booking.com/hotel/ec/uno.html'') (browser0, [])) =
     listing_at ''https://www.booking.com/hotel/ec/uno.html'' \<and>
   (\<exists>run' found rec.
      procesar_destino (site_driver coast_site) (site_soup coast_site) ''Salinas'' (''900'', ''city'')
        ((browser0, []), []) = Some (Inr True, run') \<and>
      snd run' = [(''datos_booking/salinas_data.json'', Resultado rec)] \<and>
      map url found = [Some ''https://www.booking.com/hotel/ec/uno.html'', Some ''/hotel/ec/dos.html'', Some ''http:/www.booking.com/hotel/ec/tres.html''] \<and>
      total_alojamientos rec = length found \<and>
      map as_harvested (alojamientos rec) = found \<and>
      (\<exists>si. alojamientos rec ! 0 = fst (procesar_listing (site_driver coast_site) (site_soup coast_site) (found ! 0) si)) \<and>
      alojamientos rec ! 1 = found ! 1 \<and>
      detail (alojamientos rec ! 1) = None \<and> reviews (alojamientos rec ! 1) = None)"
proof -
  let ?D = "site_driver coast_site"
  let ?S = "site_soup coast_site"
  let ?z = "(browser0, []) :: (browser, elem) session"
  let ?uno = "''https://www.booking.com/hotel/ec/uno.html''"
  let ?dd = "\<lparr>description = ''Hotel frente al mar'', location = ''-2.2,-80.9'',
              services = [''WiFi'', ''Piscina'']\<rparr>"
  let ?rs = "[\<lparr>review.title = ''Excelente'', date = ''1 nov'',
                negative_feedback = ''Nada'', positive_feedback = ''Todo''\<rparr>,
              \<lparr>review.title = ''Muy bien'', date = ''2 nov'',
                negative_feedback = ''El ruido'', positive_feedback = ''La playa''\<rparr>,
              \<lparr>review.title = ''Regular'', date = ''4 nov'',
                negative_feedback = ''El wifi'', positive_feedback = ''El precio''\<rparr>]"
  let ?P = "procesar_destino ?D ?S ''Salinas'' (''900'', ''city'') (?z, [])"
  have skip_hyp: "\<not> url_valida (url (listing_at ''/hotel/ec/dos.html''))" by code_simp
  have nav_hyp: "url_valida (url (listing_at ?uno))" by code_simp
  have at_uno: "url (listing_at ?uno) = Some a \<Longrightarrow> a = ?uno" for a
    by (simp add: listing_at_def)
  from orchestrator_enriches_by_prefix[where l = "listing_at ''/hotel/ec/dos.html''" and drv = ?D and bs = ?S and s = ?z,
      THEN conjunct1] skip_hyp
  have A: "procesar_listing ?D ?S (listing_at ''/hotel/ec/dos.html'') ?z = (listing_at ''/hotel/ec/dos.html'', ?z)"
    by blast
  from orchestrator_enriches_by_prefix[where l = "listing_at ?uno" and drv = ?D and bs = ?S and s = ?z,
      THEN conjunct2, THEN conjunct1] nav_hyp
  obtain a where a: "url (listing_at ?uno) = Some a"
    and nav: "\<exists>ok later. snd (snd (procesar_listing ?D ?S (listing_at ?uno) ?z)) = snd ?z @ (CGet a, ok) # later"
    and returns: "\<forall>u s1. get ?D a ?z = (Inr u, s1) \<longrightarrow>
            (\<exists>dd s2.
               scrape_detail_page_data ?D ?S (sleep_uniform ?D 2000 4000 s1) = (Inr dd, s2) \<and>
               detail (fst (procesar_listing ?D ?S (listing_at ?uno) ?z)) = Some dd \<and>
               (\<forall>e s3. scrape_reviews_from_modal ?D ?S MAX_PAGINAS_RESENAS s2 = (Inl e, s3) \<longrightarrow>
                  procesar_listing ?D ?S (listing_at ?uno) ?z = ((listing_at ?uno)\<lparr>detail := Some dd\<rparr>, s3)) \<and>
               (\<forall>rs s3. scrape_reviews_from_modal ?D ?S MAX_PAGINAS_RESENAS s2 = (Inr rs, s3) \<longrightarrow>
                  procesar_listing ?D ?S (listing_at ?uno) ?z =
                    ((listing_at ?uno)\<lparr>detail := Some dd, reviews := Some rs\<rparr>, s3)))"
    by blast
  note a' = at_uno[OF a]
  from nav have B: "\<exists>ok later. snd (snd (procesar_listing ?D ?S (listing_at ?uno) ?z)) = (CGet ?uno, ok) # later"
    unfolding a' by simp
  let ?g1 = "snd (get ?D ?uno ?z)"
  let ?d1 = "snd (scrape_detail_page_data ?D ?S (sleep_uniform ?D 2000 4000 ?g1))"
  have g: "get ?D ?uno ?z = (Inr (), ?g1)"
    by (rule pair_fstI) code_simp
  have d: "scrape_detail_page_data ?D ?S (sleep_uniform ?D 2000 4000 ?g1) = (Inr ?dd, ?d1)"
    by (rule pair_fstI) code_simp
  have rv: "scrape_reviews_from_modal ?D ?S MAX_PAGINAS_RESENAS ?d1 =
      (Inr ?rs, snd (scrape_reviews_from_modal ?D ?S MAX_PAGINAS_RESENAS ?d1))"
    by (rule pair_fstI) code_simp
  from returns[unfolded a', rule_format, OF g]
  obtain dd s2 where d2: "scrape_detail_page_data ?D ?S (sleep_uniform ?D 2000 4000 ?g1) = (Inr dd, s2)"
    and collected: "\<forall>rs s3. scrape_reviews_from_modal ?D ?S MAX_PAGINAS_RESENAS s2 = (Inr rs, s3) \<longrightarrow>
                  procesar_listing ?D ?S (listing_at ?uno) ?z =
                    ((listing_at ?uno)\<lparr>detail := Some dd, reviews := Some rs\<rparr>, s3)"
    by blast
  from d d2 have dd: "dd = ?dd" and s2: "s2 = ?d1"
    by simp_all
  from collected[unfolded dd s2, rule_format, OF rv]
  have C: "fst (procesar_listing ?D ?S (listing_at ?uno) ?z) =
      (listing_at ?uno)\<lparr>detail := Some ?dd, reviews := Some ?rs\<rparr>"
    by simp
  let ?J = "jammed ?D"
  from orchestrator_enriches_by_prefix[where l = "listing_at ?uno" and drv = ?J and bs = ?S and s = ?z,
      THEN conjunct2, THEN conjunct1] nav_hyp
  obtain b where b: "url (listing_at ?uno) = Some b"
    and returnsJ: "\<forall>u s1. get ?J b ?z = (Inr u, s1) \<longrightarrow>
            (\<exists>dd s2.
               scrape_detail_page_data ?J ?S (sleep_uniform ?J 2000 4000 s1) = (Inr dd, s2) \<and>
               detail (fst (procesar_listing ?J ?S (listing_at ?uno) ?z)) = Some dd \<and>
               (\<forall>e s3. scrape_reviews_from_modal ?J ?S MAX_PAGINAS_RESENAS s2 = (Inl e, s3) \<longrightarrow>
                  procesar_listing ?J ?S (listing_at ?uno) ?z = ((listing_at ?uno)\<lparr>detail := Some dd\<rparr>, s3)) \<and>
               (\<forall>rs s3. scrape_reviews_from_modal ?J ?S MAX_PAGINAS_RESENAS s2 = (Inr rs, s3) \<longrightarrow>
                  procesar_listing ?J ?S (listing_at ?uno) ?z =
                    ((listing_at ?uno)\<lparr>detail := Some dd, reviews := Some rs\<rparr>, s3)))"
    by blast
  note b' = at_uno[OF b]
  let ?j1 = "snd (get ?J ?uno ?z)"
  let ?j2 = "snd (scrape_detail_page_data ?J ?S (sleep_uniform ?J 2000 4000 ?j1))"
  have gJ: "get ?J ?uno ?z = (Inr (), ?j1)"
    by (rule pair_fstI) code_simp
  have dJ: "scrape_detail_page_data ?J ?S (sleep_uniform ?J 2000 4000 ?j1) = (Inr ?dd, ?j2)"
    by (rule pair_fstI) code_simp
  have rvJ: "scrape_reviews_from_modal ?J ?S MAX_PAGINAS_RESENAS ?j2 =
      (Inl OtherException, snd (scrape_reviews_from_modal ?J ?S MAX_PAGINAS_RESENAS ?j2))"
    by (rule pair_fstI) code_simp
  from returnsJ[unfolded b', rule_format, OF gJ]
  obtain ddJ sJ where dJ2: "scrape_detail_page_data ?J ?S (sleep_uniform ?J 2000 4000 ?j1) = (Inr ddJ, sJ)"
    and raised: "\<forall>e s3. scrape_reviews_from_modal ?J ?S MAX_PAGINAS_RESENAS sJ = (Inl e, s3) \<longrightarrow>
                  procesar_listing ?J ?S (listing_at ?uno) ?z = ((listing_at ?uno)\<lparr>detail := Some ddJ\<rparr>, s3)"
    by blast
  from dJ dJ2 have ddJ: "ddJ = ?dd" and sJ: "sJ = ?j2"
    by simp_all
  from raised[unfolded ddJ sJ, rule_format, OF rvJ]
  have D: "fst (procesar_listing ?J ?S (listing_at ?uno) ?z) = (listing_at ?uno)\<lparr>detail := Some ?dd\<rparr>"
    by simp
  let ?O = "offline ?D"
  from orchestrator_enriches_by_prefix[where l = "listing_at ?uno" and drv = ?O and bs = ?S and s = ?z,
      THEN conjunct2, THEN conjunct1] nav_hyp
  obtain c where c: "url (listing_at ?uno) = Some c"
    and raisesO: "\<forall>e s1. get ?O c ?z = (Inl e, s1) \<longrightarrow>
            procesar_listing ?O ?S (listing_at ?uno) ?z = (listing_at ?uno, s1)"
    by blast
  note c' = at_uno[OF c]
  have gO: "get ?O ?uno ?z = (Inl OtherException, snd (get ?O ?uno ?z))"
    by (rule pair_fstI) code_simp
  from raisesO[unfolded c', rule_format, OF gO]
  have E: "fst (procesar_listing ?O ?S (listing_at ?uno) ?z) = listing_at ?uno"
    by simp
  have "map_option fst ?P = Some (Inr True)" by code_simp
  then obtain run' where p: "?P = Some (Inr True, run')" by (rule option_fstE)
  have "map_option (\<lambda>x. length (snd (snd x))) ?P = Some 1" by code_simp
  with p have one: "length (snd run') = 1" by simp
  have fname: "nombre_archivo ''Salinas'' = ''datos_booking/salinas_data.json''" by code_simp
  from orchestrator_enriches_by_prefix[where drv = ?D and bs = ?S and ciudad = "''Salinas''"
      and config = "(''900'', ''city'')" and run = "(?z, [])" and r = "Inr True" and run' = run',
      THEN conjunct2, THEN conjunct2] p one
  obtain found s1 rec where
    h: "scrape_listings_from_search_page ?D ?S
          (generar_url_busqueda ''900'' ''city'' FECHA_CHECKIN FECHA_CHECKOUT) ?z = Some (Inr found, s1)"
    and sv: "snd run' = [(nombre_archivo ''Salinas'', Resultado rec)]"
    and tot: "total_alojamientos rec = length found"
    and keep: "map as_harvested (alojamientos rec) = found"
    and each: "\<forall>i < length found. \<exists>si. alojamientos rec ! i = fst (procesar_listing ?D ?S (found ! i) si)"
    and skipped: "\<forall>i < length found. \<not> url_valida (url (found ! i)) \<longrightarrow>
            alojamientos rec ! i = found ! i \<and>
            detail (alojamientos rec ! i) = None \<and> reviews (alojamientos rec ! i) = None"
    by auto
  have "map_option (\<lambda>x. case fst x of Inr f \<Rightarrow> map url f | Inl e \<Rightarrow> [])
          (scrape_listings_from_search_page ?D ?S
             (generar_url_busqueda ''900'' ''city'' FECHA_CHECKIN FECHA_CHECKOUT) ?z) =
        Some [Some ''https://www.booking.com/hotel/ec/uno.html'', Some ''/hotel/ec/dos.html'', Some ''http:/www.booking.com/hotel/ec/tres.html'']"
    by code_simp
  with h have urls: "map url found = [Some ''https://www.booking.com/hotel/ec/uno.html'', Some ''/hotel/ec/dos.html'', Some ''http:/www.booking.com/hotel/ec/tres.html'']" by simp
  from urls have len: "length found = 3"
    using length_map[of url found] by simp
  from urls len have "url (found ! 1) = Some ''/hotel/ec/dos.html''"
    using nth_map[of 1 found url] by simp
  with skip_hyp have "\<not> url_valida (url (found ! 1))" by (simp add: listing_at_def)
  moreover from len have "(1::nat) < length found" by simp
  ultimately have F: "alojamientos rec ! 1 = found ! 1 \<and>
            detail (alojamientos rec ! 1) = None \<and> reviews (alojamientos rec ! 1) = None"
    using skipped by blast
  from len have "(0::nat) < length found" by simp
  with each have G: "\<exists>si. alojamientos rec ! 0 = fst (procesar_listing ?D ?S (found ! 0) si)"
    by blast
  have H: "\<exists>run' found rec.
      ?P = Some (Inr True, run') \<and>
      snd run' = [(''datos_booking/salinas_data.json'', Resultado rec)] \<and>
      map url found = [Some ''https://www.booking.com/hotel/ec/uno.html'', Some ''/hotel/ec/dos.html'', Some ''http:/www.booking.com/hotel/ec/tres.html''] \<and>
      total_alojamientos rec = length found \<and>
      map as_harvested (alojamientos rec) = found \<and>
      (\<exists>si. alojamientos rec ! 0 = fst (procesar_listing ?D ?S (found ! 0) si)) \<and>
      alojamientos rec ! 1 = found ! 1 \<and>
      detail (alojamientos rec ! 1) = None \<and> reviews (alojamientos rec ! 1) = None"
  proof (intro exI[of _ run'] exI[of _ found] exI[of _ rec] conjI)
    show "?P = Some (Inr True, run')" by (rule p)
    show "snd run' = [(''datos_booking/salinas_data.json'', Resultado rec)]"
      using sv fname by simp
    show "map url found = [Some ''https://www.booking.com/hotel/ec/uno.html'', Some ''/hotel/ec/dos.html'', Some ''http:/www.booking.com/hotel/ec/tres.html'']"
      by (rule urls)
    show "total_alojamientos rec = length found" by (rule tot)
    show "map as_harvested (alojamientos rec) = found" by (rule keep)
    show "\<exists>si. alojamientos rec ! 0 = fst (procesar_listing ?D ?S (found ! 0) si)" by (rule G)
    show "alojamientos rec ! 1 = found ! 1" using F by blast
    show "detail (alojamientos rec ! 1) = None" using F by blast
    show "reviews (alojamientos rec ! 1) = None" using F by blast
  qed
  from A B C D E H show ?thesis by (intro conjI)
qed

subsection \<open>The count of a written record\<close>

text \<open>
  Claim C10. Every document written is counted: in the record of a destination the field
  \<^verbatim>\<open>total_alojamientos\<close> is the length of the list \<^verbatim>\<open>alojamientos\<close>. This holds for what one
  destination adds to the documents written before, and for everything a whole run of
  \<^verbatim>\<open>main\<close> has written.
\<close>

theorem saved_records_counted:
  "(procesar_destino drv bs ciudad config run = Some (r, run') \<and>
    list_all (\<lambda>fd. counted (snd fd)) (snd run) \<longrightarrow>
      list_all (\<lambda>fd. counted (snd fd)) (snd run')) \<and>
   (main lib drv bs (s, []) = Some (r2, run2) \<longrightarrow> list_all (\<lambda>fd. counted (snd fd)) (snd run2))"
  using procesar_destino_counted main_counted by blast

theorem saved_records_counted_witness:
  "\<exists>run'. procesar_destino (site_driver coast_site) (site_soup coast_site) ''Salinas''
             (''900'', ''city'') ((browser0, []), []) = Some (Inr True, run') \<and>
          map fst (snd run') = [''datos_booking/salinas_data.json''] \<and>
          list_all (\<lambda>fd. counted (snd fd)) (snd run')"
proof -
  let ?run = "procesar_destino (site_driver coast_site) (site_soup coast_site) ''Salinas''
             (''900'', ''city'') ((browser0, []), [])"
  have "map_option fst ?run = Some (Inr True)" by code_simp
  then obtain run' where a: "?run = Some (Inr True, run')" by (rule option_fstE)
  have "map_option (\<lambda>x. map fst (snd (snd x))) ?run = Some [''datos_booking/salinas_data.json'']"
    by code_simp
  with a have b: "map fst (snd run') = [''datos_booking/salinas_data.json'']" by simp
  from saved_records_counted[where drv = "site_driver coast_site" and bs = "site_soup coast_site"
      and ciudad = "''Salinas''" and config = "(''900'', ''city'')" and run = "((browser0, []), [])"
      and r = "Inr True" and run' = run', THEN conjunct1] a
  have c: "list_all (\<lambda>fd. counted (snd fd)) (snd run')" by simp
  show ?thesis
    by (rule exI[of _ run']) (intro conjI a b c)
qed

end
